(* ===== verification/Prelude.thy ===== *)
theory Prelude
  imports "HOL-Library.Word" "HOL-Library.Monad_Syntax" "HOL-Library.Multiset"
begin

text \<open>
  Shared vocabulary of the development: the fixed-width integers of the two processors, byte
  buffers with little-endian 32-bit accessors, C strings in byte buffers (\<open>strncpy\<close>, reading
  up to the terminator), byte-addressed memory with unmapped addresses, and the lemmas on
  lists, buffers and memory that the components use. A result of type \<open>'a option\<close> reads
  \<open>None\<close> as undefined behaviour of the C code (an access to unmapped memory) or as a loop
  that does not return; C error codes stay ordinary values.
\<close>

unbundle bit_operations_syntax

named_theorems buf_simps "reading and writing byte buffers at fixed offsets"
named_theorems inv_intros "operations that keep a component's invariant"

subsection \<open>Machine integers\<close>

text \<open>
  Both processors are 32-bit little-endian. \<open>Int\<close>, \<open>UInt32\<close> and pointers are 32-bit words;
  \<open>sint\<close> reads a word as a C \<open>int\<close>, \<open>unat\<close> as an unsigned value or an address.
\<close>

type_synonym u8 = "8 word"
type_synonym u16 = "16 word"
type_synonym u32 = "32 word"
type_synonym bytes = "u8 list"

definition cneg :: "u32 \<Rightarrow> bool" where
  "cneg e \<longleftrightarrow> sint e < 0"

lemma cneg_simps [simp]:
  "\<not> cneg 0" "\<not> cneg 1" "cneg (- 1)" "cneg 0xFFFFFFFF"
  by (simp_all add: cneg_def)

subsection \<open>Lists\<close>

text \<open>\<open>while_first p v xs\<close>: overwrite the first element that satisfies \<open>p\<close>, then stop.\<close>

fun set_first :: "('a \<Rightarrow> bool) \<Rightarrow> 'a \<Rightarrow> 'a list \<Rightarrow> 'a list" where
  "set_first p v [] = []"
| "set_first p v (x # xs) = (if p x then v # xs else x # set_first p v xs)"

lemma length_set_first [simp]: "length (set_first p v xs) = length xs"
  by (induction xs) auto

lemma set_first_none: "\<not> list_ex p xs \<Longrightarrow> set_first p v xs = xs"
  by (induction xs) auto

lemma set_first_replicate [simp]: "\<not> p x \<Longrightarrow> set_first p v (replicate n x) = replicate n x"
  by (induction n) auto

lemma mset_set_first:
  "list_ex p xs \<Longrightarrow> \<exists>x. p x \<and> x \<in># mset xs \<and> mset (set_first p v xs) = add_mset v (mset xs - {#x#})"
proof (induction xs)
  case Nil
  then show ?case by simp
next
  case (Cons a xs)
  show ?case
  proof (cases "p a")
    case True
    then show ?thesis by auto
  next
    case False
    with Cons obtain x where x: "p x" "x \<in># mset xs"
      "mset (set_first p v xs) = add_mset v (mset xs - {#x#})" by auto
    with False have "x \<noteq> a" by auto
    with x False show ?thesis by (intro exI [of _ x]) (auto simp: add_mset_commute)
  qed
qed

lemma mset_set_first_eq:
  assumes "w \<in> set xs"
  shows "mset (set_first (\<lambda>x. x = w) v xs) = add_mset v (mset xs - {#w#})"
  using mset_set_first [of "\<lambda>x. x = w" xs v] assms by (auto simp: list_ex_iff)

text \<open>The index of the first element that satisfies a predicate.\<close>

fun find_index :: "('a \<Rightarrow> bool) \<Rightarrow> 'a list \<Rightarrow> nat option" where
  "find_index p [] = None"
| "find_index p (x # xs) = (if p x then Some 0 else map_option Suc (find_index p xs))"

lemma find_index_Some:
  "find_index p xs = Some i \<Longrightarrow> i < length xs \<and> p (xs ! i) \<and> (\<forall>j<i. \<not> p (xs ! j))"
proof (induction xs arbitrary: i)
  case Nil
  then show ?case by simp
next
  case (Cons x xs)
  show ?case
  proof (cases "p x")
    case True
    with Cons.prems show ?thesis by simp
  next
    case False
    with Cons.prems obtain k where k: "find_index p xs = Some k" "i = Suc k" by auto
    with Cons.IH [OF k(1)] False show ?thesis by (auto simp: less_Suc_eq_0_disj)
  qed
qed

lemma find_index_None: "find_index p xs = None \<longleftrightarrow> \<not> list_ex p xs"
  by (induction xs) auto

lemma find_index_None_nth: "find_index p xs = None \<longleftrightarrow> (\<forall>i<length xs. \<not> p (xs ! i))"
  by (simp add: find_index_None list_ex_length)

lemma find_index_unique:
  assumes "i < length xs" "p (xs ! i)" "\<And>j. j < length xs \<Longrightarrow> p (xs ! j) \<Longrightarrow> j = i"
  shows "find_index p xs = Some i"
proof (cases "find_index p xs")
  case None
  then have "\<not> p (xs ! i)" using assms(1) by (simp add: find_index_None_nth)
  with assms(2) show ?thesis by contradiction
next
  case (Some k)
  from find_index_Some [OF Some] have "k < length xs" "p (xs ! k)" by auto
  then have "k = i" by (rule assms(3))
  with Some show ?thesis by simp
qed

lemma find_index_update_other:
  "i < length xs \<Longrightarrow> \<not> p (xs ! i) \<Longrightarrow> \<not> p c \<Longrightarrow> find_index p (xs[i := c]) = find_index p xs"
  by (induction xs arbitrary: i) (auto split: nat.splits simp: nth_Cons')

subsection \<open>Byte buffers\<close>

text \<open>A 32-bit value as four bytes, least significant first.\<close>

definition bytes_of :: "u32 \<Rightarrow> bytes" where
  "bytes_of w = [ucast w, ucast (drop_bit 8 w), ucast (drop_bit 16 w), ucast (drop_bit 24 w)]"

definition word_of :: "u8 \<Rightarrow> u8 \<Rightarrow> u8 \<Rightarrow> u8 \<Rightarrow> u32" where
  "word_of a b c d =
     ucast a OR push_bit 8 (ucast b) OR push_bit 16 (ucast c) OR push_bit 24 (ucast d)"

lemma length_bytes_of [simp]: "length (bytes_of w) = 4"
  by (simp add: bytes_of_def)

lemma word_of_bytes_of [simp]:
  "word_of (ucast w) (ucast (drop_bit 8 w)) (ucast (drop_bit 16 w)) (ucast (drop_bit 24 w)) = w"
proof (rule bit_word_eqI)
  fix n :: nat
  assume n: "n < LENGTH(32)"
  then consider "n < 8" | "8 \<le> n" "n < 16" | "16 \<le> n" "n < 24" | "24 \<le> n" "n < 32"
    by fastforce
  then show "bit (word_of (ucast w) (ucast (drop_bit 8 w)) (ucast (drop_bit 16 w))
                (ucast (drop_bit 24 w))) n \<longleftrightarrow> bit w n"
    by cases (auto simp: word_of_def bit_simps)
qed

text \<open>\<open>blit off bs buf\<close>: store the bytes \<open>bs\<close> into \<open>buf\<close> from offset \<open>off\<close> on.\<close>

fun blit :: "nat \<Rightarrow> 'a list \<Rightarrow> 'a list \<Rightarrow> 'a list" where
  "blit off [] buf = buf"
| "blit off (b # bs) buf = blit (Suc off) bs (buf[off := b])"

lemma length_blit [simp]: "length (blit off bs buf) = length buf"
  by (induction bs arbitrary: off buf) auto

lemma nth_blit:
  "i < length buf \<Longrightarrow>
     blit off bs buf ! i = (if off \<le> i \<and> i < off + length bs then bs ! (i - off) else buf ! i)"
proof (induction bs arbitrary: off buf)
  case Nil
  then show ?case by auto
next
  case (Cons b bs)
  have IH: "blit (Suc off) bs (buf[off := b]) ! i =
     (if Suc off \<le> i \<and> i < Suc off + length bs then bs ! (i - Suc off) else buf[off := b] ! i)"
    using Cons.prems by (intro Cons.IH) simp
  show ?case
  proof (cases "i = off")
    case True
    with IH Cons.prems show ?thesis by simp
  next
    case False
    then have "off \<le> i \<longleftrightarrow> Suc off \<le> i" by arith
    moreover have "Suc off \<le> i \<Longrightarrow> (b # bs) ! (i - off) = bs ! (i - Suc off)"
      by (simp add: nth_Cons' Suc_diff_Suc)
    ultimately show ?thesis using IH False by simp
  qed
qed

definition get32 :: "nat \<Rightarrow> bytes \<Rightarrow> u32" where
  "get32 off buf =
     word_of (buf ! off) (buf ! (off + 1)) (buf ! (off + 2)) (buf ! (off + 3))"

definition put32 :: "nat \<Rightarrow> u32 \<Rightarrow> bytes \<Rightarrow> bytes" where
  "put32 off w buf = blit off (bytes_of w) buf"

lemma length_put32 [simp]: "length (put32 off w buf) = length buf"
  by (simp add: put32_def)

lemma get32_put32_same [buf_simps]:
  "off + 4 \<le> length buf \<Longrightarrow> get32 off (put32 off w buf) = w"
proof -
  assume len: "off + 4 \<le> length buf"
  have "\<And>i. i < 4 \<Longrightarrow> put32 off w buf ! (off + i) = bytes_of w ! i"
    using len by (simp add: put32_def nth_blit)
  from this [of 0] this [of 1] this [of 2] this [of 3] show ?thesis
    by (simp add: get32_def) (simp add: bytes_of_def)
qed

lemma nth_put32_other [buf_simps]:
  "i < length buf \<Longrightarrow> i < off \<or> off + 4 \<le> i \<Longrightarrow> put32 off w buf ! i = buf ! i"
  by (auto simp: put32_def nth_blit)

lemma get32_cong:
  assumes "\<And>i. i < 4 \<Longrightarrow> a ! (off + i) = b ! (off + i)"
  shows "get32 off a = get32 off b"
  using assms [of 0] assms [of 1] assms [of 2] assms [of 3]
  unfolding get32_def by simp

lemma get32_put32_other [buf_simps]:
  assumes "off + 4 \<le> length buf" "off + 4 \<le> off' \<or> off' + 4 \<le> off"
  shows "get32 off (put32 off' w buf) = get32 off buf"
  by (rule get32_cong) (use assms in \<open>auto intro!: nth_put32_other\<close>)

lemma get32_blit_other [buf_simps]:
  assumes "off + 4 \<le> length buf" "off + 4 \<le> off' \<or> off' + length bs \<le> off"
  shows "get32 off (blit off' bs buf) = get32 off buf"
  by (rule get32_cong) (use assms in \<open>auto simp: nth_blit\<close>)

subsection \<open>C strings\<close>

text \<open>
  A C string value is the list of its bytes before the terminator. \<open>strncpy\<close> copies at most
  \<open>n\<close> bytes and pads with zeros; it writes no terminator of its own when the source has
  \<open>n\<close> bytes or more. Reading a string goes on to the first zero byte of the buffer,
  whatever field that byte belongs to, and is undefined when there is none.
\<close>

type_synonym cstr = bytes

definition cstr_ok :: "cstr \<Rightarrow> bool" where
  "cstr_ok s \<longleftrightarrow> 0 \<notin> set s"

definition strncpy_bytes :: "cstr \<Rightarrow> nat \<Rightarrow> bytes" where
  "strncpy_bytes s n = take n s @ replicate (n - length s) 0"

definition strncpy :: "nat \<Rightarrow> cstr \<Rightarrow> nat \<Rightarrow> bytes \<Rightarrow> bytes" where
  "strncpy off s n buf = blit off (strncpy_bytes s n) buf"

definition read_cstr :: "nat \<Rightarrow> bytes \<Rightarrow> cstr option" where
  "read_cstr off buf =
     (let t = drop off buf in if 0 \<in> set t then Some (takeWhile (\<lambda>b. b \<noteq> 0) t) else None)"

lemma length_strncpy_bytes [simp]: "length (strncpy_bytes s n) = n"
  by (simp add: strncpy_bytes_def)

lemma length_strncpy [simp]: "length (strncpy off s n buf) = length buf"
  by (simp add: strncpy_def)

lemma nth_strncpy:
  assumes "i < length buf"
  shows "strncpy off s n buf ! i =
     (if off \<le> i \<and> i < off + n then (if i - off < length s then s ! (i - off) else 0) else buf ! i)"
  using assms by (auto simp: strncpy_def nth_blit strncpy_bytes_def nth_append)

lemma get32_strncpy_other [buf_simps]:
  "off + 4 \<le> length buf \<Longrightarrow> off + 4 \<le> off' \<or> off' + n \<le> off \<Longrightarrow>
     get32 off (strncpy off' s n buf) = get32 off buf"
  by (simp add: strncpy_def get32_blit_other)

text \<open>
  A string is read back when its bytes stand in the buffer and a zero byte follows them.
\<close>

lemma read_cstr_eqI:
  assumes "off + length s < length buf" "cstr_ok s"
    and "\<And>i. i < length s \<Longrightarrow> buf ! (off + i) = s ! i" "buf ! (off + length s) = 0"
  shows "read_cstr off buf = Some s"
proof -
  let ?t = "drop off buf"
  have len: "length s < length ?t" using assms(1) by simp
  have tk: "take (length s) ?t = s"
    using assms(1,3) by (intro nth_equalityI) auto
  have z: "?t ! length s = 0" using assms(1,4) by simp
  have split: "?t = s @ 0 # drop (Suc (length s)) ?t"
    using tk z len by (metis append_take_drop_id Cons_nth_drop_Suc)
  have "takeWhile (\<lambda>b. b \<noteq> 0) ?t = s"
    using assms(2) by (subst split) (auto simp: cstr_ok_def takeWhile_append)
  moreover have "0 \<in> set ?t" using split by (metis in_set_conv_decomp)
  ultimately show ?thesis by (simp add: read_cstr_def Let_def)
qed

lemma read_cstr_strncpy:
  assumes "cstr_ok s" "length s < n" "off + n \<le> length buf"
  shows "read_cstr off (strncpy off s n buf) = Some s"
  by (rule read_cstr_eqI) (use assms in \<open>auto simp: nth_strncpy\<close>)

subsection \<open>Memory\<close>

text \<open>
  Byte-addressed memory; \<open>None\<close> is an unmapped address. Loads and stores of four bytes fail
  when one of the addresses is unmapped.
\<close>

type_synonym mem = "u32 \<Rightarrow> u8 option"

definition load32 :: "mem \<Rightarrow> u32 \<Rightarrow> u32 option" where
  "load32 m a = do {
     b0 \<leftarrow> m a; b1 \<leftarrow> m (a + 1); b2 \<leftarrow> m (a + 2); b3 \<leftarrow> m (a + 3);
     Some (word_of b0 b1 b2 b3) }"

definition store8 :: "mem \<Rightarrow> u32 \<Rightarrow> u8 \<Rightarrow> mem option" where
  "store8 m a b = (case m a of None \<Rightarrow> None | Some _ \<Rightarrow> Some (m(a := Some b)))"

fun store_bytes :: "mem \<Rightarrow> u32 \<Rightarrow> bytes \<Rightarrow> mem option" where
  "store_bytes m a [] = Some m"
| "store_bytes m a (b # bs) = do { m' \<leftarrow> store8 m a b; store_bytes m' (a + 1) bs }"

definition store32 :: "mem \<Rightarrow> u32 \<Rightarrow> u32 \<Rightarrow> mem option" where
  "store32 m a w = store_bytes m a (bytes_of w)"

text \<open>All of the \<open>n\<close> addresses from \<open>a\<close> on (modulo \<open>2 ^ 32\<close>) are mapped.\<close>

definition mapped :: "mem \<Rightarrow> u32 \<Rightarrow> nat \<Rightarrow> bool" where
  "mapped m a n \<longleftrightarrow> list_all (\<lambda>i. m (a + of_nat i) \<noteq> None) [0..<n]"

text \<open>
  The memory after a store of mapped bytes, as a function: an address \<open>x\<close> is inside the stored
  block when its distance from the start, modulo \<open>2 ^ 32\<close>, is less than the length.
\<close>

definition mem_blit :: "u32 \<Rightarrow> bytes \<Rightarrow> mem \<Rightarrow> mem" where
  "mem_blit a bs m =
     (\<lambda>x. if unat (x - a) < length bs then Some (bs ! unat (x - a)) else m x)"

lemma mapped_iff: "mapped m a n \<longleftrightarrow> (\<forall>i<n. m (a + of_nat i) \<noteq> None)"
  by (auto simp: mapped_def list_all_iff)

lemma mapped_0 [simp]: "mapped m a 0"
  by (simp add: mapped_def)

lemma mapped_Suc: "mapped m a (Suc n) \<longleftrightarrow> m a \<noteq> None \<and> mapped m (a + 1) n"
proof -
  have "(\<forall>i<Suc n. m (a + of_nat i) \<noteq> None) \<longleftrightarrow>
      m a \<noteq> None \<and> (\<forall>i<n. m (a + of_nat (Suc i)) \<noteq> None)"
    by (auto simp: less_Suc_eq_0_disj)
  then show ?thesis by (simp add: mapped_iff add.assoc)
qed

lemma mapped_mono: "mapped m a n \<Longrightarrow> k \<le> n \<Longrightarrow> mapped m a k"
  by (simp add: mapped_iff)

lemma mapped_tail: "mapped m a n \<Longrightarrow> k + l \<le> n \<Longrightarrow> mapped m (a + of_nat k) l"
  by (simp add: mapped_iff) (metis (no_types) add.assoc add_less_cancel_left of_nat_add order_less_le_trans)

lemma mem_blit_Nil [simp]: "mem_blit a [] m = m"
  by (simp add: mem_blit_def)

lemma unat_dist_Suc:
  fixes x a :: u32
  shows "unat (x - (a + 1)) = (if x = a then 2 ^ 32 - 1 else unat (x - a) - 1)"
proof (cases "x = a")
  case True
  then show ?thesis by (simp add: unsigned_minus_1_eq_mask mask_eq_exp_minus_1)
next
  case False
  then have "x - a \<noteq> 0" by simp
  then have "unat (x - a - 1) = unat (x - a) - 1" by (simp add: unat_minus_one)
  with False show ?thesis by (simp add: diff_diff_add)
qed

lemma mem_blit_Cons:
  assumes "length bs < 2 ^ 32"
  shows "mem_blit (a + 1) bs (m(a \<mapsto> b)) = mem_blit a (b # bs) m"
proof
  fix x
  show "mem_blit (a + 1) bs (m(a \<mapsto> b)) x = mem_blit a (b # bs) m x"
  proof (cases "x = a")
    case True
    with assms show ?thesis by (simp add: mem_blit_def unat_dist_Suc)
  next
    case False
    then have "unat (x - a) \<noteq> 0" by (simp add: unat_eq_0)
    then obtain k where "unat (x - a) = Suc k" by (cases "unat (x - a)") auto
    with False show ?thesis by (simp add: mem_blit_def unat_dist_Suc)
  qed
qed

lemma dom_mem_blit_mapped: "m x \<noteq> None \<Longrightarrow> mem_blit a bs m x \<noteq> None"
  by (simp add: mem_blit_def)

lemma mapped_mem_blit: "mapped m b n \<Longrightarrow> mapped (mem_blit a bs m) b n"
  unfolding mapped_iff using dom_mem_blit_mapped by blast

text \<open>A store succeeds when its block is mapped, and then it is \<open>mem_blit\<close>.\<close>

lemma store_bytes_mapped:
  assumes "mapped m a (length bs)" "length bs \<le> 2 ^ 32"
  shows "store_bytes m a bs = Some (mem_blit a bs m)"
  using assms
proof (induction bs arbitrary: m a)
  case Nil
  then show ?case by simp
next
  case (Cons b bs)
  from Cons.prems obtain v where v: "m a = Some v" and "mapped m (a + 1) (length bs)"
    by (auto simp: mapped_Suc)
  then have mp: "mapped (m(a \<mapsto> b)) (a + 1) (length bs)" by (auto simp: mapped_iff)
  have le: "length bs \<le> 2 ^ 32" and lt: "length bs < 2 ^ 32" using Cons.prems(2) by simp_all
  have "store_bytes m a (b # bs) = store_bytes (m(a \<mapsto> b)) (a + 1) bs"
    using v by (simp add: store8_def)
  also have "\<dots> = Some (mem_blit (a + 1) bs (m(a \<mapsto> b)))" by (rule Cons.IH [OF mp le])
  also have "\<dots> = Some (mem_blit a (b # bs) m)" by (simp only: mem_blit_Cons [OF lt])
  finally show ?case .
qed

lemma store32_mapped: "mapped m a 4 \<Longrightarrow> store32 m a w = Some (mem_blit a (bytes_of w) m)"
  by (simp add: store32_def store_bytes_mapped)

text \<open>A store to unmapped memory is undefined behaviour.\<close>

lemma store32_unmapped: "m a = None \<Longrightarrow> store32 m a w = None"
  by (simp add: store32_def bytes_of_def store8_def)

lemma load32_unmapped: "m a = None \<Longrightarrow> load32 m a = None"
  by (simp add: load32_def)

lemma mem_blit_nth:
  "i < length bs \<Longrightarrow> length bs \<le> 2 ^ 32 \<Longrightarrow> mem_blit a bs m (a + of_nat i) = Some (bs ! i)"
  by (simp add: mem_blit_def unsigned_of_nat take_bit_nat_eq_self)

lemma load32_mem_blit_same: "load32 (mem_blit a (bytes_of w) m) a = Some w"
proof -
  have "\<And>i. i < 4 \<Longrightarrow> mem_blit a (bytes_of w) m (a + of_nat i) = Some (bytes_of w ! i)"
    by (simp add: mem_blit_nth)
  from this [of 0] this [of 1] this [of 2] this [of 3] show ?thesis
    by (simp add: load32_def) (simp add: bytes_of_def)
qed

lemma mem_blit_outside: "length bs \<le> unat (x - a) \<Longrightarrow> mem_blit a bs m x = m x"
  by (simp add: mem_blit_def)

lemma load32_cong:
  assumes "\<And>i. i < 4 \<Longrightarrow> m (a + of_nat i) = m' (a + of_nat i)"
  shows "load32 m a = load32 m' a"
  using assms [of 0] assms [of 1] assms [of 2] assms [of 3] by (simp add: load32_def)


text \<open>Blocks that follow each other from the same start do not overlap.\<close>

lemma unat_neg_of_nat:
  assumes "0 < j" "j < 2 ^ 32"
  shows "unat (- of_nat j :: u32) = 2 ^ 32 - j"
proof -
  have "of_nat (2 ^ 32 - j) = (of_nat (2 ^ 32) - of_nat j :: u32)"
    using assms(2) by (intro of_nat_diff) simp
  then have "- of_nat j = (of_nat (2 ^ 32 - j) :: u32)" by simp
  then have "unat (- of_nat j :: u32) = unat (of_nat (2 ^ 32 - j) :: u32)" by (simp only:)
  also have "\<dots> = take_bit 32 (2 ^ 32 - j)" by (simp only: unsigned_of_nat) simp
  also have "\<dots> = 2 ^ 32 - j" using assms by (intro take_bit_nat_eq_self) simp
  finally show ?thesis .
qed

lemma unat_le_2p32: "unat (w :: u32) \<le> 2 ^ 32"
  using unsigned_less [of w, where 'a = nat] by simp

lemma mem_blit_before:
  assumes "i < k" "length bs + k \<le> 2 ^ 32"
  shows "mem_blit (h + of_nat k) bs m (h + of_nat i) = m (h + of_nat i)"
proof (cases "bs = []")
  case False
  have "h + of_nat i - (h + of_nat k) = (- of_nat (k - i) :: u32)"
    using assms(1) by (simp add: of_nat_diff)
  moreover have "k - i < 2 ^ 32" using False assms by (cases bs) simp_all
  ultimately have "unat (h + of_nat i - (h + of_nat k)) = 2 ^ 32 - (k - i)"
    using assms(1) by (simp only: unat_neg_of_nat [of "k - i"] zero_less_diff)
  moreover have "length bs \<le> 2 ^ 32 - (k - i)" using assms(2) by simp
  ultimately show ?thesis by (intro mem_blit_outside) simp
qed simp

lemma mem_blit_after:
  assumes "k + length bs \<le> i" "i < 2 ^ 32"
  shows "mem_blit (h + of_nat k) bs m (h + of_nat i) = m (h + of_nat i)"
proof -
  have "h + of_nat i - (h + of_nat k) = (of_nat (i - k) :: u32)"
    using assms(1) by (simp add: of_nat_diff)
  then have "unat (h + of_nat i - (h + of_nat k)) = i - k"
    using assms(2) by (simp add: unsigned_of_nat take_bit_nat_eq_self)
  then show ?thesis using assms(1) by (intro mem_blit_outside) simp
qed

lemma load32_blit_before:
  assumes "i + 4 \<le> k" "length bs + k \<le> 2 ^ 32"
  shows "load32 (mem_blit (h + of_nat k) bs m) (h + of_nat i) = load32 m (h + of_nat i)"
proof (rule load32_cong)
  fix j :: nat
  assume "j < 4"
  then show "mem_blit (h + of_nat k) bs m (h + of_nat i + of_nat j) = m (h + of_nat i + of_nat j)"
    using mem_blit_before [of "i + j" k bs h m] assms by (simp add: add.assoc)
qed

lemma load32_blit_after:
  assumes "k + length bs \<le> i" "i + 4 \<le> 2 ^ 32"
  shows "load32 (mem_blit (h + of_nat k) bs m) (h + of_nat i) = load32 m (h + of_nat i)"
proof (rule load32_cong)
  fix j :: nat
  assume "j < 4"
  then show "mem_blit (h + of_nat k) bs m (h + of_nat i + of_nat j) = m (h + of_nat i + of_nat j)"
    using mem_blit_after [of k bs "i + j" h m] assms by (simp add: add.assoc)
qed

end
