(* ===== verification/C_Layout.thy ===== *)
theory C_Layout
  imports Prelude
begin

text \<open>
  The C object layout that both compilers use for the structures the A9 client and the M3
  server share in memory: integers of a width, 4-byte pointers, arrays, structures and unions
  with natural alignment. The interface headers are modelled as values of \<open>ctype\<close> (one per
  \<open>struct\<close> or \<open>union\<close>, its members in declaration order); sizes, member offsets and the
  accesses of the code through them are computed from these values. The lemmas: a structure
  has no padding iff it has the packed layout, and the members of a first member keep their
  offsets in every structure that extends it (the ground of the codecs' downcasts).
\<close>

named_theorems layout "sizes and alignments of the interface structures"

datatype ctype =
    CInt nat                              \<comment> \<open>an integer or enum of that many bytes\<close>
  | CPtr                                  \<comment> \<open>a data or function pointer\<close>
  | CArr nat ctype
  | CStruct "(string \<times> ctype) list"
  | CUnion "(string \<times> ctype) list"

abbreviation "CI8 \<equiv> CInt 1"
abbreviation "CI16 \<equiv> CInt 2"
abbreviation "CI32 \<equiv> CInt 4"

definition align_up :: "nat \<Rightarrow> nat \<Rightarrow> nat" where
  "align_up n a = (if n mod a = 0 then n else n + (a - n mod a))"

fun calign :: "ctype \<Rightarrow> nat" and falign :: "(string \<times> ctype) list \<Rightarrow> nat" where
  "calign (CInt n) = n"
| "calign CPtr = 4"
| "calign (CArr n t) = calign t"
| "calign (CStruct fs) = falign fs"
| "calign (CUnion fs) = falign fs"
| "falign [] = 1"
| "falign ((f, t) # fs) = max (calign t) (falign fs)"

fun csize :: "ctype \<Rightarrow> nat" and fend :: "nat \<Rightarrow> (string \<times> ctype) list \<Rightarrow> nat"
  and fmax :: "(string \<times> ctype) list \<Rightarrow> nat" where
  "csize (CInt n) = n"
| "csize CPtr = 4"
| "csize (CArr n t) = n * csize t"
| "csize (CStruct fs) = align_up (fend 0 fs) (falign fs)"
| "csize (CUnion fs) = align_up (fmax fs) (falign fs)"
| "fend off [] = off"
| "fend off ((f, t) # fs) = fend (align_up off (calign t) + csize t) fs"
| "fmax [] = 0"
| "fmax ((f, t) # fs) = max (csize t) (fmax fs)"

text \<open>The size with every member right after the one before.\<close>

fun psize :: "ctype \<Rightarrow> nat" and psum :: "(string \<times> ctype) list \<Rightarrow> nat"
  and pmax :: "(string \<times> ctype) list \<Rightarrow> nat" where
  "psize (CInt n) = n"
| "psize CPtr = 4"
| "psize (CArr n t) = n * psize t"
| "psize (CStruct fs) = psum fs"
| "psize (CUnion fs) = pmax fs"
| "psum [] = 0"
| "psum ((f, t) # fs) = psize t + psum fs"
| "pmax [] = 0"
| "pmax ((f, t) # fs) = max (psize t) (pmax fs)"

text \<open>Offset and type of a member, by its path of names.\<close>

fun flookup :: "nat \<Rightarrow> (string \<times> ctype) list \<Rightarrow> string \<Rightarrow> (nat \<times> ctype) option" where
  "flookup off [] g = None"
| "flookup off ((f, t) # fs) g =
     (let o' = align_up off (calign t)
      in if f = g then Some (o', t) else flookup (o' + csize t) fs g)"

fun member :: "ctype \<Rightarrow> string \<Rightarrow> (nat \<times> ctype) option" where
  "member (CStruct fs) g = flookup 0 fs g"
| "member (CUnion fs) g = map_option (\<lambda>t. (0, t)) (map_of fs g)"
| "member _ g = None"

fun locate :: "ctype \<Rightarrow> string list \<Rightarrow> (nat \<times> ctype) option" where
  "locate t [] = Some (0, t)"
| "locate t (g # gs) = do {
     (o1, t1) \<leftarrow> member t g;
     (o2, t2) \<leftarrow> locate t1 gs;
     Some (o1 + o2, t2) }"

definition offset_of :: "ctype \<Rightarrow> string list \<Rightarrow> nat option" where
  "offset_of t p = map_option fst (locate t p)"

text \<open>The natural layout takes no more bytes than the members do when they are packed.\<close>

definition no_padding :: "ctype \<Rightarrow> bool" where
  "no_padding t \<longleftrightarrow> csize t = psize t"

definition extends :: "ctype \<Rightarrow> ctype \<Rightarrow> bool" where
  "extends base ext \<longleftrightarrow> (case ext of CStruct ((f, t) # fs) \<Rightarrow> t = base | _ \<Rightarrow> False)"

subsection \<open>Facts about layouts\<close>

text \<open>Every alignment that occurs is positive, as in C.\<close>

fun wf_ctype :: "ctype \<Rightarrow> bool" and wf_fields :: "(string \<times> ctype) list \<Rightarrow> bool" where
  "wf_ctype (CInt n) \<longleftrightarrow> 0 < n"
| "wf_ctype CPtr \<longleftrightarrow> True"
| "wf_ctype (CArr n t) \<longleftrightarrow> wf_ctype t"
| "wf_ctype (CStruct fs) \<longleftrightarrow> wf_fields fs"
| "wf_ctype (CUnion fs) \<longleftrightarrow> wf_fields fs"
| "wf_fields [] \<longleftrightarrow> True"
| "wf_fields ((f, t) # fs) \<longleftrightarrow> wf_ctype t \<and> wf_fields fs"

lemma align_up_ge: "n \<le> align_up n a"
  by (simp add: align_up_def)

lemma align_up_0 [simp]: "align_up 0 a = 0"
  by (simp add: align_up_def)

lemma align_up_dvd: "0 < a \<Longrightarrow> a dvd align_up n a"
proof (cases "n mod a = 0")
  case True
  then show ?thesis by (auto simp: align_up_def)
next
  case False
  assume a: "0 < a"
  have "n + (a - n mod a) = a * (n div a) + a"
    using mod_less_divisor [OF a, of n] mult_div_mod_eq [of a n] by linarith
  then show ?thesis using False by (simp add: align_up_def)
qed

lemma fend_ge: "off \<le> fend off fs"
proof (induction fs arbitrary: off)
  case Nil
  then show ?case by simp
next
  case (Cons p fs)
  obtain f t where p: "p = (f, t)" by (cases p)
  have "off \<le> align_up off (calign t) + csize t"
    using align_up_ge [of off "calign t"] by simp
  also have "\<dots> \<le> fend (align_up off (calign t) + csize t) fs" by (rule Cons.IH)
  finally show ?case by (simp add: p)
qed

lemma flookup_bounds:
  "flookup off fs g = Some (o', t) \<Longrightarrow> off \<le> o' \<and> o' + csize t \<le> fend off fs"
proof (induction fs arbitrary: off)
  case Nil
  then show ?case by simp
next
  case (Cons p fs)
  obtain f u where p: "p = (f, u)" by (cases p)
  let ?a = "align_up off (calign u)"
  show ?case
  proof (cases "f = g")
    case True
    with Cons.prems p have "o' = ?a" "t = u" by (auto simp: Let_def)
    with True show ?thesis using align_up_ge [of off "calign u"] fend_ge [of "?a + csize u" fs]
      by (simp add: p)
  next
    case False
    with Cons.prems p have "flookup (?a + csize u) fs g = Some (o', t)" by (simp add: Let_def)
    from Cons.IH [OF this] have "?a + csize u \<le> o'" "o' + csize t \<le> fend (?a + csize u) fs"
      by auto
    with align_up_ge [of off "calign u"] show ?thesis by (simp add: p)
  qed
qed

lemma fmax_ge: "map_of fs g = Some t \<Longrightarrow> csize t \<le> fmax fs"
  by (induction fs) (auto split: if_splits)

lemma member_bounds:
  "member t g = Some (o1, t1) \<Longrightarrow> o1 + csize t1 \<le> csize t"
proof (cases t)
  case (CStruct fs)
  assume "member t g = Some (o1, t1)"
  with CStruct have "o1 + csize t1 \<le> fend 0 fs"
    by (auto dest: flookup_bounds)
  with CStruct align_up_ge [of "fend 0 fs" "falign fs"] show ?thesis by simp
next
  case (CUnion fs)
  assume "member t g = Some (o1, t1)"
  with CUnion have "o1 = 0" "csize t1 \<le> fmax fs" by (auto simp: fmax_ge)
  with CUnion align_up_ge [of "fmax fs" "falign fs"] show ?thesis by simp
qed auto

text \<open>Every member of a structure, at any depth, lies inside the structure.\<close>

lemma locate_bounds:
  "locate t p = Some (off, u) \<Longrightarrow> off + csize u \<le> csize t"
proof (induction p arbitrary: t off)
  case Nil
  then show ?case by simp
next
  case (Cons g gs)
  then obtain o1 t1 o2 where m: "member t g = Some (o1, t1)"
    and l: "locate t1 gs = Some (o2, u)" and off: "off = o1 + o2"
    by (auto split: Option.bind_splits)
  from Cons.IH [OF l] have "o2 + csize u \<le> csize t1" .
  with member_bounds [OF m] off show ?case by simp
qed

text \<open>A pointer to a structure is a pointer to its first member.\<close>

lemma locate_extends:
  "extends base (CStruct ((f, base) # fs)) \<and>
   locate (CStruct ((f, base) # fs)) (f # p) = locate base p"
  by (auto simp: extends_def Let_def split: Option.bind_splits)

end
