(* ===== verification/Base_Types.thy ===== *)
theory Base_Types
  imports C_Layout
begin

text \<open>
  The base types: the typedefs of \<^verbatim>\<open>xdc/std.h\<close> under the macros that select them, those of
  \<^verbatim>\<open>xdas.h\<close> on top, and the ones \<^verbatim>\<open>dce.c\<close> declares for the client; the conversions between arguments,
  pointers and floats; the trace macros of \<^verbatim>\<open>dce_priv.h\<close>. A header is the list of its typedefs in the
  order of the file, and compiling it resolves each by the ones before. The lemmas: in an accepted
  compilation every name stands for what its typedef says, and the names the interface structures
  are declared with have the sizes and signs that the layouts of the other theories use.
\<close>

subsection \<open>Typedefs\<close>

datatype prim =
    P_void | P_char | P_schar | P_uchar | P_short | P_ushort | P_int | P_uint | P_long | P_ulong
  | P_llong | P_ullong | P_float | P_double | P_ldouble | P_size_t | P_va_list

text \<open>The right-hand side of a typedef, and the type it stands for.\<close>

datatype tyexp = Prim prim | Named string | Pointer_to tyexp | Function_Pointer

datatype cty = Scalar prim | Pointer cty | Fun_Pointer

type_synonym typedefs = "(string \<times> tyexp) list"

fun denote :: "(string \<times> cty) list \<Rightarrow> tyexp \<Rightarrow> cty option" where
  "denote env (Prim p) = Some (Scalar p)"
| "denote env (Named n) = map_of env n"
| "denote env (Pointer_to e) = map_option Pointer (denote env e)"
| "denote env Function_Pointer = Some Fun_Pointer"

text \<open>Compiling: a name that is not declared, or declared twice, is an error.\<close>

fun elaborate :: "(string \<times> cty) list \<Rightarrow> typedefs \<Rightarrow> (string \<times> cty) list option" where
  "elaborate env [] = Some env"
| "elaborate env ((n, e) # ds) =
     (if n \<in> fst ` set env then None
      else case denote env e of None \<Rightarrow> None | Some t \<Rightarrow> elaborate ((n, t) # env) ds)"

text \<open>
  Sizes on the two ARM processors, and whether an integer is signed; plain \<open>char\<close> is not on ARM.
\<close>

fun prim_layout :: "prim \<Rightarrow> (ctype \<times> bool) option" where
  "prim_layout P_void = None"
| "prim_layout P_char = Some (CI8, False)"
| "prim_layout P_schar = Some (CI8, True)"
| "prim_layout P_uchar = Some (CI8, False)"
| "prim_layout P_short = Some (CI16, True)"
| "prim_layout P_ushort = Some (CI16, False)"
| "prim_layout P_int = Some (CI32, True)"
| "prim_layout P_uint = Some (CI32, False)"
| "prim_layout P_long = Some (CI32, True)"
| "prim_layout P_ulong = Some (CI32, False)"
| "prim_layout P_llong = Some (CInt 8, True)"
| "prim_layout P_ullong = Some (CInt 8, False)"
| "prim_layout P_float = Some (CInt 4, True)"
| "prim_layout P_double = Some (CInt 8, True)"
| "prim_layout P_ldouble = Some (CInt 8, True)"
| "prim_layout P_size_t = Some (CI32, False)"
| "prim_layout P_va_list = Some (CPtr, False)"

fun cty_layout :: "cty \<Rightarrow> (ctype \<times> bool) option" where
  "cty_layout (Scalar p) = prim_layout p"
| "cty_layout (Pointer t) = Some (CPtr, False)"
| "cty_layout Fun_Pointer = Some (CPtr, False)"

definition layout_of :: "(string \<times> cty) list \<Rightarrow> string \<Rightarrow> (ctype \<times> bool) option" where
  "layout_of env n = Option.bind (map_of env n) cty_layout"

subsection \<open>The header \<^verbatim>\<open>std.h\<close>\<close>

text \<open>The macros that select parts of it.\<close>

record std_macros =
  xdc_LONGLONG :: bool
  xdc_INT64 :: bool
  xdc_nolocalnames :: bool
  xdc_strict :: bool
  xdc_ARG :: bool
  xdc_BITS8 :: bool
  xdc_BITS16 :: bool
  xdc_BITS32 :: bool
  xdc_BITS64 :: bool

definition standard_types :: typedefs where
  "standard_types = [
     (''xdc_Void'', Prim P_void), (''xdc_Char'', Prim P_char), (''xdc_UChar'', Prim P_uchar),
     (''xdc_Short'', Prim P_short), (''xdc_UShort'', Prim P_ushort), (''xdc_Int'', Prim P_int),
     (''xdc_UInt'', Prim P_uint), (''xdc_Long'', Prim P_long), (''xdc_ULong'', Prim P_ulong),
     (''xdc_Float'', Prim P_float), (''xdc_Double'', Prim P_double), (''xdc_LDouble'', Prim P_ldouble),
     (''xdc_SizeT'', Prim P_size_t), (''xdc_VaList'', Prim P_va_list)]"

definition extended_types :: typedefs where
  "extended_types = [
     (''xdc_Bool'', Prim P_ushort), (''xdc_Ptr'', Pointer_to (Prim P_void)),
     (''xdc_String'', Pointer_to (Prim P_char)), (''xdc_Fxn'', Function_Pointer)]"

text \<open>What stands for the header of the target when no target is named.\<close>

definition default_target :: typedefs where
  "default_target = [
     (''xdc_IArg'', Prim P_int), (''xdc_UArg'', Prim P_uint), (''xdc_Int8'', Prim P_schar),
     (''xdc_UInt8'', Prim P_uchar), (''xdc_Int16'', Prim P_short), (''xdc_UInt16'', Prim P_ushort),
     (''xdc_Int32'', Prim P_int), (''xdc_UInt32'', Prim P_uint)]"

definition long_long_types :: "std_macros \<Rightarrow> typedefs" where
  "long_long_types m =
     (if xdc_LONGLONG m then [(''xdc_LLong'', Prim P_llong), (''xdc_ULLong'', Prim P_ullong)]
      else if \<not> xdc_INT64 m then [(''xdc_LLong'', Prim P_long), (''xdc_ULLong'', Prim P_ulong)]
      else [])"

definition local_aliases :: typedefs where
  "local_aliases = [
     (''Void'', Named ''xdc_Void''), (''Char'', Named ''xdc_Char''), (''UChar'', Named ''xdc_UChar''),
     (''Short'', Named ''xdc_Short''), (''UShort'', Named ''xdc_UShort''), (''Int'', Named ''xdc_Int''),
     (''UInt'', Named ''xdc_UInt''), (''Long'', Named ''xdc_Long''), (''ULong'', Named ''xdc_ULong''),
     (''LLong'', Named ''xdc_LLong''), (''ULLong'', Named ''xdc_ULLong''), (''Float'', Named ''xdc_Float''),
     (''Double'', Named ''xdc_Double''), (''LDouble'', Named ''xdc_LDouble''), (''SizeT'', Named ''xdc_SizeT''),
     (''VaList'', Named ''xdc_VaList''), (''IArg'', Named ''xdc_IArg''), (''UArg'', Named ''xdc_UArg''),
     (''Bool'', Named ''xdc_Bool''), (''Int8'', Named ''xdc_Int8''), (''Int16'', Named ''xdc_Int16''),
     (''Int32'', Named ''xdc_Int32''), (''Fxn'', Named ''xdc_Fxn''), (''Ptr'', Named ''xdc_Ptr''),
     (''String'', Named ''xdc_String''), (''UInt8'', Named ''xdc_UInt8''), (''UInt16'', Named ''xdc_UInt16''),
     (''UInt32'', Named ''xdc_UInt32'')]"

definition old_aliases :: typedefs where
  "old_aliases = [(''Uint8'', Named ''xdc_UInt8''), (''Uint16'', Named ''xdc_UInt16''),
     (''Uint32'', Named ''xdc_UInt32''), (''Uns'', Named ''xdc_UInt'')]"

definition deprecated_aliases :: "std_macros \<Rightarrow> typedefs" where
  "deprecated_aliases m = (if xdc_strict m then []
     else (if xdc_ARG m then [(''Arg'', Named ''xdc_Arg'')] else []) @ old_aliases)"

definition optional_aliases :: "std_macros \<Rightarrow> typedefs" where
  "optional_aliases m =
     (if xdc_INT64 m then [(''Int64'', Named ''xdc_Int64''), (''UInt64'', Named ''xdc_UInt64'')] else []) @
     (if xdc_BITS8 m then [(''Bits8'', Named ''xdc_Bits8'')] else []) @
     (if xdc_BITS16 m then [(''Bits16'', Named ''xdc_Bits16'')] else []) @
     (if xdc_BITS32 m then [(''Bits32'', Named ''xdc_Bits32'')] else []) @
     (if xdc_BITS64 m then [(''Bits64'', Named ''xdc_Bits64'')] else [])"

definition unprefixed_aliases :: "std_macros \<Rightarrow> typedefs" where
  "unprefixed_aliases m = (if xdc_nolocalnames m then []
     else local_aliases @ deprecated_aliases m @ optional_aliases m)"

text \<open>The whole header; the header of a target is a parameter. \<open>Void\<close> is a macro there, not a typedef.\<close>

definition std_h :: "typedefs option \<Rightarrow> std_macros \<Rightarrow> typedefs" where
  "std_h target m = standard_types @ extended_types @
     (case target of Some ds \<Rightarrow> ds | None \<Rightarrow> default_target) @ long_long_types m @ unprefixed_aliases m"

definition std_NULL :: u32 where [simp]: "std_NULL = 0"

definition std_FALSE :: u32 where [simp]: "std_FALSE = 0"

definition std_TRUE :: u32 where [simp]: "std_TRUE = 1"

subsection \<open>The header \<^verbatim>\<open>xdas.h\<close> and the client's own typedefs\<close>

definition XDAS_TRUE :: u32 where [simp]: "XDAS_TRUE = 1"

definition XDAS_FALSE :: u32 where [simp]: "XDAS_FALSE = 0"

definition xdas_h :: typedefs where
  "xdas_h = [
     (''XDAS_Void'', Named ''Void''), (''XDAS_Bool'', Named ''Uint8''), (''XDAS_Int8'', Named ''Int8''),
     (''XDAS_UInt8'', Named ''Uint8''), (''XDAS_Int16'', Named ''Int16''), (''XDAS_UInt16'', Named ''Uint16''),
     (''XDAS_Int32'', Named ''Int32''), (''XDAS_UInt32'', Named ''Uint32'')]"

definition dce_client_types :: typedefs where
  "dce_client_types = [
     (''Uint32'', Named ''UInt32''), (''Uint16'', Named ''UInt16''), (''Uint8'', Named ''UInt8''),
     (''Uns'', Named ''UInt32'')]"

subsection \<open>What an accepted compilation declares\<close>

lemma elaborate_append:
  "elaborate env (ds @ ds') = Option.bind (elaborate env ds) (\<lambda>env'. elaborate env' ds')"
  by (induction ds arbitrary: env) (auto split: option.split)

lemma map_of_Some_fst: "map_of env n = Some t \<Longrightarrow> n \<in> fst ` set env"
  by (metis map_of_eq_None_iff option.distinct(1))

lemma elaborate_keeps: "elaborate env ds = Some env' \<Longrightarrow> map_of env n = Some t \<Longrightarrow> map_of env' n = Some t"
proof (induction env ds rule: elaborate.induct)
  case (2 env k e ds)
  then have "n \<noteq> k" using map_of_Some_fst [OF 2(3)] by (auto split: if_splits)
  with 2 show ?case by (auto split: if_splits option.splits)
qed simp

lemma denote_mono:
  assumes "\<And>n t. map_of env n = Some t \<Longrightarrow> map_of env' n = Some t"
  shows "denote env e = Some t \<Longrightarrow> denote env' e = Some t"
  by (induction e arbitrary: t) (auto intro: assms)

text \<open>In the end every declared name stands for what the right-hand side of its typedef stands for.\<close>

lemma elaborate_final:
  "elaborate env ds = Some env' \<Longrightarrow> (n, e) \<in> set ds \<Longrightarrow> denote env' e \<noteq> None \<and> map_of env' n = denote env' e"
proof (induction env ds rule: elaborate.induct)
  case (2 env k f ds)
  then obtain t where t: "denote env f = Some t" "elaborate ((k, t) # env) ds = Some env'" "k \<notin> fst ` set env"
    by (auto split: if_splits option.splits)
  show ?case
  proof (cases "(n, e) = (k, f)")
    case True
    have k: "map_of env' k = Some t" using elaborate_keeps [OF t(2), of k t] by simp
    have "map_of env' x = Some s" if "map_of env x = Some s" for x s
      using elaborate_keeps [OF t(2), of x s] that t(3) map_of_Some_fst [OF that] by (cases "x = k") auto
    from denote_mono [OF this t(1)] k True show ?thesis by simp
  next
    case False
    with 2 t show ?thesis by auto
  qed
qed simp

text \<open>A name that is used and declared nowhere is an error.\<close>

lemma elaborate_names: "elaborate env ds = Some env' \<Longrightarrow> fst ` set env' = fst ` set env \<union> fst ` set ds"
  by (induction env ds rule: elaborate.induct) (auto split: if_splits option.splits)

lemma elaborate_uses:
  assumes "elaborate env ds = Some env'" "(n, Named x) \<in> set ds"
  shows "x \<in> fst ` set env \<or> x \<in> fst ` set ds"
proof -
  obtain t where "map_of env' x = Some t" using elaborate_final [OF assms] by auto
  from map_of_Some_fst [OF this] elaborate_names [OF assms(1)] show ?thesis by blast
qed

text \<open>
  The typedefs of the target, where a target is named: the header of the target gives the
  sized types and the argument types their sizes.
\<close>

definition sized_types :: "(string \<times> ctype \<times> bool) list" where
  "sized_types = [
     (''xdc_IArg'', CI32, True), (''xdc_UArg'', CI32, False), (''xdc_Int8'', CI8, True), (''xdc_UInt8'', CI8, False),
     (''xdc_Int16'', CI16, True), (''xdc_UInt16'', CI16, False), (''xdc_Int32'', CI32, True), (''xdc_UInt32'', CI32, False)]"

definition target_sizes :: "typedefs option \<Rightarrow> (string \<times> cty) list \<Rightarrow> bool" where
  "target_sizes target env \<longleftrightarrow>
     (case target of None \<Rightarrow> True | Some ds \<Rightarrow> list_all (\<lambda>(n, l). layout_of env n = Some l) sized_types)"

lemma layout_alias:
  assumes "elaborate [] ds = Some env" "(n, Named x) \<in> set ds"
  shows "layout_of env n = layout_of env x"
  using elaborate_final [OF assms] by (simp add: layout_of_def)

lemma layout_direct:
  assumes "elaborate [] ds = Some env" "(n, Prim p) \<in> set ds"
  shows "layout_of env n = prim_layout p"
  using elaborate_final [OF assms] by (simp add: layout_of_def)

lemma layout_pointer:
  assumes "elaborate [] ds = Some env" "(n, Pointer_to e) \<in> set ds"
  shows "layout_of env n = Some (CPtr, False)"
  using elaborate_final [OF assms] by (auto simp: layout_of_def)

text \<open>The names the interface headers declare their structures with, and the sizes in the layouts.\<close>

definition layout_names :: "(string \<times> ctype \<times> bool) list" where
  "layout_names = [
     (''XDAS_Bool'', CI8, False), (''XDAS_Int8'', CI8, True), (''XDAS_UInt8'', CI8, False),
     (''XDAS_Int16'', CI16, True), (''XDAS_UInt16'', CI16, False), (''XDAS_Int32'', CI32, True),
     (''XDAS_UInt32'', CI32, False), (''Int'', CI32, True), (''UInt'', CI32, False), (''Uns'', CI32, False),
     (''UArg'', CI32, False), (''Bool'', CI16, False), (''UInt32'', CI32, False), (''UInt16'', CI16, False),
     (''Uint32'', CI32, False), (''Ptr'', CPtr, False), (''String'', CPtr, False)]"

lemma target_layouts:
  assumes "elaborate [] (std_h target m @ ds) = Some env" "target_sizes target env" "(n, l) \<in> set sized_types"
  shows "layout_of env n = Some l"
proof (cases target)
  case None
  have "list_all (\<lambda>(n, l). case map_of default_target n of Some (Prim p) \<Rightarrow> prim_layout p = Some l | _ \<Rightarrow> False) sized_types"
    by code_simp
  from bspec [OF this [unfolded list_all_iff] assms(3)]
  have "\<exists>p. map_of default_target n = Some (Prim p) \<and> prim_layout p = Some l"
    by (simp split: option.splits tyexp.splits)
  then have "\<exists>p. (n, Prim p) \<in> set default_target \<and> prim_layout p = Some l" by (blast dest: map_of_SomeD)
  then obtain p where p: "(n, Prim p) \<in> set default_target" "prim_layout p = Some l" by blast
  then have "(n, Prim p) \<in> set (std_h target m @ ds)" using None by (simp add: std_h_def)
  from layout_direct [OF assms(1) this] p(2) show ?thesis by simp
next
  case (Some ds)
  with assms(2,3) show ?thesis by (auto simp: target_sizes_def list_all_iff)
qed

lemma alias_layout:
  assumes "elaborate [] (std_h target m @ xdas_h) = Some env" "\<not> xdc_nolocalnames m" "\<not> xdc_strict m"
    and "map_of local_aliases n = Some (Named x) \<or> map_of old_aliases n = Some (Named x) \<or>
      map_of xdas_h n = Some (Named x)"
  shows "layout_of env n = layout_of env x"
  using assms(2-4) by (intro layout_alias [OF assms(1)])
    (auto simp: std_h_def unprefixed_aliases_def deprecated_aliases_def dest: map_of_SomeD)

lemma standard_layouts:
  assumes "elaborate [] (std_h target m @ xdas_h) = Some env"
  shows "layout_of env ''xdc_Int'' = Some (CI32, True)" "layout_of env ''xdc_UInt'' = Some (CI32, False)"
    "layout_of env ''xdc_Bool'' = Some (CI16, False)" "layout_of env ''xdc_Ptr'' = Some (CPtr, False)"
    "layout_of env ''xdc_String'' = Some (CPtr, False)"
proof -
  have prim: "layout_of env n = prim_layout p"
    if "map_of standard_types n = Some (Prim p) \<or> map_of extended_types n = Some (Prim p)" for n p
    using that by (intro layout_direct [OF assms]) (auto simp: std_h_def dest: map_of_SomeD)
  have ptr: "layout_of env n = Some (CPtr, False)" if "map_of extended_types n = Some (Pointer_to e)" for n e
    using that by (intro layout_pointer [OF assms]) (auto simp: std_h_def dest: map_of_SomeD)
  show "layout_of env ''xdc_Int'' = Some (CI32, True)" "layout_of env ''xdc_UInt'' = Some (CI32, False)"
    "layout_of env ''xdc_Bool'' = Some (CI16, False)" "layout_of env ''xdc_Ptr'' = Some (CPtr, False)"
    "layout_of env ''xdc_String'' = Some (CPtr, False)"
    using prim [of "''xdc_Int''" P_int] prim [of "''xdc_UInt''" P_uint] prim [of "''xdc_Bool''" P_ushort]
      ptr [of "''xdc_Ptr''"] ptr [of "''xdc_String''"]
    by (simp_all add: standard_types_def extended_types_def)
qed

text \<open>
  C39: in every accepted compilation of \<^verbatim>\<open>std.h\<close> and \<^verbatim>\<open>xdas.h\<close> with the unprefixed and the deprecated
  names, whatever other macros are set and whatever target header gives the sized types their
  sizes, the names that the interface headers use have the sizes and signs of the layouts: \<open>Bool\<close> two
  bytes, \<open>XDAS_Bool\<close> one, \<open>Uns\<close> and \<open>XDAS_Int32\<close> four, pointers and strings one pointer.
\<close>

theorem base_types_have_layout_sizes:
  assumes "elaborate [] (std_h target m @ xdas_h) = Some env" "\<not> xdc_nolocalnames m" "\<not> xdc_strict m"
    and "target_sizes target env"
  shows "map (\<lambda>(n, l). layout_of env n) layout_names = map (\<lambda>(n, l). Some l) layout_names"
proof -
  note same = alias_layout [OF assms(1-3)]
  note p = standard_layouts [OF assms(1)]
  note sized = target_layouts [OF assms(1) assms(4)]
  have s: "layout_of env ''xdc_Int8'' = Some (CI8, True)" "layout_of env ''xdc_Int16'' = Some (CI16, True)"
    "layout_of env ''xdc_Int32'' = Some (CI32, True)" "layout_of env ''xdc_UInt8'' = Some (CI8, False)"
    "layout_of env ''xdc_UInt16'' = Some (CI16, False)" "layout_of env ''xdc_UInt32'' = Some (CI32, False)"
    "layout_of env ''xdc_UArg'' = Some (CI32, False)"
    by (rule sized, code_simp)+
  have "layout_of env ''Int8'' = layout_of env ''xdc_Int8''" "layout_of env ''Int16'' = layout_of env ''xdc_Int16''"
    "layout_of env ''Int32'' = layout_of env ''xdc_Int32''" "layout_of env ''UInt16'' = layout_of env ''xdc_UInt16''"
    "layout_of env ''UInt32'' = layout_of env ''xdc_UInt32''" "layout_of env ''UArg'' = layout_of env ''xdc_UArg''"
    "layout_of env ''Uint8'' = layout_of env ''xdc_UInt8''" "layout_of env ''Uint16'' = layout_of env ''xdc_UInt16''"
    "layout_of env ''Uint32'' = layout_of env ''xdc_UInt32''" "layout_of env ''Uns'' = layout_of env ''xdc_UInt''"
    "layout_of env ''Int'' = layout_of env ''xdc_Int''" "layout_of env ''UInt'' = layout_of env ''xdc_UInt''"
    "layout_of env ''Bool'' = layout_of env ''xdc_Bool''" "layout_of env ''Ptr'' = layout_of env ''xdc_Ptr''"
    "layout_of env ''String'' = layout_of env ''xdc_String''"
    by (rule same, code_simp)+
  note a = this [unfolded s p]
  have "layout_of env ''XDAS_Bool'' = layout_of env ''Uint8''" "layout_of env ''XDAS_Int8'' = layout_of env ''Int8''"
    "layout_of env ''XDAS_UInt8'' = layout_of env ''Uint8''" "layout_of env ''XDAS_Int16'' = layout_of env ''Int16''"
    "layout_of env ''XDAS_UInt16'' = layout_of env ''Uint16''" "layout_of env ''XDAS_Int32'' = layout_of env ''Int32''"
    "layout_of env ''XDAS_UInt32'' = layout_of env ''Uint32''"
    by (rule same, code_simp)+
  note x = this [unfolded a]
  show ?thesis by (simp add: layout_names_def a x s(7))
qed

definition plain_macros :: std_macros where
  "plain_macros = \<lparr>xdc_LONGLONG = False, xdc_INT64 = False, xdc_nolocalnames = False, xdc_strict = False,
     xdc_ARG = False, xdc_BITS8 = False, xdc_BITS16 = False, xdc_BITS32 = False, xdc_BITS64 = False\<rparr>"

lemma plain_headers: "\<exists>env. elaborate [] (std_h None plain_macros @ xdas_h) = Some env"
proof -
  have "elaborate [] (std_h None plain_macros @ xdas_h) \<noteq> None" by code_simp
  then show ?thesis by blast
qed

lemma base_types_have_layout_sizes_witness:
  "\<exists>env. elaborate [] (std_h None plain_macros @ xdas_h) = Some env \<and> layout_of env ''Bool'' = Some (CI16, False)"
proof -
  obtain env where env: "elaborate [] (std_h None plain_macros @ xdas_h) = Some env" using plain_headers by blast
  have "map (\<lambda>(n, l). layout_of env n) layout_names = map (\<lambda>(n, l). Some l) layout_names"
    by (rule base_types_have_layout_sizes [OF env]) (simp_all add: plain_macros_def target_sizes_def)
  with env show ?thesis by (simp add: layout_names_def)
qed

text \<open>
  Without a target the headers are accepted only with the unprefixed and the deprecated names, and
  without the macros that ask for types only a target declares.
\<close>

lemma default_target_needs:
  assumes "elaborate [] (std_h None m @ xdas_h) \<noteq> None"
  shows "\<not> xdc_nolocalnames m" "\<not> xdc_strict m" "\<not> xdc_ARG m" "\<not> xdc_INT64 m" "\<not> xdc_BITS8 m"
    "\<not> xdc_BITS16 m" "\<not> xdc_BITS32 m" "\<not> xdc_BITS64 m"
proof -
  obtain env where e: "elaborate [] (std_h None m @ xdas_h) = Some env" using assms by blast
  let ?ds = "std_h None m @ xdas_h"
  note defs = std_h_def standard_types_def extended_types_def default_target_def long_long_types_def
    unprefixed_aliases_def deprecated_aliases_def local_aliases_def old_aliases_def optional_aliases_def xdas_h_def
  have use: False if "(n, Named x) \<in> set ?ds" "list_all (\<lambda>d. fst d \<noteq> x) ?ds" for n x
    using elaborate_uses [OF e that(1)] that(2) by (auto simp: list_all_iff)
  have u8: "(''XDAS_Bool'', Named ''Uint8'') \<in> set ?ds" by (simp add: xdas_h_def)
  have undeclared: "list_all (\<lambda>d. fst d \<noteq> ''xdc_Arg'') ?ds" "list_all (\<lambda>d. fst d \<noteq> ''xdc_Int64'') ?ds"
    "list_all (\<lambda>d. fst d \<noteq> ''xdc_Bits8'') ?ds" "list_all (\<lambda>d. fst d \<noteq> ''xdc_Bits16'') ?ds"
    "list_all (\<lambda>d. fst d \<noteq> ''xdc_Bits32'') ?ds" "list_all (\<lambda>d. fst d \<noteq> ''xdc_Bits64'') ?ds"
    by (simp_all add: defs if_distrib [of "list_all P" for P] cong: if_cong)
  show n: "\<not> xdc_nolocalnames m"
  proof
    assume "xdc_nolocalnames m"
    then have "list_all (\<lambda>d. fst d \<noteq> ''Uint8'') ?ds"
      by (simp add: defs if_distrib [of "list_all P" for P] cong: if_cong)
    with u8 use show False by blast
  qed
  show s: "\<not> xdc_strict m"
  proof
    assume "xdc_strict m"
    then have "list_all (\<lambda>d. fst d \<noteq> ''Uint8'') ?ds"
      by (simp add: defs if_distrib [of "list_all P" for P] cong: if_cong)
    with u8 use show False by blast
  qed
  show "\<not> xdc_ARG m" using use [of "''Arg''" "''xdc_Arg''"] undeclared(1) n s
    by (auto simp: std_h_def unprefixed_aliases_def deprecated_aliases_def)
  show "\<not> xdc_INT64 m" using use [of "''Int64''" "''xdc_Int64''"] undeclared(2) n
    by (auto simp: std_h_def unprefixed_aliases_def optional_aliases_def)
  show "\<not> xdc_BITS8 m" using use [of "''Bits8''" "''xdc_Bits8''"] undeclared(3) n
    by (auto simp: std_h_def unprefixed_aliases_def optional_aliases_def)
  show "\<not> xdc_BITS16 m" using use [of "''Bits16''" "''xdc_Bits16''"] undeclared(4) n
    by (auto simp: std_h_def unprefixed_aliases_def optional_aliases_def)
  show "\<not> xdc_BITS32 m" using use [of "''Bits32''" "''xdc_Bits32''"] undeclared(5) n
    by (auto simp: std_h_def unprefixed_aliases_def optional_aliases_def)
  show "\<not> xdc_BITS64 m" using use [of "''Bits64''" "''xdc_Bits64''"] undeclared(6) n
    by (auto simp: std_h_def unprefixed_aliases_def optional_aliases_def)
qed

text \<open>
  On the client \<^verbatim>\<open>dce.c\<close> declares four of the names itself, on top of the \<^verbatim>\<open>Std.h\<close> of Syslink; they
  have the same layouts as on the server when its \<open>UInt\<close> types do.
\<close>

lemma client_types_agree:
  assumes "elaborate std dce_client_types = Some env"
    and "layout_of std ''UInt8'' = Some (CI8, False)" "layout_of std ''UInt16'' = Some (CI16, False)"
    "layout_of std ''UInt32'' = Some (CI32, False)"
  shows "map (layout_of env) [''Uint8'', ''Uint16'', ''Uint32'', ''Uns''] =
     [Some (CI8, False), Some (CI16, False), Some (CI32, False), Some (CI32, False)]"
proof -
  have keep: "layout_of env n = layout_of std n" if "layout_of std n \<noteq> None" for n
    using that elaborate_keeps [OF assms(1)] by (cases "map_of std n") (auto simp: layout_of_def)
  have "layout_of env n = layout_of env x" if "(n, Named x) \<in> set dce_client_types" for n x
    using elaborate_final [OF assms(1) that] by (simp add: layout_of_def)
  then have "layout_of env ''Uint8'' = layout_of env ''UInt8''" "layout_of env ''Uint16'' = layout_of env ''UInt16''"
    "layout_of env ''Uint32'' = layout_of env ''UInt32''" "layout_of env ''Uns'' = layout_of env ''UInt32''"
    by (simp_all add: dce_client_types_def)
  moreover have "layout_of env ''UInt8'' = Some (CI8, False)" "layout_of env ''UInt16'' = Some (CI16, False)"
    "layout_of env ''UInt32'' = Some (CI32, False)"
    using keep [of "''UInt8''"] keep [of "''UInt16''"] keep [of "''UInt32''"] assms(2-4) by auto
  ultimately show ?thesis by simp
qed

subsection \<open>Conversions\<close>

text \<open>
  Casts between arguments and pointers of the same size keep the bits; a float goes through a union
  whose bytes are whatever was on the stack. A float is its bit pattern.
\<close>

definition xdc_iargToPtr :: "u32 \<Rightarrow> u32" where "xdc_iargToPtr a = a"

definition xdc_uargToPtr :: "u32 \<Rightarrow> u32" where "xdc_uargToPtr a = a"

definition xdc_iargToFxn :: "u32 \<Rightarrow> u32" where "xdc_iargToFxn a = a"

definition xdc_uargToFxn :: "u32 \<Rightarrow> u32" where "xdc_uargToFxn a = a"

definition xdc_FloatData :: ctype where
  "xdc_FloatData = CUnion [(''f'', CInt 4), (''a'', CI32)]"

definition xdc_floatToArg :: "bytes \<Rightarrow> u32 \<Rightarrow> u32" where
  "xdc_floatToArg u f = (let u = put32 (the (offset_of xdc_FloatData [''f''])) f u
     in get32 (the (offset_of xdc_FloatData [''a''])) u)"

definition xdc_argToFloat :: "bytes \<Rightarrow> u32 \<Rightarrow> u32" where
  "xdc_argToFloat u a = (let u = put32 (the (offset_of xdc_FloatData [''a''])) a u
     in get32 (the (offset_of xdc_FloatData [''f''])) u)"

lemma FloatData_offsets:
  "offset_of xdc_FloatData [''f''] = Some 0" "offset_of xdc_FloatData [''a''] = Some 0" "csize xdc_FloatData = 4"
  by code_simp+

text \<open>Whatever the stack held, a float that is passed as an argument comes back with the same bits.\<close>

lemma float_roundtrip:
  assumes "length u = csize xdc_FloatData" "length u' = csize xdc_FloatData"
  shows "xdc_argToFloat u' (xdc_floatToArg u f) = f" "xdc_floatToArg u' (xdc_argToFloat u a) = a"
  using assms by (simp_all add: xdc_argToFloat_def xdc_floatToArg_def FloatData_offsets get32_put32_same)

subsection \<open>Macros of \<^verbatim>\<open>dce_priv.h\<close>\<close>

text \<open>
  A message is printed when its level is at least \<open>TRACE_LEVEL\<close>, which the build may set; the
  default leaves the debug messages out. The log is the list of the format strings printed.
\<close>

definition TRACE_LEVEL :: "nat option \<Rightarrow> nat" where
  "TRACE_LEVEL defined = (case defined of Some l \<Rightarrow> l | None \<Rightarrow> 2)"

definition TRACE :: "nat option \<Rightarrow> nat \<Rightarrow> string \<Rightarrow> string list \<Rightarrow> string list" where
  "TRACE defined lvl fmt log =
     (if TRACE_LEVEL defined \<le> lvl then log @ [''%s:%d:'' @ [CHR 9] @ ''%s'' @ [CHR 9] @ fmt @ [CHR 10]] else log)"

definition ERROR :: "nat option \<Rightarrow> string \<Rightarrow> string list \<Rightarrow> string list" where
  "ERROR defined fmt = TRACE defined 3 (''error: '' @ fmt)"

definition INFO :: "nat option \<Rightarrow> string \<Rightarrow> string list \<Rightarrow> string list" where
  "INFO defined fmt = TRACE defined 2 (''info: '' @ fmt)"

definition DEBUG :: "nat option \<Rightarrow> string \<Rightarrow> string list \<Rightarrow> string list" where
  "DEBUG defined fmt = TRACE defined 1 (''debug: '' @ fmt)"

lemma trace_levels:
  "DEBUG None fmt log = log" "length (INFO None fmt log) = Suc (length log)"
  "l \<le> 3 \<Longrightarrow> length (ERROR (Some l) fmt log) = Suc (length log)"
  by (simp_all add: DEBUG_def INFO_def ERROR_def TRACE_def TRACE_LEVEL_def)

text \<open>\<open>DIM\<close> divides the size of an array by the size of an element.\<close>

definition DIM :: "ctype \<Rightarrow> nat" where
  "DIM t = (case t of CArr n e \<Rightarrow> csize t div csize e | _ \<Rightarrow> 0)"

lemma DIM_array: "0 < csize e \<Longrightarrow> DIM (CArr n e) = n"
  by (simp add: DIM_def)

end
