(* ===== verification/Ialg_Types.thy ===== *)
theory Ialg_Types
  imports C_Layout
begin

text \<open>
  The XDAIS algorithm interface (\<^verbatim>\<open>packages/xdais/ti/xdais/ialg.h\<close>): return codes, memory
  attributes and spaces, the memory record that the framework's allocator fills, and the
  layouts of the algorithm's structures. An enumeration is a datatype with the C value of
  each constant; a constant that repeats a value is an abbreviation for the first.
\<close>

subsection \<open>Constants and enumerations\<close>

definition IALG_DEFMEMRECS :: int where [simp]: "IALG_DEFMEMRECS = 4"

definition IALG_OBJMEMREC :: int where [simp]: "IALG_OBJMEMREC = 0"

definition IALG_SYSCMD :: int where [simp]: "IALG_SYSCMD = 256"

definition IALG_EOK :: int where [simp]: "IALG_EOK = 0"

definition IALG_EFAIL :: int where [simp]: "IALG_EFAIL = - 1"

definition IALG_CUSTOMFAILBASE :: int where [simp]: "IALG_CUSTOMFAILBASE = - 2048"

definition IALG_CUSTOMFAILEND :: int where [simp]: "IALG_CUSTOMFAILEND = - 256"

datatype IALG_MemAttrs =
    IALG_SCRATCH
  | IALG_PERSIST
  | IALG_WRITEONCE

fun IALG_MemAttrs_val :: "IALG_MemAttrs \<Rightarrow> int" where
  "IALG_MemAttrs_val IALG_SCRATCH = 0"
| "IALG_MemAttrs_val IALG_PERSIST = 1"
| "IALG_MemAttrs_val IALG_WRITEONCE = 2"

definition IALG_MPROG :: int where [simp]: "IALG_MPROG = 0x0008"

definition IALG_MXTRN :: int where [simp]: "IALG_MXTRN = 0x0010"

datatype IALG_MemSpace =
    IALG_EPROG
  | IALG_IPROG
  | IALG_ESDATA
  | IALG_EXTERNAL
  | IALG_DARAM0
  | IALG_DARAM1
  | IALG_SARAM
  | IALG_SARAM1
  | IALG_DARAM2
  | IALG_SARAM2

fun IALG_MemSpace_val :: "IALG_MemSpace \<Rightarrow> int" where
  "IALG_MemSpace_val IALG_EPROG = 24"
| "IALG_MemSpace_val IALG_IPROG = 8"
| "IALG_MemSpace_val IALG_ESDATA = 16"
| "IALG_MemSpace_val IALG_EXTERNAL = 17"
| "IALG_MemSpace_val IALG_DARAM0 = 0"
| "IALG_MemSpace_val IALG_DARAM1 = 1"
| "IALG_MemSpace_val IALG_SARAM = 2"
| "IALG_MemSpace_val IALG_SARAM1 = 3"
| "IALG_MemSpace_val IALG_DARAM2 = 4"
| "IALG_MemSpace_val IALG_SARAM2 = 5"

abbreviation IALG_SARAM0 :: IALG_MemSpace where
  "IALG_SARAM0 \<equiv> IALG_SARAM"

text \<open>The two bits of a memory space are tested by macros; a C truth value is a non-zero \<open>int\<close>.\<close>

definition IALG_isProg :: "IALG_MemSpace \<Rightarrow> int" where
  "IALG_isProg s = IALG_MemSpace_val s AND IALG_MPROG"

definition IALG_isOffChip :: "IALG_MemSpace \<Rightarrow> int" where
  "IALG_isOffChip s = IALG_MemSpace_val s AND IALG_MXTRN"

subsection \<open>Structures\<close>

definition IALG_MemRec :: ctype where
  "IALG_MemRec = CStruct [
     (''size'', CI32),
     (''alignment'', CI32),
     (''space'', CI32),
     (''attrs'', CI32),
     (''base'', CPtr)]"

lemma IALG_MemRec_layout [layout]:
  "csize IALG_MemRec = 20" "psize IALG_MemRec = 20" "calign IALG_MemRec = 4" "wf_ctype IALG_MemRec"
  by (simp_all add: IALG_MemRec_def align_up_def layout)

definition IALG_Obj :: ctype where
  "IALG_Obj = CStruct [
     (''fxns'', CPtr)]"

lemma IALG_Obj_layout [layout]:
  "csize IALG_Obj = 4" "psize IALG_Obj = 4" "calign IALG_Obj = 4" "wf_ctype IALG_Obj"
  by (simp_all add: IALG_Obj_def align_up_def layout)

definition IALG_Params :: ctype where
  "IALG_Params = CStruct [
     (''size'', CI32)]"

lemma IALG_Params_layout [layout]:
  "csize IALG_Params = 4" "psize IALG_Params = 4" "calign IALG_Params = 4" "wf_ctype IALG_Params"
  by (simp_all add: IALG_Params_def align_up_def layout)

definition IALG_Status :: ctype where
  "IALG_Status = CStruct [
     (''size'', CI32)]"

lemma IALG_Status_layout [layout]:
  "csize IALG_Status = 4" "psize IALG_Status = 4" "calign IALG_Status = 4" "wf_ctype IALG_Status"
  by (simp_all add: IALG_Status_def align_up_def layout)

definition IALG_Fxns :: ctype where
  "IALG_Fxns = CStruct [
     (''implementationId'', CPtr),
     (''algActivate'', CPtr),
     (''algAlloc'', CPtr),
     (''algControl'', CPtr),
     (''algDeactivate'', CPtr),
     (''algFree'', CPtr),
     (''algInit'', CPtr),
     (''algMoved'', CPtr),
     (''algNumAlloc'', CPtr)]"

lemma IALG_Fxns_layout [layout]:
  "csize IALG_Fxns = 36" "psize IALG_Fxns = 36" "calign IALG_Fxns = 4" "wf_ctype IALG_Fxns"
  by (simp_all add: IALG_Fxns_def align_up_def layout)

end
