(* ===== verification/Xdm_Types.thy ===== *)
theory Xdm_Types
  imports Ialg_Types
begin

text \<open>
  The definitions shared by the XDM codec interfaces (\<^verbatim>\<open>packages/xdais/ti/xdais/dm/xdm.h\<close>):
  buffer descriptors, control commands, extended-error bits with their test and set macros,
  access-mode masks, data formats and memory types.
\<close>

subsection \<open>Constants\<close>

definition XDM_EOK :: int where [simp]: "XDM_EOK = IALG_EOK"

definition XDM_EFAIL :: int where [simp]: "XDM_EFAIL = IALG_EFAIL"

definition XDM_EUNSUPPORTED :: int where [simp]: "XDM_EUNSUPPORTED = - 3"

definition XDM_MAX_IO_BUFFERS :: nat where [simp]: "XDM_MAX_IO_BUFFERS = 16"

definition XDM_CUSTOMENUMBASE :: int where [simp]: "XDM_CUSTOMENUMBASE = 0x100"

definition XDM_CUSTOMCMDBASE :: int where [simp]: "XDM_CUSTOMCMDBASE = 0x100"

definition XDM_MAX_CONTEXT_BUFFERS :: nat where [simp]: "XDM_MAX_CONTEXT_BUFFERS = 32"

subsection \<open>Buffer descriptors\<close>

definition XDM_BufDesc :: ctype where
  "XDM_BufDesc = CStruct [
     (''bufs'', CPtr),
     (''numBufs'', CI32),
     (''bufSizes'', CPtr)]"

lemma XDM_BufDesc_layout [layout]:
  "csize XDM_BufDesc = 12" "psize XDM_BufDesc = 12" "calign XDM_BufDesc = 4" "wf_ctype XDM_BufDesc"
  by (simp_all add: XDM_BufDesc_def align_up_def layout)

definition XDM_SingleBufDesc :: ctype where
  "XDM_SingleBufDesc = CStruct [
     (''buf'', CPtr),
     (''bufSize'', CI32)]"

lemma XDM_SingleBufDesc_layout [layout]:
  "csize XDM_SingleBufDesc = 8" "psize XDM_SingleBufDesc = 8" "calign XDM_SingleBufDesc = 4" "wf_ctype XDM_SingleBufDesc"
  by (simp_all add: XDM_SingleBufDesc_def align_up_def layout)

definition XDM1_SingleBufDesc :: ctype where
  "XDM1_SingleBufDesc = CStruct [
     (''buf'', CPtr),
     (''bufSize'', CI32),
     (''accessMask'', CI32)]"

lemma XDM1_SingleBufDesc_layout [layout]:
  "csize XDM1_SingleBufDesc = 12" "psize XDM1_SingleBufDesc = 12" "calign XDM1_SingleBufDesc = 4" "wf_ctype XDM1_SingleBufDesc"
  by (simp_all add: XDM1_SingleBufDesc_def align_up_def layout)

definition XDM2_BufSize :: ctype where
  "XDM2_BufSize = CUnion [
     (''tileMem'', CStruct [
       (''width'', CI32),
       (''height'', CI32)]),
     (''bytes'', CI32)]"

lemma XDM2_BufSize_layout [layout]:
  "csize XDM2_BufSize = 8" "psize XDM2_BufSize = 8" "calign XDM2_BufSize = 4" "wf_ctype XDM2_BufSize"
  by (simp_all add: XDM2_BufSize_def align_up_def layout)

definition XDM2_SingleBufDesc :: ctype where
  "XDM2_SingleBufDesc = CStruct [
     (''buf'', CPtr),
     (''memType'', CI16),
     (''usageMode'', CI16),
     (''bufSize'', XDM2_BufSize),
     (''accessMask'', CI32)]"

lemma XDM2_SingleBufDesc_layout [layout]:
  "csize XDM2_SingleBufDesc = 20" "psize XDM2_SingleBufDesc = 20" "calign XDM2_SingleBufDesc = 4" "wf_ctype XDM2_SingleBufDesc"
  by (simp_all add: XDM2_SingleBufDesc_def align_up_def layout)

definition XDM1_BufDesc :: ctype where
  "XDM1_BufDesc = CStruct [
     (''numBufs'', CI32),
     (''descs'', CArr XDM_MAX_IO_BUFFERS XDM1_SingleBufDesc)]"

lemma XDM1_BufDesc_layout [layout]:
  "csize XDM1_BufDesc = 196" "psize XDM1_BufDesc = 196" "calign XDM1_BufDesc = 4" "wf_ctype XDM1_BufDesc"
  by (simp_all add: XDM1_BufDesc_def align_up_def layout)

definition XDM2_BufDesc :: ctype where
  "XDM2_BufDesc = CStruct [
     (''numBufs'', CI32),
     (''descs'', CArr XDM_MAX_IO_BUFFERS XDM2_SingleBufDesc)]"

lemma XDM2_BufDesc_layout [layout]:
  "csize XDM2_BufDesc = 324" "psize XDM2_BufDesc = 324" "calign XDM2_BufDesc = 4" "wf_ctype XDM2_BufDesc"
  by (simp_all add: XDM2_BufDesc_def align_up_def layout)

definition XDM1_AlgBufInfo :: ctype where
  "XDM1_AlgBufInfo = CStruct [
     (''minNumInBufs'', CI32),
     (''minNumOutBufs'', CI32),
     (''minInBufSize'', CArr XDM_MAX_IO_BUFFERS XDM2_BufSize),
     (''minOutBufSize'', CArr XDM_MAX_IO_BUFFERS XDM2_BufSize),
     (''inBufMemoryType'', CArr XDM_MAX_IO_BUFFERS CI32),
     (''outBufMemoryType'', CArr XDM_MAX_IO_BUFFERS CI32),
     (''minNumBufSets'', CI32)]"

lemma XDM1_AlgBufInfo_layout [layout]:
  "csize XDM1_AlgBufInfo = 396" "psize XDM1_AlgBufInfo = 396" "calign XDM1_AlgBufInfo = 4" "wf_ctype XDM1_AlgBufInfo"
  by (simp_all add: XDM1_AlgBufInfo_def align_up_def layout)

definition XDM_AlgBufInfo :: ctype where
  "XDM_AlgBufInfo = CStruct [
     (''minNumInBufs'', CI32),
     (''minNumOutBufs'', CI32),
     (''minInBufSize'', CArr XDM_MAX_IO_BUFFERS CI32),
     (''minOutBufSize'', CArr XDM_MAX_IO_BUFFERS CI32)]"

lemma XDM_AlgBufInfo_layout [layout]:
  "csize XDM_AlgBufInfo = 136" "psize XDM_AlgBufInfo = 136" "calign XDM_AlgBufInfo = 4" "wf_ctype XDM_AlgBufInfo"
  by (simp_all add: XDM_AlgBufInfo_def align_up_def layout)

subsection \<open>Commands, error bits and formats\<close>

datatype XDM_AccessMode =
    XDM_ACCESSMODE_READ
  | XDM_ACCESSMODE_WRITE

fun XDM_AccessMode_val :: "XDM_AccessMode \<Rightarrow> int" where
  "XDM_AccessMode_val XDM_ACCESSMODE_READ = 0"
| "XDM_AccessMode_val XDM_ACCESSMODE_WRITE = 1"

datatype XDM_CmdId =
    XDM_GETSTATUS
  | XDM_SETPARAMS
  | XDM_RESET
  | XDM_SETDEFAULT
  | XDM_FLUSH
  | XDM_GETBUFINFO
  | XDM_GETVERSION
  | XDM_GETCONTEXTINFO
  | XDM_GETDYNPARAMSDEFAULT
  | XDM_SETLATEACQUIREARG

fun XDM_CmdId_val :: "XDM_CmdId \<Rightarrow> int" where
  "XDM_CmdId_val XDM_GETSTATUS = 0"
| "XDM_CmdId_val XDM_SETPARAMS = 1"
| "XDM_CmdId_val XDM_RESET = 2"
| "XDM_CmdId_val XDM_SETDEFAULT = 3"
| "XDM_CmdId_val XDM_FLUSH = 4"
| "XDM_CmdId_val XDM_GETBUFINFO = 5"
| "XDM_CmdId_val XDM_GETVERSION = 6"
| "XDM_CmdId_val XDM_GETCONTEXTINFO = 7"
| "XDM_CmdId_val XDM_GETDYNPARAMSDEFAULT = 8"
| "XDM_CmdId_val XDM_SETLATEACQUIREARG = 9"

datatype XDM_ErrorBit =
    XDM_PARAMSCHANGE
  | XDM_APPLIEDCONCEALMENT
  | XDM_INSUFFICIENTDATA
  | XDM_CORRUPTEDDATA
  | XDM_CORRUPTEDHEADER
  | XDM_UNSUPPORTEDINPUT
  | XDM_UNSUPPORTEDPARAM
  | XDM_FATALERROR

fun XDM_ErrorBit_val :: "XDM_ErrorBit \<Rightarrow> int" where
  "XDM_ErrorBit_val XDM_PARAMSCHANGE = 8"
| "XDM_ErrorBit_val XDM_APPLIEDCONCEALMENT = 9"
| "XDM_ErrorBit_val XDM_INSUFFICIENTDATA = 10"
| "XDM_ErrorBit_val XDM_CORRUPTEDDATA = 11"
| "XDM_ErrorBit_val XDM_CORRUPTEDHEADER = 12"
| "XDM_ErrorBit_val XDM_UNSUPPORTEDINPUT = 13"
| "XDM_ErrorBit_val XDM_UNSUPPORTEDPARAM = 14"
| "XDM_ErrorBit_val XDM_FATALERROR = 15"

datatype XDM_DataFormat =
    XDM_BYTE
  | XDM_LE_16
  | XDM_LE_32
  | XDM_LE_64
  | XDM_BE_16
  | XDM_BE_32
  | XDM_BE_64

fun XDM_DataFormat_val :: "XDM_DataFormat \<Rightarrow> int" where
  "XDM_DataFormat_val XDM_BYTE = 1"
| "XDM_DataFormat_val XDM_LE_16 = 2"
| "XDM_DataFormat_val XDM_LE_32 = 3"
| "XDM_DataFormat_val XDM_LE_64 = 4"
| "XDM_DataFormat_val XDM_BE_16 = 5"
| "XDM_DataFormat_val XDM_BE_32 = 6"
| "XDM_DataFormat_val XDM_BE_64 = 7"

definition XDM_Date :: ctype where
  "XDM_Date = CStruct [
     (''msecsOfDay'', CI32),
     (''month'', CI32),
     (''dayOfMonth'', CI32),
     (''dayOfWeek'', CI32),
     (''year'', CI32)]"

lemma XDM_Date_layout [layout]:
  "csize XDM_Date = 20" "psize XDM_Date = 20" "calign XDM_Date = 4" "wf_ctype XDM_Date"
  by (simp_all add: XDM_Date_def align_up_def layout)

definition XDM_Point :: ctype where
  "XDM_Point = CStruct [
     (''x'', CI32),
     (''y'', CI32)]"

lemma XDM_Point_layout [layout]:
  "csize XDM_Point = 8" "psize XDM_Point = 8" "calign XDM_Point = 4" "wf_ctype XDM_Point"
  by (simp_all add: XDM_Point_def align_up_def layout)

definition XDM_Rect :: ctype where
  "XDM_Rect = CStruct [
     (''topLeft'', XDM_Point),
     (''bottomRight'', XDM_Point)]"

lemma XDM_Rect_layout [layout]:
  "csize XDM_Rect = 16" "psize XDM_Rect = 16" "calign XDM_Rect = 4" "wf_ctype XDM_Rect"
  by (simp_all add: XDM_Rect_def align_up_def layout)

definition XDM_ContextInfo :: ctype where
  "XDM_ContextInfo = CStruct [
     (''minContextSize'', CI32),
     (''minIntermediateBufSizes'', CArr XDM_MAX_CONTEXT_BUFFERS CI32)]"

lemma XDM_ContextInfo_layout [layout]:
  "csize XDM_ContextInfo = 132" "psize XDM_ContextInfo = 132" "calign XDM_ContextInfo = 4" "wf_ctype XDM_ContextInfo"
  by (simp_all add: XDM_ContextInfo_def align_up_def layout)

definition XDM_Context :: ctype where
  "XDM_Context = CStruct [
     (''algContext'', XDM1_SingleBufDesc),
     (''numInBufs'', CI32),
     (''numOutBufs'', CI32),
     (''numInOutBufs'', CI32),
     (''inBufs'', CArr XDM_MAX_CONTEXT_BUFFERS XDM1_SingleBufDesc),
     (''outBufs'', CArr XDM_MAX_CONTEXT_BUFFERS XDM1_SingleBufDesc),
     (''inOutBufs'', CArr XDM_MAX_CONTEXT_BUFFERS XDM1_SingleBufDesc),
     (''intermediateBufs'', CArr XDM_MAX_CONTEXT_BUFFERS XDM1_SingleBufDesc)]"

lemma XDM_Context_layout [layout]:
  "csize XDM_Context = 1560" "psize XDM_Context = 1560" "calign XDM_Context = 4" "wf_ctype XDM_Context"
  by (simp_all add: XDM_Context_def align_up_def layout)

datatype XDM_EncodingPreset =
    XDM_DEFAULT
  | XDM_HIGH_QUALITY
  | XDM_HIGH_SPEED
  | XDM_USER_DEFINED
  | XDM_HIGH_SPEED_MED_QUALITY
  | XDM_MED_SPEED_MED_QUALITY
  | XDM_MED_SPEED_HIGH_QUALITY
  | XDM_ENCODING_PRESET_MAX

fun XDM_EncodingPreset_val :: "XDM_EncodingPreset \<Rightarrow> int" where
  "XDM_EncodingPreset_val XDM_DEFAULT = 0"
| "XDM_EncodingPreset_val XDM_HIGH_QUALITY = 1"
| "XDM_EncodingPreset_val XDM_HIGH_SPEED = 2"
| "XDM_EncodingPreset_val XDM_USER_DEFINED = 3"
| "XDM_EncodingPreset_val XDM_HIGH_SPEED_MED_QUALITY = 4"
| "XDM_EncodingPreset_val XDM_MED_SPEED_MED_QUALITY = 5"
| "XDM_EncodingPreset_val XDM_MED_SPEED_HIGH_QUALITY = 6"
| "XDM_EncodingPreset_val XDM_ENCODING_PRESET_MAX = 7"

abbreviation XDM_PRESET_DEFAULT :: XDM_EncodingPreset where
  "XDM_PRESET_DEFAULT \<equiv> XDM_MED_SPEED_MED_QUALITY"

datatype XDM_DecMode =
    XDM_DECODE_AU
  | XDM_PARSE_HEADER

fun XDM_DecMode_val :: "XDM_DecMode \<Rightarrow> int" where
  "XDM_DecMode_val XDM_DECODE_AU = 0"
| "XDM_DecMode_val XDM_PARSE_HEADER = 1"

datatype XDM_EncMode =
    XDM_ENCODE_AU
  | XDM_GENERATE_HEADER

fun XDM_EncMode_val :: "XDM_EncMode \<Rightarrow> int" where
  "XDM_EncMode_val XDM_ENCODE_AU = 0"
| "XDM_EncMode_val XDM_GENERATE_HEADER = 1"

datatype XDM_ChromaFormat =
    XDM_CHROMA_NA
  | XDM_YUV_420P
  | XDM_YUV_422P
  | XDM_YUV_422IBE
  | XDM_YUV_422ILE
  | XDM_YUV_444P
  | XDM_YUV_411P
  | XDM_GRAY
  | XDM_RGB
  | XDM_YUV_420SP
  | XDM_ARGB8888
  | XDM_RGB555
  | XDM_RGB565
  | XDM_YUV_444ILE

fun XDM_ChromaFormat_val :: "XDM_ChromaFormat \<Rightarrow> int" where
  "XDM_ChromaFormat_val XDM_CHROMA_NA = - 1"
| "XDM_ChromaFormat_val XDM_YUV_420P = 1"
| "XDM_ChromaFormat_val XDM_YUV_422P = 2"
| "XDM_ChromaFormat_val XDM_YUV_422IBE = 3"
| "XDM_ChromaFormat_val XDM_YUV_422ILE = 4"
| "XDM_ChromaFormat_val XDM_YUV_444P = 5"
| "XDM_ChromaFormat_val XDM_YUV_411P = 6"
| "XDM_ChromaFormat_val XDM_GRAY = 7"
| "XDM_ChromaFormat_val XDM_RGB = 8"
| "XDM_ChromaFormat_val XDM_YUV_420SP = 9"
| "XDM_ChromaFormat_val XDM_ARGB8888 = 10"
| "XDM_ChromaFormat_val XDM_RGB555 = 11"
| "XDM_ChromaFormat_val XDM_RGB565 = 12"
| "XDM_ChromaFormat_val XDM_YUV_444ILE = 13"

abbreviation XDM_CHROMAFORMAT_DEFAULT :: XDM_ChromaFormat where
  "XDM_CHROMAFORMAT_DEFAULT \<equiv> XDM_YUV_422ILE"

datatype XDM_MemoryType =
    XDM_MEMTYPE_ROW
  | XDM_MEMTYPE_TILED8
  | XDM_MEMTYPE_TILED16
  | XDM_MEMTYPE_TILED32
  | XDM_MEMTYPE_TILEDPAGE

fun XDM_MemoryType_val :: "XDM_MemoryType \<Rightarrow> int" where
  "XDM_MemoryType_val XDM_MEMTYPE_ROW = 0"
| "XDM_MemoryType_val XDM_MEMTYPE_TILED8 = 1"
| "XDM_MemoryType_val XDM_MEMTYPE_TILED16 = 2"
| "XDM_MemoryType_val XDM_MEMTYPE_TILED32 = 3"
| "XDM_MemoryType_val XDM_MEMTYPE_TILEDPAGE = 4"

abbreviation XDM_MEMTYPE_RAW :: XDM_MemoryType where
  "XDM_MEMTYPE_RAW \<equiv> XDM_MEMTYPE_ROW"

datatype XDM_MemoryUsageMode =
    XDM_MEMUSAGE_DATASYNC

fun XDM_MemoryUsageMode_val :: "XDM_MemoryUsageMode \<Rightarrow> int" where
  "XDM_MemoryUsageMode_val XDM_MEMUSAGE_DATASYNC = 0"

definition XDM_DataSyncDesc :: ctype where
  "XDM_DataSyncDesc = CStruct [
     (''size'', CI32),
     (''scatteredBlocksFlag'', CI32),
     (''baseAddr'', CPtr),
     (''numBlocks'', CI32),
     (''varBlockSizesFlag'', CI32),
     (''blockSizes'', CPtr)]"

lemma XDM_DataSyncDesc_layout [layout]:
  "csize XDM_DataSyncDesc = 24" "psize XDM_DataSyncDesc = 24" "calign XDM_DataSyncDesc = 4" "wf_ctype XDM_DataSyncDesc"
  by (simp_all add: XDM_DataSyncDesc_def align_up_def layout)

subsection \<open>Bit-mask macros\<close>

text \<open>
  \<open>XDM_ErrorBit\<close> and \<open>XDM_AccessMode\<close> number the bits of a 32-bit mask. The macros of the
  header test, set and clear one bit; a macro that assigns to its argument is the function to
  the new mask. The argument is an \<open>XDAS_Int32\<close>, so the shift to the right is arithmetic.
\<close>

definition xdm_is :: "int \<Rightarrow> u32 \<Rightarrow> u32" where
  "xdm_is n x = signed_drop_bit (nat n) x AND 1"

definition xdm_set :: "int \<Rightarrow> u32 \<Rightarrow> u32" where
  "xdm_set n x = x OR push_bit (nat n) 1"

definition xdm_clear :: "int \<Rightarrow> u32 \<Rightarrow> u32" where
  "xdm_clear n x = x AND NOT (push_bit (nat n) 1)"

definition XDM_ISACCESSMODE_READ :: "u32 \<Rightarrow> u32" where
  "XDM_ISACCESSMODE_READ = xdm_is (XDM_AccessMode_val XDM_ACCESSMODE_READ)"

definition XDM_CLEARACCESSMODE_READ :: "u32 \<Rightarrow> u32" where
  "XDM_CLEARACCESSMODE_READ = xdm_clear (XDM_AccessMode_val XDM_ACCESSMODE_READ)"

definition XDM_SETACCESSMODE_READ :: "u32 \<Rightarrow> u32" where
  "XDM_SETACCESSMODE_READ = xdm_set (XDM_AccessMode_val XDM_ACCESSMODE_READ)"

definition XDM_ISACCESSMODE_WRITE :: "u32 \<Rightarrow> u32" where
  "XDM_ISACCESSMODE_WRITE = xdm_is (XDM_AccessMode_val XDM_ACCESSMODE_WRITE)"

definition XDM_CLEARACCESSMODE_WRITE :: "u32 \<Rightarrow> u32" where
  "XDM_CLEARACCESSMODE_WRITE = xdm_clear (XDM_AccessMode_val XDM_ACCESSMODE_WRITE)"

definition XDM_SETACCESSMODE_WRITE :: "u32 \<Rightarrow> u32" where
  "XDM_SETACCESSMODE_WRITE = xdm_set (XDM_AccessMode_val XDM_ACCESSMODE_WRITE)"

definition XDM_ISFATALERROR :: "u32 \<Rightarrow> u32" where
  "XDM_ISFATALERROR = xdm_is (XDM_ErrorBit_val XDM_FATALERROR)"

definition XDM_SETFATALERROR :: "u32 \<Rightarrow> u32" where
  "XDM_SETFATALERROR = xdm_set (XDM_ErrorBit_val XDM_FATALERROR)"

definition XDM_ISUNSUPPORTEDPARAM :: "u32 \<Rightarrow> u32" where
  "XDM_ISUNSUPPORTEDPARAM = xdm_is (XDM_ErrorBit_val XDM_UNSUPPORTEDPARAM)"

definition XDM_SETUNSUPPORTEDPARAM :: "u32 \<Rightarrow> u32" where
  "XDM_SETUNSUPPORTEDPARAM = xdm_set (XDM_ErrorBit_val XDM_UNSUPPORTEDPARAM)"

definition XDM_ISUNSUPPORTEDINPUT :: "u32 \<Rightarrow> u32" where
  "XDM_ISUNSUPPORTEDINPUT = xdm_is (XDM_ErrorBit_val XDM_UNSUPPORTEDINPUT)"

definition XDM_SETUNSUPPORTEDINPUT :: "u32 \<Rightarrow> u32" where
  "XDM_SETUNSUPPORTEDINPUT = xdm_set (XDM_ErrorBit_val XDM_UNSUPPORTEDINPUT)"

definition XDM_ISCORRUPTEDHEADER :: "u32 \<Rightarrow> u32" where
  "XDM_ISCORRUPTEDHEADER = xdm_is (XDM_ErrorBit_val XDM_CORRUPTEDHEADER)"

definition XDM_SETCORRUPTEDHEADER :: "u32 \<Rightarrow> u32" where
  "XDM_SETCORRUPTEDHEADER = xdm_set (XDM_ErrorBit_val XDM_CORRUPTEDHEADER)"

definition XDM_ISCORRUPTEDDATA :: "u32 \<Rightarrow> u32" where
  "XDM_ISCORRUPTEDDATA = xdm_is (XDM_ErrorBit_val XDM_CORRUPTEDDATA)"

definition XDM_SETCORRUPTEDDATA :: "u32 \<Rightarrow> u32" where
  "XDM_SETCORRUPTEDDATA = xdm_set (XDM_ErrorBit_val XDM_CORRUPTEDDATA)"

definition XDM_ISINSUFFICIENTDATA :: "u32 \<Rightarrow> u32" where
  "XDM_ISINSUFFICIENTDATA = xdm_is (XDM_ErrorBit_val XDM_INSUFFICIENTDATA)"

definition XDM_SETINSUFFICIENTDATA :: "u32 \<Rightarrow> u32" where
  "XDM_SETINSUFFICIENTDATA = xdm_set (XDM_ErrorBit_val XDM_INSUFFICIENTDATA)"

definition XDM_ISAPPLIEDCONCEALMENT :: "u32 \<Rightarrow> u32" where
  "XDM_ISAPPLIEDCONCEALMENT = xdm_is (XDM_ErrorBit_val XDM_APPLIEDCONCEALMENT)"

definition XDM_SETAPPLIEDCONCEALMENT :: "u32 \<Rightarrow> u32" where
  "XDM_SETAPPLIEDCONCEALMENT = xdm_set (XDM_ErrorBit_val XDM_APPLIEDCONCEALMENT)"

lemmas xdm_macros =
  XDM_ISACCESSMODE_READ_def XDM_ISACCESSMODE_WRITE_def XDM_SETACCESSMODE_READ_def
  XDM_SETACCESSMODE_WRITE_def XDM_CLEARACCESSMODE_READ_def XDM_CLEARACCESSMODE_WRITE_def
  XDM_ISFATALERROR_def XDM_ISUNSUPPORTEDPARAM_def XDM_ISUNSUPPORTEDINPUT_def
  XDM_ISCORRUPTEDHEADER_def XDM_ISCORRUPTEDDATA_def XDM_ISINSUFFICIENTDATA_def
  XDM_ISAPPLIEDCONCEALMENT_def XDM_SETFATALERROR_def XDM_SETUNSUPPORTEDPARAM_def
  XDM_SETUNSUPPORTEDINPUT_def XDM_SETCORRUPTEDHEADER_def XDM_SETCORRUPTEDDATA_def
  XDM_SETINSUFFICIENTDATA_def XDM_SETAPPLIEDCONCEALMENT_def

text \<open>The bits of a mask, and what the macros do to them.\<close>

definition xdm_bits :: "u32 \<Rightarrow> nat set" where
  "xdm_bits x = {n. n < 32 \<and> bit x n}"

lemma xdm_is_bit: "0 \<le> n \<Longrightarrow> n < 32 \<Longrightarrow> xdm_is n x = (if nat n \<in> xdm_bits x then 1 else 0)"
proof -
  assume n: "0 \<le> n" "n < 32"
  then have k: "nat n < 32" by simp
  have "xdm_is n x = of_bool (bit x (nat n))"
    unfolding xdm_is_def and_one_eq bit_signed_drop_bit_iff
    by (rule bit_word_eqI) (use k in \<open>auto simp: bit_simps mod_2_eq_odd bit_0 [symmetric]\<close>)
  with k show ?thesis by (simp add: xdm_bits_def)
qed

lemma xdm_bits_set: "0 \<le> n \<Longrightarrow> n < 32 \<Longrightarrow> xdm_bits (xdm_set n x) = insert (nat n) (xdm_bits x)"
  by (auto simp: xdm_bits_def xdm_set_def bit_simps)

lemma xdm_bits_clear: "0 \<le> n \<Longrightarrow> n < 32 \<Longrightarrow> xdm_bits (xdm_clear n x) = xdm_bits x - {nat n}"
  by (auto simp: xdm_bits_def xdm_clear_def bit_simps)

end
