(* ===== verification/Ivideo_Types.thy ===== *)
theory Ivideo_Types
  imports Xdm_Types
begin

text \<open>
  The video definitions of the XDM interfaces (\<^verbatim>\<open>packages/xdais/ti/xdais/dm/ivideo.h\<close>):
  frame, content and format enumerations and the video buffer descriptors.
\<close>

definition IVIDEO2_MAX_IO_BUFFERS :: nat where [simp]: "IVIDEO2_MAX_IO_BUFFERS = 20"

datatype IVIDEO_FrameSkip =
    IVIDEO_NO_SKIP
  | IVIDEO_SKIP_P
  | IVIDEO_SKIP_B
  | IVIDEO_SKIP_I
  | IVIDEO_SKIP_IP
  | IVIDEO_SKIP_IB
  | IVIDEO_SKIP_PB
  | IVIDEO_SKIP_IPB
  | IVIDEO_SKIP_IDR
  | IVIDEO_SKIP_NONREFERENCE

fun IVIDEO_FrameSkip_val :: "IVIDEO_FrameSkip \<Rightarrow> int" where
  "IVIDEO_FrameSkip_val IVIDEO_NO_SKIP = 0"
| "IVIDEO_FrameSkip_val IVIDEO_SKIP_P = 1"
| "IVIDEO_FrameSkip_val IVIDEO_SKIP_B = 2"
| "IVIDEO_FrameSkip_val IVIDEO_SKIP_I = 3"
| "IVIDEO_FrameSkip_val IVIDEO_SKIP_IP = 4"
| "IVIDEO_FrameSkip_val IVIDEO_SKIP_IB = 5"
| "IVIDEO_FrameSkip_val IVIDEO_SKIP_PB = 6"
| "IVIDEO_FrameSkip_val IVIDEO_SKIP_IPB = 7"
| "IVIDEO_FrameSkip_val IVIDEO_SKIP_IDR = 8"
| "IVIDEO_FrameSkip_val IVIDEO_SKIP_NONREFERENCE = 9"

abbreviation IVIDEO_SKIP_DEFAULT :: IVIDEO_FrameSkip where
  "IVIDEO_SKIP_DEFAULT \<equiv> IVIDEO_NO_SKIP"

datatype IVIDEO_FrameType =
    IVIDEO_NA_FRAME
  | IVIDEO_I_FRAME
  | IVIDEO_P_FRAME
  | IVIDEO_B_FRAME
  | IVIDEO_IDR_FRAME
  | IVIDEO_II_FRAME
  | IVIDEO_IP_FRAME
  | IVIDEO_IB_FRAME
  | IVIDEO_PI_FRAME
  | IVIDEO_PP_FRAME
  | IVIDEO_PB_FRAME
  | IVIDEO_BI_FRAME
  | IVIDEO_BP_FRAME
  | IVIDEO_BB_FRAME
  | IVIDEO_MBAFF_I_FRAME
  | IVIDEO_MBAFF_P_FRAME
  | IVIDEO_MBAFF_B_FRAME
  | IVIDEO_MBAFF_IDR_FRAME

fun IVIDEO_FrameType_val :: "IVIDEO_FrameType \<Rightarrow> int" where
  "IVIDEO_FrameType_val IVIDEO_NA_FRAME = - 1"
| "IVIDEO_FrameType_val IVIDEO_I_FRAME = 0"
| "IVIDEO_FrameType_val IVIDEO_P_FRAME = 1"
| "IVIDEO_FrameType_val IVIDEO_B_FRAME = 2"
| "IVIDEO_FrameType_val IVIDEO_IDR_FRAME = 3"
| "IVIDEO_FrameType_val IVIDEO_II_FRAME = 4"
| "IVIDEO_FrameType_val IVIDEO_IP_FRAME = 5"
| "IVIDEO_FrameType_val IVIDEO_IB_FRAME = 6"
| "IVIDEO_FrameType_val IVIDEO_PI_FRAME = 7"
| "IVIDEO_FrameType_val IVIDEO_PP_FRAME = 8"
| "IVIDEO_FrameType_val IVIDEO_PB_FRAME = 9"
| "IVIDEO_FrameType_val IVIDEO_BI_FRAME = 10"
| "IVIDEO_FrameType_val IVIDEO_BP_FRAME = 11"
| "IVIDEO_FrameType_val IVIDEO_BB_FRAME = 12"
| "IVIDEO_FrameType_val IVIDEO_MBAFF_I_FRAME = 13"
| "IVIDEO_FrameType_val IVIDEO_MBAFF_P_FRAME = 14"
| "IVIDEO_FrameType_val IVIDEO_MBAFF_B_FRAME = 15"
| "IVIDEO_FrameType_val IVIDEO_MBAFF_IDR_FRAME = 16"

abbreviation IVIDEO_FRAMETYPE_DEFAULT :: IVIDEO_FrameType where
  "IVIDEO_FRAMETYPE_DEFAULT \<equiv> IVIDEO_I_FRAME"

datatype IVIDEO_ContentType =
    IVIDEO_CONTENTTYPE_NA
  | IVIDEO_PROGRESSIVE
  | IVIDEO_INTERLACED
  | IVIDEO_INTERLACED_TOPFIELD
  | IVIDEO_INTERLACED_BOTTOMFIELD

fun IVIDEO_ContentType_val :: "IVIDEO_ContentType \<Rightarrow> int" where
  "IVIDEO_ContentType_val IVIDEO_CONTENTTYPE_NA = - 1"
| "IVIDEO_ContentType_val IVIDEO_PROGRESSIVE = 0"
| "IVIDEO_ContentType_val IVIDEO_INTERLACED = 1"
| "IVIDEO_ContentType_val IVIDEO_INTERLACED_TOPFIELD = 2"
| "IVIDEO_ContentType_val IVIDEO_INTERLACED_BOTTOMFIELD = 3"

abbreviation IVIDEO_PROGRESSIVE_FRAME :: IVIDEO_ContentType where
  "IVIDEO_PROGRESSIVE_FRAME \<equiv> IVIDEO_PROGRESSIVE"

abbreviation IVIDEO_INTERLACED_FRAME :: IVIDEO_ContentType where
  "IVIDEO_INTERLACED_FRAME \<equiv> IVIDEO_INTERLACED"

abbreviation IVIDEO_CONTENTTYPE_DEFAULT :: IVIDEO_ContentType where
  "IVIDEO_CONTENTTYPE_DEFAULT \<equiv> IVIDEO_PROGRESSIVE"

datatype IVIDEO_RateControlPreset =
    IVIDEO_LOW_DELAY
  | IVIDEO_STORAGE
  | IVIDEO_TWOPASS
  | IVIDEO_NONE
  | IVIDEO_USER_DEFINED

fun IVIDEO_RateControlPreset_val :: "IVIDEO_RateControlPreset \<Rightarrow> int" where
  "IVIDEO_RateControlPreset_val IVIDEO_LOW_DELAY = 1"
| "IVIDEO_RateControlPreset_val IVIDEO_STORAGE = 2"
| "IVIDEO_RateControlPreset_val IVIDEO_TWOPASS = 3"
| "IVIDEO_RateControlPreset_val IVIDEO_NONE = 4"
| "IVIDEO_RateControlPreset_val IVIDEO_USER_DEFINED = 5"

abbreviation IVIDEO_RATECONTROLPRESET_DEFAULT :: IVIDEO_RateControlPreset where
  "IVIDEO_RATECONTROLPRESET_DEFAULT \<equiv> IVIDEO_LOW_DELAY"

datatype IVIDEO_SkipMode =
    IVIDEO_FRAME_ENCODED
  | IVIDEO_FRAME_SKIPPED

fun IVIDEO_SkipMode_val :: "IVIDEO_SkipMode \<Rightarrow> int" where
  "IVIDEO_SkipMode_val IVIDEO_FRAME_ENCODED = 0"
| "IVIDEO_SkipMode_val IVIDEO_FRAME_SKIPPED = 1"

abbreviation IVIDEO_SKIPMODE_DEFAULT :: IVIDEO_SkipMode where
  "IVIDEO_SKIPMODE_DEFAULT \<equiv> IVIDEO_FRAME_ENCODED"

datatype IVIDEO_OutputFrameStatus =
    IVIDEO_FRAME_NOERROR
  | IVIDEO_FRAME_NOTAVAILABLE
  | IVIDEO_FRAME_ERROR
  | IVIDEO_FRAME_OUTPUTSKIP

fun IVIDEO_OutputFrameStatus_val :: "IVIDEO_OutputFrameStatus \<Rightarrow> int" where
  "IVIDEO_OutputFrameStatus_val IVIDEO_FRAME_NOERROR = 0"
| "IVIDEO_OutputFrameStatus_val IVIDEO_FRAME_NOTAVAILABLE = 1"
| "IVIDEO_OutputFrameStatus_val IVIDEO_FRAME_ERROR = 2"
| "IVIDEO_OutputFrameStatus_val IVIDEO_FRAME_OUTPUTSKIP = 3"

abbreviation IVIDEO_OUTPUTFRAMESTATUS_DEFAULT :: IVIDEO_OutputFrameStatus where
  "IVIDEO_OUTPUTFRAMESTATUS_DEFAULT \<equiv> IVIDEO_FRAME_NOERROR"

datatype IVIDEO_PictureType =
    IVIDEO_NA_PICTURE
  | IVIDEO_I_PICTURE
  | IVIDEO_P_PICTURE
  | IVIDEO_B_PICTURE

fun IVIDEO_PictureType_val :: "IVIDEO_PictureType \<Rightarrow> int" where
  "IVIDEO_PictureType_val IVIDEO_NA_PICTURE = - 1"
| "IVIDEO_PictureType_val IVIDEO_I_PICTURE = 0"
| "IVIDEO_PictureType_val IVIDEO_P_PICTURE = 1"
| "IVIDEO_PictureType_val IVIDEO_B_PICTURE = 2"

abbreviation IVIDEO_PICTURE_TYPE_DEFAULT :: IVIDEO_PictureType where
  "IVIDEO_PICTURE_TYPE_DEFAULT \<equiv> IVIDEO_I_PICTURE"

datatype IVIDEO_Format =
    IVIDEO_MPEG1
  | IVIDEO_MPEG2SP
  | IVIDEO_MPEG2MP
  | IVIDEO_MPEG2HP
  | IVIDEO_MPEG4SP
  | IVIDEO_MPEG4ASP
  | IVIDEO_H264BP
  | IVIDEO_H264MP
  | IVIDEO_H264HP
  | IVIDEO_VC1SP
  | IVIDEO_VC1MP
  | IVIDEO_VC1AP
  | IVIDEO_H264RCDO
  | IVIDEO_RV8
  | IVIDEO_RV9
  | IVIDEO_ON2VP6
  | IVIDEO_ON2VP7
  | IVIDEO_AVS10
  | IVIDEO_SORENSONSPARK
  | IVIDEO_H263_PROFILE0
  | IVIDEO_H263_PROFILE3
  | IVIDEO_H264SVC
  | IVIDEO_MULTIVIEW
  | IVIDEO_MJPEG

fun IVIDEO_Format_val :: "IVIDEO_Format \<Rightarrow> int" where
  "IVIDEO_Format_val IVIDEO_MPEG1 = 1"
| "IVIDEO_Format_val IVIDEO_MPEG2SP = 2"
| "IVIDEO_Format_val IVIDEO_MPEG2MP = 3"
| "IVIDEO_Format_val IVIDEO_MPEG2HP = 4"
| "IVIDEO_Format_val IVIDEO_MPEG4SP = 5"
| "IVIDEO_Format_val IVIDEO_MPEG4ASP = 6"
| "IVIDEO_Format_val IVIDEO_H264BP = 7"
| "IVIDEO_Format_val IVIDEO_H264MP = 8"
| "IVIDEO_Format_val IVIDEO_H264HP = 9"
| "IVIDEO_Format_val IVIDEO_VC1SP = 10"
| "IVIDEO_Format_val IVIDEO_VC1MP = 11"
| "IVIDEO_Format_val IVIDEO_VC1AP = 12"
| "IVIDEO_Format_val IVIDEO_H264RCDO = 13"
| "IVIDEO_Format_val IVIDEO_RV8 = 14"
| "IVIDEO_Format_val IVIDEO_RV9 = 15"
| "IVIDEO_Format_val IVIDEO_ON2VP6 = 16"
| "IVIDEO_Format_val IVIDEO_ON2VP7 = 17"
| "IVIDEO_Format_val IVIDEO_AVS10 = 18"
| "IVIDEO_Format_val IVIDEO_SORENSONSPARK = 19"
| "IVIDEO_Format_val IVIDEO_H263_PROFILE0 = 20"
| "IVIDEO_Format_val IVIDEO_H263_PROFILE3 = 21"
| "IVIDEO_Format_val IVIDEO_H264SVC = 22"
| "IVIDEO_Format_val IVIDEO_MULTIVIEW = 23"
| "IVIDEO_Format_val IVIDEO_MJPEG = 24"

abbreviation IVIDEO_RV10 :: IVIDEO_Format where
  "IVIDEO_RV10 \<equiv> IVIDEO_RV9"

definition IVIDEO_BufDesc :: ctype where
  "IVIDEO_BufDesc = CStruct [
     (''numBufs'', CI32),
     (''width'', CI32),
     (''bufs'', CArr XDM_MAX_IO_BUFFERS CPtr),
     (''bufSizes'', CArr XDM_MAX_IO_BUFFERS CI32)]"

lemma IVIDEO_BufDesc_layout [layout]:
  "csize IVIDEO_BufDesc = 136" "psize IVIDEO_BufDesc = 136" "calign IVIDEO_BufDesc = 4" "wf_ctype IVIDEO_BufDesc"
  by (simp_all add: IVIDEO_BufDesc_def align_up_def layout)

definition IVIDEO1_BufDescIn :: ctype where
  "IVIDEO1_BufDescIn = CStruct [
     (''numBufs'', CI32),
     (''frameWidth'', CI32),
     (''frameHeight'', CI32),
     (''framePitch'', CI32),
     (''bufDesc'', CArr XDM_MAX_IO_BUFFERS XDM1_SingleBufDesc)]"

lemma IVIDEO1_BufDescIn_layout [layout]:
  "csize IVIDEO1_BufDescIn = 208" "psize IVIDEO1_BufDescIn = 208" "calign IVIDEO1_BufDescIn = 4" "wf_ctype IVIDEO1_BufDescIn"
  by (simp_all add: IVIDEO1_BufDescIn_def align_up_def layout)

definition IVIDEO_MAX_YUV_BUFFERS :: nat where [simp]: "IVIDEO_MAX_YUV_BUFFERS = 3"

definition IVIDEO1_BufDesc :: ctype where
  "IVIDEO1_BufDesc = CStruct [
     (''numBufs'', CI32),
     (''frameWidth'', CI32),
     (''frameHeight'', CI32),
     (''framePitch'', CI32),
     (''bufDesc'', CArr IVIDEO_MAX_YUV_BUFFERS XDM1_SingleBufDesc),
     (''extendedError'', CI32),
     (''frameType'', CI32),
     (''topFieldFirstFlag'', CI32),
     (''repeatFirstFieldFlag'', CI32),
     (''frameStatus'', CI32),
     (''repeatFrame'', CI32),
     (''contentType'', CI32),
     (''chromaFormat'', CI32)]"

lemma IVIDEO1_BufDesc_layout [layout]:
  "csize IVIDEO1_BufDesc = 84" "psize IVIDEO1_BufDesc = 84" "calign IVIDEO1_BufDesc = 4" "wf_ctype IVIDEO1_BufDesc"
  by (simp_all add: IVIDEO1_BufDesc_def align_up_def layout)

datatype IVIDEO_VideoLayout =
    IVIDEO_FIELD_INTERLEAVED
  | IVIDEO_FIELD_SEPARATED
  | IVIDEO_TOP_ONLY
  | IVIDEO_BOTTOM_ONLY

fun IVIDEO_VideoLayout_val :: "IVIDEO_VideoLayout \<Rightarrow> int" where
  "IVIDEO_VideoLayout_val IVIDEO_FIELD_INTERLEAVED = 0"
| "IVIDEO_VideoLayout_val IVIDEO_FIELD_SEPARATED = 1"
| "IVIDEO_VideoLayout_val IVIDEO_TOP_ONLY = 2"
| "IVIDEO_VideoLayout_val IVIDEO_BOTTOM_ONLY = 3"

datatype IVIDEO_OperatingMode =
    IVIDEO_DECODE_ONLY
  | IVIDEO_ENCODE_ONLY
  | IVIDEO_TRANSCODE_FRAMELEVEL
  | IVIDEO_TRANSCODE_MBLEVEL
  | IVIDEO_TRANSRATE_FRAMELEVEL
  | IVIDEO_TRANSRATE_MBLEVEL

fun IVIDEO_OperatingMode_val :: "IVIDEO_OperatingMode \<Rightarrow> int" where
  "IVIDEO_OperatingMode_val IVIDEO_DECODE_ONLY = 0"
| "IVIDEO_OperatingMode_val IVIDEO_ENCODE_ONLY = 1"
| "IVIDEO_OperatingMode_val IVIDEO_TRANSCODE_FRAMELEVEL = 2"
| "IVIDEO_OperatingMode_val IVIDEO_TRANSCODE_MBLEVEL = 3"
| "IVIDEO_OperatingMode_val IVIDEO_TRANSRATE_FRAMELEVEL = 4"
| "IVIDEO_OperatingMode_val IVIDEO_TRANSRATE_MBLEVEL = 5"

datatype IVIDEO_BitRange =
    IVIDEO_YUVRANGE_FULL
  | IVIDEO_YUVRANGE_ITU

fun IVIDEO_BitRange_val :: "IVIDEO_BitRange \<Rightarrow> int" where
  "IVIDEO_BitRange_val IVIDEO_YUVRANGE_FULL = 0"
| "IVIDEO_BitRange_val IVIDEO_YUVRANGE_ITU = 1"

datatype IVIDEO_DataMode =
    IVIDEO_FIXEDLENGTH
  | IVIDEO_SLICEMODE
  | IVIDEO_NUMROWS
  | IVIDEO_ENTIREFRAME

fun IVIDEO_DataMode_val :: "IVIDEO_DataMode \<Rightarrow> int" where
  "IVIDEO_DataMode_val IVIDEO_FIXEDLENGTH = 0"
| "IVIDEO_DataMode_val IVIDEO_SLICEMODE = 1"
| "IVIDEO_DataMode_val IVIDEO_NUMROWS = 2"
| "IVIDEO_DataMode_val IVIDEO_ENTIREFRAME = 3"

datatype IVIDEO_ErrorInfoMode =
    IVIDEO_ERRORINFO_OFF
  | IVIDEO_ERRORINFO_ON_INPUT
  | IVIDEO_ERRORINFO_ON_OUTPUT
  | IVIDEO_ERRORINFO_ON_BOTH

fun IVIDEO_ErrorInfoMode_val :: "IVIDEO_ErrorInfoMode \<Rightarrow> int" where
  "IVIDEO_ErrorInfoMode_val IVIDEO_ERRORINFO_OFF = 0"
| "IVIDEO_ErrorInfoMode_val IVIDEO_ERRORINFO_ON_INPUT = 1"
| "IVIDEO_ErrorInfoMode_val IVIDEO_ERRORINFO_ON_OUTPUT = 2"
| "IVIDEO_ErrorInfoMode_val IVIDEO_ERRORINFO_ON_BOTH = 3"

abbreviation IVIDEO_ERRORINFO_MODE_DEFAULT :: IVIDEO_ErrorInfoMode where
  "IVIDEO_ERRORINFO_MODE_DEFAULT \<equiv> IVIDEO_ERRORINFO_OFF"

definition IVIDEO_MAX_NUM_PLANES :: nat where [simp]: "IVIDEO_MAX_NUM_PLANES = 3"

definition IVIDEO_MAX_NUM_METADATA_PLANES :: nat where [simp]: "IVIDEO_MAX_NUM_METADATA_PLANES = 3"

datatype IVIDEO_MetadataType =
    IVIDEO_METADATAPLANE_NONE
  | IVIDEO_METADATAPLANE_MBINFO
  | IVIDEO_METADATAPLANE_EINFO
  | IVIDEO_METADATAPLANE_ALPHA

fun IVIDEO_MetadataType_val :: "IVIDEO_MetadataType \<Rightarrow> int" where
  "IVIDEO_MetadataType_val IVIDEO_METADATAPLANE_NONE = - 1"
| "IVIDEO_MetadataType_val IVIDEO_METADATAPLANE_MBINFO = 0"
| "IVIDEO_MetadataType_val IVIDEO_METADATAPLANE_EINFO = 1"
| "IVIDEO_MetadataType_val IVIDEO_METADATAPLANE_ALPHA = 2"

definition IVIDEO2_BufDesc :: ctype where
  "IVIDEO2_BufDesc = CStruct [
     (''numPlanes'', CI32),
     (''numMetaPlanes'', CI32),
     (''dataLayout'', CI32),
     (''planeDesc'', CArr IVIDEO_MAX_NUM_PLANES XDM2_SingleBufDesc),
     (''metadataPlaneDesc'', CArr IVIDEO_MAX_NUM_METADATA_PLANES XDM2_SingleBufDesc),
     (''secondFieldOffsetWidth'', CArr IVIDEO_MAX_NUM_PLANES CI32),
     (''secondFieldOffsetHeight'', CArr IVIDEO_MAX_NUM_PLANES CI32),
     (''imagePitch'', CArr IVIDEO_MAX_NUM_PLANES CI32),
     (''imageRegion'', XDM_Rect),
     (''activeFrameRegion'', XDM_Rect),
     (''extendedError'', CI32),
     (''frameType'', CI32),
     (''topFieldFirstFlag'', CI32),
     (''repeatFirstFieldFlag'', CI32),
     (''frameStatus'', CI32),
     (''repeatFrame'', CI32),
     (''contentType'', CI32),
     (''chromaFormat'', CI32),
     (''scalingWidth'', CI32),
     (''scalingHeight'', CI32),
     (''rangeMappingLuma'', CI32),
     (''rangeMappingChroma'', CI32),
     (''enableRangeReductionFlag'', CI32)]"

lemma IVIDEO2_BufDesc_layout [layout]:
  "csize IVIDEO2_BufDesc = 252" "psize IVIDEO2_BufDesc = 252" "calign IVIDEO2_BufDesc = 4" "wf_ctype IVIDEO2_BufDesc"
  by (simp_all add: IVIDEO2_BufDesc_def align_up_def layout)

end
