(* ===== verification/Ividdec3_Types.thy ===== *)
theory Ividdec3_Types
  imports Ivideo_Types
begin

text \<open>
  The video decoder interface IVIDDEC3 (\<^verbatim>\<open>packages/xdais/ti/xdais/dm/ividdec3.h\<close>): the creation
  and dynamic parameters, process arguments and status that the client allocates with
  \<open>dce_alloc\<close> and the codec reads and writes on the other processor.
\<close>

definition IVIDDEC3_EOK :: int where [simp]: "IVIDDEC3_EOK = XDM_EOK"

definition IVIDDEC3_EFAIL :: int where [simp]: "IVIDDEC3_EFAIL = XDM_EFAIL"

definition IVIDDEC3_EUNSUPPORTED :: int where [simp]: "IVIDDEC3_EUNSUPPORTED = XDM_EUNSUPPORTED"

definition IVIDDEC3_Obj :: ctype where
  "IVIDDEC3_Obj = CStruct [
     (''fxns'', CPtr)]"

lemma IVIDDEC3_Obj_layout [layout]:
  "csize IVIDDEC3_Obj = 4" "psize IVIDDEC3_Obj = 4" "calign IVIDDEC3_Obj = 4" "wf_ctype IVIDDEC3_Obj"
  by (simp_all add: IVIDDEC3_Obj_def align_up_def layout)

datatype IVIDDEC3_displayDelay =
    IVIDDEC3_DISPLAY_DELAY_AUTO
  | IVIDDEC3_DECODE_ORDER
  | IVIDDEC3_DISPLAY_DELAY_1
  | IVIDDEC3_DISPLAY_DELAY_2
  | IVIDDEC3_DISPLAY_DELAY_3
  | IVIDDEC3_DISPLAY_DELAY_4
  | IVIDDEC3_DISPLAY_DELAY_5
  | IVIDDEC3_DISPLAY_DELAY_6
  | IVIDDEC3_DISPLAY_DELAY_7
  | IVIDDEC3_DISPLAY_DELAY_8
  | IVIDDEC3_DISPLAY_DELAY_9
  | IVIDDEC3_DISPLAY_DELAY_10
  | IVIDDEC3_DISPLAY_DELAY_11
  | IVIDDEC3_DISPLAY_DELAY_12
  | IVIDDEC3_DISPLAY_DELAY_13
  | IVIDDEC3_DISPLAY_DELAY_14
  | IVIDDEC3_DISPLAY_DELAY_15
  | IVIDDEC3_DISPLAY_DELAY_16

fun IVIDDEC3_displayDelay_val :: "IVIDDEC3_displayDelay \<Rightarrow> int" where
  "IVIDDEC3_displayDelay_val IVIDDEC3_DISPLAY_DELAY_AUTO = - 1"
| "IVIDDEC3_displayDelay_val IVIDDEC3_DECODE_ORDER = 0"
| "IVIDDEC3_displayDelay_val IVIDDEC3_DISPLAY_DELAY_1 = 1"
| "IVIDDEC3_displayDelay_val IVIDDEC3_DISPLAY_DELAY_2 = 2"
| "IVIDDEC3_displayDelay_val IVIDDEC3_DISPLAY_DELAY_3 = 3"
| "IVIDDEC3_displayDelay_val IVIDDEC3_DISPLAY_DELAY_4 = 4"
| "IVIDDEC3_displayDelay_val IVIDDEC3_DISPLAY_DELAY_5 = 5"
| "IVIDDEC3_displayDelay_val IVIDDEC3_DISPLAY_DELAY_6 = 6"
| "IVIDDEC3_displayDelay_val IVIDDEC3_DISPLAY_DELAY_7 = 7"
| "IVIDDEC3_displayDelay_val IVIDDEC3_DISPLAY_DELAY_8 = 8"
| "IVIDDEC3_displayDelay_val IVIDDEC3_DISPLAY_DELAY_9 = 9"
| "IVIDDEC3_displayDelay_val IVIDDEC3_DISPLAY_DELAY_10 = 10"
| "IVIDDEC3_displayDelay_val IVIDDEC3_DISPLAY_DELAY_11 = 11"
| "IVIDDEC3_displayDelay_val IVIDDEC3_DISPLAY_DELAY_12 = 12"
| "IVIDDEC3_displayDelay_val IVIDDEC3_DISPLAY_DELAY_13 = 13"
| "IVIDDEC3_displayDelay_val IVIDDEC3_DISPLAY_DELAY_14 = 14"
| "IVIDDEC3_displayDelay_val IVIDDEC3_DISPLAY_DELAY_15 = 15"
| "IVIDDEC3_displayDelay_val IVIDDEC3_DISPLAY_DELAY_16 = 16"

abbreviation IVIDDEC3_DISPLAYDELAY_DEFAULT :: IVIDDEC3_displayDelay where
  "IVIDDEC3_DISPLAYDELAY_DEFAULT \<equiv> IVIDDEC3_DISPLAY_DELAY_AUTO"

definition IVIDDEC3_Params :: ctype where
  "IVIDDEC3_Params = CStruct [
     (''size'', CI32),
     (''maxHeight'', CI32),
     (''maxWidth'', CI32),
     (''maxFrameRate'', CI32),
     (''maxBitRate'', CI32),
     (''dataEndianness'', CI32),
     (''forceChromaFormat'', CI32),
     (''operatingMode'', CI32),
     (''displayDelay'', CI32),
     (''inputDataMode'', CI32),
     (''outputDataMode'', CI32),
     (''numInputDataUnits'', CI32),
     (''numOutputDataUnits'', CI32),
     (''errorInfoMode'', CI32),
     (''displayBufsMode'', CI32),
     (''metadataType'', CArr IVIDEO_MAX_NUM_METADATA_PLANES CI32)]"

lemma IVIDDEC3_Params_layout [layout]:
  "csize IVIDDEC3_Params = 72" "psize IVIDDEC3_Params = 72" "calign IVIDDEC3_Params = 4" "wf_ctype IVIDDEC3_Params"
  by (simp_all add: IVIDDEC3_Params_def align_up_def layout)

definition IVIDDEC3_DynamicParams :: ctype where
  "IVIDDEC3_DynamicParams = CStruct [
     (''size'', CI32),
     (''decodeHeader'', CI32),
     (''displayWidth'', CI32),
     (''frameSkipMode'', CI32),
     (''newFrameFlag'', CI32),
     (''putDataFxn'', CPtr),
     (''putDataHandle'', CPtr),
     (''getDataFxn'', CPtr),
     (''getDataHandle'', CPtr),
     (''putBufferFxn'', CPtr),
     (''putBufferHandle'', CPtr),
     (''lateAcquireArg'', CI32)]"

lemma IVIDDEC3_DynamicParams_layout [layout]:
  "csize IVIDDEC3_DynamicParams = 48" "psize IVIDDEC3_DynamicParams = 48" "calign IVIDDEC3_DynamicParams = 4" "wf_ctype IVIDDEC3_DynamicParams"
  by (simp_all add: IVIDDEC3_DynamicParams_def align_up_def layout)

definition IVIDDEC3_InArgs :: ctype where
  "IVIDDEC3_InArgs = CStruct [
     (''size'', CI32),
     (''numBytes'', CI32),
     (''inputID'', CI32)]"

lemma IVIDDEC3_InArgs_layout [layout]:
  "csize IVIDDEC3_InArgs = 12" "psize IVIDDEC3_InArgs = 12" "calign IVIDDEC3_InArgs = 4" "wf_ctype IVIDDEC3_InArgs"
  by (simp_all add: IVIDDEC3_InArgs_def align_up_def layout)

definition IVIDDEC3_Status :: ctype where
  "IVIDDEC3_Status = CStruct [
     (''size'', CI32),
     (''extendedError'', CI32),
     (''data'', XDM1_SingleBufDesc),
     (''maxNumDisplayBufs'', CI32),
     (''maxOutArgsDisplayBufs'', CI32),
     (''outputHeight'', CI32),
     (''outputWidth'', CI32),
     (''frameRate'', CI32),
     (''bitRate'', CI32),
     (''contentType'', CI32),
     (''sampleAspectRatioHeight'', CI32),
     (''sampleAspectRatioWidth'', CI32),
     (''bitRange'', CI32),
     (''forceChromaFormat'', CI32),
     (''operatingMode'', CI32),
     (''frameOrder'', CI32),
     (''inputDataMode'', CI32),
     (''outputDataMode'', CI32),
     (''bufInfo'', XDM1_AlgBufInfo),
     (''numInputDataUnits'', CI32),
     (''numOutputDataUnits'', CI32),
     (''configurationID'', CI32),
     (''metadataType'', CArr IVIDEO_MAX_NUM_METADATA_PLANES CI32),
     (''decDynamicParams'', IVIDDEC3_DynamicParams)]"

lemma IVIDDEC3_Status_layout [layout]:
  "csize IVIDDEC3_Status = 548" "psize IVIDDEC3_Status = 548" "calign IVIDDEC3_Status = 4" "wf_ctype IVIDDEC3_Status"
  by (simp_all add: IVIDDEC3_Status_def align_up_def layout)

datatype IVIDDEC3_DisplayBufsMode =
    IVIDDEC3_DISPLAYBUFS_EMBEDDED
  | IVIDDEC3_DISPLAYBUFS_PTRS

fun IVIDDEC3_DisplayBufsMode_val :: "IVIDDEC3_DisplayBufsMode \<Rightarrow> int" where
  "IVIDDEC3_DisplayBufsMode_val IVIDDEC3_DISPLAYBUFS_EMBEDDED = 1"
| "IVIDDEC3_DisplayBufsMode_val IVIDDEC3_DISPLAYBUFS_PTRS = 2"

definition IVIDDEC3_OutArgs_displayBufs :: ctype where
  "IVIDDEC3_OutArgs_displayBufs = CUnion [
     (''bufDesc'', CArr 1 IVIDEO2_BufDesc),
     (''pBufDesc'', CArr IVIDEO2_MAX_IO_BUFFERS CPtr)]"

lemma IVIDDEC3_OutArgs_displayBufs_layout [layout]:
  "csize IVIDDEC3_OutArgs_displayBufs = 252" "psize IVIDDEC3_OutArgs_displayBufs = 252"
  "calign IVIDDEC3_OutArgs_displayBufs = 4" "wf_ctype IVIDDEC3_OutArgs_displayBufs"
  by (simp_all add: IVIDDEC3_OutArgs_displayBufs_def align_up_def layout)

definition IVIDDEC3_OutArgs :: ctype where
  "IVIDDEC3_OutArgs = CStruct [
     (''size'', CI32),
     (''extendedError'', CI32),
     (''bytesConsumed'', CI32),
     (''outputID'', CArr IVIDEO2_MAX_IO_BUFFERS CI32),
     (''decodedBufs'', IVIDEO2_BufDesc),
     (''freeBufID'', CArr IVIDEO2_MAX_IO_BUFFERS CI32),
     (''outBufsInUseFlag'', CI32),
     (''displayBufsMode'', CI32),
     (''displayBufs'', IVIDDEC3_OutArgs_displayBufs)]"

lemma IVIDDEC3_OutArgs_layout [layout]:
  "csize IVIDDEC3_OutArgs = 684" "psize IVIDDEC3_OutArgs = 684" "calign IVIDDEC3_OutArgs = 4" "wf_ctype IVIDDEC3_OutArgs"
  by (simp_all add: IVIDDEC3_OutArgs_def align_up_def layout)

definition IVIDDEC3_Fxns :: ctype where
  "IVIDDEC3_Fxns = CStruct [
     (''ialg'', IALG_Fxns),
     (''process'', CPtr),
     (''control'', CPtr)]"

lemma IVIDDEC3_Fxns_layout [layout]:
  "csize IVIDDEC3_Fxns = 44" "psize IVIDDEC3_Fxns = 44" "calign IVIDDEC3_Fxns = 4" "wf_ctype IVIDDEC3_Fxns"
  by (simp_all add: IVIDDEC3_Fxns_def align_up_def layout)

end
