(* ===== verification/Codec_Types.thy ===== *)
theory Codec_Types
  imports Ividdec3_Types
begin

text \<open>
  The structures with which the IVA-HD codecs extend the IVIDDEC3 interface
  (\<^verbatim>\<open>packages/ivahd_codecs/ti/sdo/codecs\<close>): H.264, MPEG-2, MPEG-4, RealVideo, VC-1, VP6 and VP7
  decoders. Each starts with the IVIDDEC3 structure of the same role; an anonymous union
  is a member with an empty name.
\<close>

subsection \<open>\<^verbatim>\<open>h264dec/ih264vdec.h\<close>\<close>

definition IH264VDEC_Status :: ctype where
  "IH264VDEC_Status = CStruct [
     (''viddec3Status'', IVIDDEC3_Status),
     (''reserved'', CArr 7 CI32),
     (''gapInFrameNum'', CI32),
     (''spsMaxRefFrames'', CI32)]"

lemma IH264VDEC_Status_layout [layout]:
  "csize IH264VDEC_Status = 584" "psize IH264VDEC_Status = 584" "calign IH264VDEC_Status = 4" "wf_ctype IH264VDEC_Status"
  by (simp_all add: IH264VDEC_Status_def align_up_def layout)

definition IH264VDEC_Params :: ctype where
  "IH264VDEC_Params = CStruct [
     (''viddec3Params'', IVIDDEC3_Params),
     ('''', CUnion [
       (''maxNumRefFrames'', CI32),
       (''dpbSizeInFrames'', CI32)]),
     (''pConstantMemory'', CI32),
     (''bitStreamFormat'', CI32),
     (''errConcealmentMode'', CI32),
     (''temporalDirModePred'', CI32),
     (''reserved_1'', CArr 4 CI32),
     (''presetLevelIdc'', CI32),
     (''presetProfileIdc'', CI32),
     (''detectCabacAlignErr'', CI32),
     (''detectIPCMAlignErr'', CI32),
     (''reserved_2'', CArr 5 CI32)]"

lemma IH264VDEC_Params_layout [layout]:
  "csize IH264VDEC_Params = 144" "psize IH264VDEC_Params = 144" "calign IH264VDEC_Params = 4" "wf_ctype IH264VDEC_Params"
  by (simp_all add: IH264VDEC_Params_def align_up_def layout)

definition IH264VDEC_DynamicParams :: ctype where
  "IH264VDEC_DynamicParams = CStruct [
     (''viddec3DynamicParams'', IVIDDEC3_DynamicParams),
     (''deblockFilterMode'', CI32),
     (''reserved'', CArr 7 CI32)]"

lemma IH264VDEC_DynamicParams_layout [layout]:
  "csize IH264VDEC_DynamicParams = 80" "psize IH264VDEC_DynamicParams = 80" "calign IH264VDEC_DynamicParams = 4" "wf_ctype IH264VDEC_DynamicParams"
  by (simp_all add: IH264VDEC_DynamicParams_def align_up_def layout)

definition IH264VDEC_InArgs :: ctype where
  "IH264VDEC_InArgs = CStruct [
     (''viddec3InArgs'', IVIDDEC3_InArgs)]"

lemma IH264VDEC_InArgs_layout [layout]:
  "csize IH264VDEC_InArgs = 12" "psize IH264VDEC_InArgs = 12" "calign IH264VDEC_InArgs = 4" "wf_ctype IH264VDEC_InArgs"
  by (simp_all add: IH264VDEC_InArgs_def align_up_def layout)

definition IH264VDEC_OutArgs :: ctype where
  "IH264VDEC_OutArgs = CStruct [
     (''viddec3OutArgs'', IVIDDEC3_OutArgs)]"

lemma IH264VDEC_OutArgs_layout [layout]:
  "csize IH264VDEC_OutArgs = 684" "psize IH264VDEC_OutArgs = 684" "calign IH264VDEC_OutArgs = 4" "wf_ctype IH264VDEC_OutArgs"
  by (simp_all add: IH264VDEC_OutArgs_def align_up_def layout)

datatype IH264VDEC_numRefFrames =
    IH264VDEC_NUM_REFFRAMES_AUTO
  | IH264VDEC_NUM_REFFRAMES_0
  | IH264VDEC_NUM_REFFRAMES_1
  | IH264VDEC_NUM_REFFRAMES_2
  | IH264VDEC_NUM_REFFRAMES_3
  | IH264VDEC_NUM_REFFRAMES_4
  | IH264VDEC_NUM_REFFRAMES_5
  | IH264VDEC_NUM_REFFRAMES_6
  | IH264VDEC_NUM_REFFRAMES_7
  | IH264VDEC_NUM_REFFRAMES_8
  | IH264VDEC_NUM_REFFRAMES_9
  | IH264VDEC_NUM_REFFRAMES_10
  | IH264VDEC_NUM_REFFRAMES_11
  | IH264VDEC_NUM_REFFRAMES_12
  | IH264VDEC_NUM_REFFRAMES_13
  | IH264VDEC_NUM_REFFRAMES_14
  | IH264VDEC_NUM_REFFRAMES_15
  | IH264VDEC_NUM_REFFRAMES_16

fun IH264VDEC_numRefFrames_val :: "IH264VDEC_numRefFrames \<Rightarrow> int" where
  "IH264VDEC_numRefFrames_val IH264VDEC_NUM_REFFRAMES_AUTO = - 1"
| "IH264VDEC_numRefFrames_val IH264VDEC_NUM_REFFRAMES_0 = 0"
| "IH264VDEC_numRefFrames_val IH264VDEC_NUM_REFFRAMES_1 = 1"
| "IH264VDEC_numRefFrames_val IH264VDEC_NUM_REFFRAMES_2 = 2"
| "IH264VDEC_numRefFrames_val IH264VDEC_NUM_REFFRAMES_3 = 3"
| "IH264VDEC_numRefFrames_val IH264VDEC_NUM_REFFRAMES_4 = 4"
| "IH264VDEC_numRefFrames_val IH264VDEC_NUM_REFFRAMES_5 = 5"
| "IH264VDEC_numRefFrames_val IH264VDEC_NUM_REFFRAMES_6 = 6"
| "IH264VDEC_numRefFrames_val IH264VDEC_NUM_REFFRAMES_7 = 7"
| "IH264VDEC_numRefFrames_val IH264VDEC_NUM_REFFRAMES_8 = 8"
| "IH264VDEC_numRefFrames_val IH264VDEC_NUM_REFFRAMES_9 = 9"
| "IH264VDEC_numRefFrames_val IH264VDEC_NUM_REFFRAMES_10 = 10"
| "IH264VDEC_numRefFrames_val IH264VDEC_NUM_REFFRAMES_11 = 11"
| "IH264VDEC_numRefFrames_val IH264VDEC_NUM_REFFRAMES_12 = 12"
| "IH264VDEC_numRefFrames_val IH264VDEC_NUM_REFFRAMES_13 = 13"
| "IH264VDEC_numRefFrames_val IH264VDEC_NUM_REFFRAMES_14 = 14"
| "IH264VDEC_numRefFrames_val IH264VDEC_NUM_REFFRAMES_15 = 15"
| "IH264VDEC_numRefFrames_val IH264VDEC_NUM_REFFRAMES_16 = 16"

abbreviation IH264VDEC_NUM_REFFRAMES_DEFAULT :: IH264VDEC_numRefFrames where
  "IH264VDEC_NUM_REFFRAMES_DEFAULT \<equiv> IH264VDEC_NUM_REFFRAMES_AUTO"

datatype IH264VDEC_dpbNumFrames =
    IH264VDEC_DPB_NUMFRAMES_AUTO
  | IH264VDEC_DPB_NUMFRAMES_0
  | IH264VDEC_DPB_NUMFRAMES_1
  | IH264VDEC_DPB_NUMFRAMES_2
  | IH264VDEC_DPB_NUMFRAMES_3
  | IH264VDEC_DPB_NUMFRAMES_4
  | IH264VDEC_DPB_NUMFRAMES_5
  | IH264VDEC_DPB_NUMFRAMES_6
  | IH264VDEC_DPB_NUMFRAMES_7
  | IH264VDEC_DPB_NUMFRAMES_8
  | IH264VDEC_DPB_NUMFRAMES_9
  | IH264VDEC_DPB_NUMFRAMES_10
  | IH264VDEC_DPB_NUMFRAMES_11
  | IH264VDEC_DPB_NUMFRAMES_12
  | IH264VDEC_DPB_NUMFRAMES_13
  | IH264VDEC_DPB_NUMFRAMES_14
  | IH264VDEC_DPB_NUMFRAMES_15
  | IH264VDEC_DPB_NUMFRAMES_16

fun IH264VDEC_dpbNumFrames_val :: "IH264VDEC_dpbNumFrames \<Rightarrow> int" where
  "IH264VDEC_dpbNumFrames_val IH264VDEC_DPB_NUMFRAMES_AUTO = - 1"
| "IH264VDEC_dpbNumFrames_val IH264VDEC_DPB_NUMFRAMES_0 = 0"
| "IH264VDEC_dpbNumFrames_val IH264VDEC_DPB_NUMFRAMES_1 = 1"
| "IH264VDEC_dpbNumFrames_val IH264VDEC_DPB_NUMFRAMES_2 = 2"
| "IH264VDEC_dpbNumFrames_val IH264VDEC_DPB_NUMFRAMES_3 = 3"
| "IH264VDEC_dpbNumFrames_val IH264VDEC_DPB_NUMFRAMES_4 = 4"
| "IH264VDEC_dpbNumFrames_val IH264VDEC_DPB_NUMFRAMES_5 = 5"
| "IH264VDEC_dpbNumFrames_val IH264VDEC_DPB_NUMFRAMES_6 = 6"
| "IH264VDEC_dpbNumFrames_val IH264VDEC_DPB_NUMFRAMES_7 = 7"
| "IH264VDEC_dpbNumFrames_val IH264VDEC_DPB_NUMFRAMES_8 = 8"
| "IH264VDEC_dpbNumFrames_val IH264VDEC_DPB_NUMFRAMES_9 = 9"
| "IH264VDEC_dpbNumFrames_val IH264VDEC_DPB_NUMFRAMES_10 = 10"
| "IH264VDEC_dpbNumFrames_val IH264VDEC_DPB_NUMFRAMES_11 = 11"
| "IH264VDEC_dpbNumFrames_val IH264VDEC_DPB_NUMFRAMES_12 = 12"
| "IH264VDEC_dpbNumFrames_val IH264VDEC_DPB_NUMFRAMES_13 = 13"
| "IH264VDEC_dpbNumFrames_val IH264VDEC_DPB_NUMFRAMES_14 = 14"
| "IH264VDEC_dpbNumFrames_val IH264VDEC_DPB_NUMFRAMES_15 = 15"
| "IH264VDEC_dpbNumFrames_val IH264VDEC_DPB_NUMFRAMES_16 = 16"

abbreviation IH264VDEC_DPB_NUMFRAMES_DEFAULT :: IH264VDEC_dpbNumFrames where
  "IH264VDEC_DPB_NUMFRAMES_DEFAULT \<equiv> IH264VDEC_DPB_NUMFRAMES_AUTO"

datatype IH264VDEC_errConcealmentMode =
    IH264VDEC_NO_CONCEALMENT
  | IH264VDEC_APPLY_CONCEALMENT

fun IH264VDEC_errConcealmentMode_val :: "IH264VDEC_errConcealmentMode \<Rightarrow> int" where
  "IH264VDEC_errConcealmentMode_val IH264VDEC_NO_CONCEALMENT = 0"
| "IH264VDEC_errConcealmentMode_val IH264VDEC_APPLY_CONCEALMENT = 1"

datatype IH264VDEC_detectCabacAlignErr =
    IH264VDEC_DISABLE_CABACALIGNERR_DETECTION
  | IH264VDEC_ENABLE_CABACALIGNERR_DETECTION

fun IH264VDEC_detectCabacAlignErr_val :: "IH264VDEC_detectCabacAlignErr \<Rightarrow> int" where
  "IH264VDEC_detectCabacAlignErr_val IH264VDEC_DISABLE_CABACALIGNERR_DETECTION = 0"
| "IH264VDEC_detectCabacAlignErr_val IH264VDEC_ENABLE_CABACALIGNERR_DETECTION = 1"

datatype IH264VDEC_detectIPCMAlignErr =
    IH264VDEC_DISABLE_IPCMALIGNERR_DETECTION
  | IH264VDEC_ENABLE_IPCMALIGNERR_DETECTION

fun IH264VDEC_detectIPCMAlignErr_val :: "IH264VDEC_detectIPCMAlignErr \<Rightarrow> int" where
  "IH264VDEC_detectIPCMAlignErr_val IH264VDEC_DISABLE_IPCMALIGNERR_DETECTION = 0"
| "IH264VDEC_detectIPCMAlignErr_val IH264VDEC_ENABLE_IPCMALIGNERR_DETECTION = 1"

datatype IH264VDEC_LevelId =
    IH264VDEC_LEVEL1
  | IH264VDEC_LEVEL1B
  | IH264VDEC_LEVEL11
  | IH264VDEC_LEVEL12
  | IH264VDEC_LEVEL13
  | IH264VDEC_LEVEL2
  | IH264VDEC_LEVEL21
  | IH264VDEC_LEVEL22
  | IH264VDEC_LEVEL3
  | IH264VDEC_LEVEL31
  | IH264VDEC_LEVEL32
  | IH264VDEC_LEVEL4
  | IH264VDEC_LEVEL41
  | IH264VDEC_LEVEL42
  | IH264VDEC_LEVEL5
  | IH264VDEC_LEVEL51

fun IH264VDEC_LevelId_val :: "IH264VDEC_LevelId \<Rightarrow> int" where
  "IH264VDEC_LevelId_val IH264VDEC_LEVEL1 = 0"
| "IH264VDEC_LevelId_val IH264VDEC_LEVEL1B = 1"
| "IH264VDEC_LevelId_val IH264VDEC_LEVEL11 = 2"
| "IH264VDEC_LevelId_val IH264VDEC_LEVEL12 = 3"
| "IH264VDEC_LevelId_val IH264VDEC_LEVEL13 = 4"
| "IH264VDEC_LevelId_val IH264VDEC_LEVEL2 = 5"
| "IH264VDEC_LevelId_val IH264VDEC_LEVEL21 = 6"
| "IH264VDEC_LevelId_val IH264VDEC_LEVEL22 = 7"
| "IH264VDEC_LevelId_val IH264VDEC_LEVEL3 = 8"
| "IH264VDEC_LevelId_val IH264VDEC_LEVEL31 = 9"
| "IH264VDEC_LevelId_val IH264VDEC_LEVEL32 = 10"
| "IH264VDEC_LevelId_val IH264VDEC_LEVEL4 = 11"
| "IH264VDEC_LevelId_val IH264VDEC_LEVEL41 = 12"
| "IH264VDEC_LevelId_val IH264VDEC_LEVEL42 = 13"
| "IH264VDEC_LevelId_val IH264VDEC_LEVEL5 = 14"
| "IH264VDEC_LevelId_val IH264VDEC_LEVEL51 = 15"

abbreviation IH264VDEC_MAXLEVELID :: IH264VDEC_LevelId where
  "IH264VDEC_MAXLEVELID \<equiv> IH264VDEC_LEVEL51"

subsection \<open>\<^verbatim>\<open>mpeg2vdec/impeg2vdec.h\<close>\<close>

definition IMPEG2VDEC_Status :: ctype where
  "IMPEG2VDEC_Status = CStruct [
     (''viddecStatus'', IVIDDEC3_Status),
     (''extendedErrorCode0'', CI32),
     (''extendedErrorCode1'', CI32),
     (''extendedErrorCode2'', CI32),
     (''extendedErrorCode3'', CI32),
     (''reserved'', CArr 4 CI32)]"

lemma IMPEG2VDEC_Status_layout [layout]:
  "csize IMPEG2VDEC_Status = 580" "psize IMPEG2VDEC_Status = 580" "calign IMPEG2VDEC_Status = 4" "wf_ctype IMPEG2VDEC_Status"
  by (simp_all add: IMPEG2VDEC_Status_def align_up_def layout)

definition IMPEG2VDEC_Params :: ctype where
  "IMPEG2VDEC_Params = CStruct [
     (''viddecParams'', IVIDDEC3_Params),
     (''ErrorConcealmentON'', CI32),
     (''reserved'', CArr 3 CI32)]"

lemma IMPEG2VDEC_Params_layout [layout]:
  "csize IMPEG2VDEC_Params = 88" "psize IMPEG2VDEC_Params = 88" "calign IMPEG2VDEC_Params = 4" "wf_ctype IMPEG2VDEC_Params"
  by (simp_all add: IMPEG2VDEC_Params_def align_up_def layout)

definition IMPEG2VDEC_DynamicParams :: ctype where
  "IMPEG2VDEC_DynamicParams = CStruct [
     (''viddecDynamicParams'', IVIDDEC3_DynamicParams),
     (''gotoNextIFrame'', CI32),
     (''skipBFrame'', CI32),
     (''skipCurrFrame'', CI32),
     (''seekFrameEnd'', CI32)]"

lemma IMPEG2VDEC_DynamicParams_layout [layout]:
  "csize IMPEG2VDEC_DynamicParams = 64" "psize IMPEG2VDEC_DynamicParams = 64" "calign IMPEG2VDEC_DynamicParams = 4" "wf_ctype IMPEG2VDEC_DynamicParams"
  by (simp_all add: IMPEG2VDEC_DynamicParams_def align_up_def layout)

definition IMPEG2VDEC_InArgs :: ctype where
  "IMPEG2VDEC_InArgs = CStruct [
     (''viddecInArgs'', IVIDDEC3_InArgs)]"

lemma IMPEG2VDEC_InArgs_layout [layout]:
  "csize IMPEG2VDEC_InArgs = 12" "psize IMPEG2VDEC_InArgs = 12" "calign IMPEG2VDEC_InArgs = 4" "wf_ctype IMPEG2VDEC_InArgs"
  by (simp_all add: IMPEG2VDEC_InArgs_def align_up_def layout)

definition IMPEG2VDEC_OutArgs :: ctype where
  "IMPEG2VDEC_OutArgs = CStruct [
     (''viddecOutArgs'', IVIDDEC3_OutArgs)]"

lemma IMPEG2VDEC_OutArgs_layout [layout]:
  "csize IMPEG2VDEC_OutArgs = 684" "psize IMPEG2VDEC_OutArgs = 684" "calign IMPEG2VDEC_OutArgs = 4" "wf_ctype IMPEG2VDEC_OutArgs"
  by (simp_all add: IMPEG2VDEC_OutArgs_def align_up_def layout)

subsection \<open>\<^verbatim>\<open>mpeg4dec/impeg4vdec.h\<close>\<close>

definition IMPEG4VDEC_Status :: ctype where
  "IMPEG4VDEC_Status = CStruct [
     (''viddec3Status'', IVIDDEC3_Status),
     (''reserved'', CArr 4 CI32)]"

lemma IMPEG4VDEC_Status_layout [layout]:
  "csize IMPEG4VDEC_Status = 564" "psize IMPEG4VDEC_Status = 564" "calign IMPEG4VDEC_Status = 4" "wf_ctype IMPEG4VDEC_Status"
  by (simp_all add: IMPEG4VDEC_Status_def align_up_def layout)

definition IMPEG4VDEC_Params :: ctype where
  "IMPEG4VDEC_Params = CStruct [
     (''viddec3Params'', IVIDDEC3_Params),
     (''outloopDeBlocking'', CI32),
     (''ErrorConcealmentON'', CI32),
     (''sorensonSparkStream'', CI32),
     (''reserved'', CArr 3 CI32)]"

lemma IMPEG4VDEC_Params_layout [layout]:
  "csize IMPEG4VDEC_Params = 96" "psize IMPEG4VDEC_Params = 96" "calign IMPEG4VDEC_Params = 4" "wf_ctype IMPEG4VDEC_Params"
  by (simp_all add: IMPEG4VDEC_Params_def align_up_def layout)

definition IMPEG4VDEC_DynamicParams :: ctype where
  "IMPEG4VDEC_DynamicParams = CStruct [
     (''viddec3DynamicParams'', IVIDDEC3_DynamicParams)]"

lemma IMPEG4VDEC_DynamicParams_layout [layout]:
  "csize IMPEG4VDEC_DynamicParams = 48" "psize IMPEG4VDEC_DynamicParams = 48" "calign IMPEG4VDEC_DynamicParams = 4" "wf_ctype IMPEG4VDEC_DynamicParams"
  by (simp_all add: IMPEG4VDEC_DynamicParams_def align_up_def layout)

definition IMPEG4VDEC_InArgs :: ctype where
  "IMPEG4VDEC_InArgs = CStruct [
     (''viddec3InArgs'', IVIDDEC3_InArgs)]"

lemma IMPEG4VDEC_InArgs_layout [layout]:
  "csize IMPEG4VDEC_InArgs = 12" "psize IMPEG4VDEC_InArgs = 12" "calign IMPEG4VDEC_InArgs = 4" "wf_ctype IMPEG4VDEC_InArgs"
  by (simp_all add: IMPEG4VDEC_InArgs_def align_up_def layout)

definition IMPEG4VDEC_OutArgs :: ctype where
  "IMPEG4VDEC_OutArgs = CStruct [
     (''viddec3OutArgs'', IVIDDEC3_OutArgs),
     (''vopTimeIncrementResolution'', CI32),
     (''vopTimeIncrement'', CI32),
     (''mp4ClosedGov'', CI32),
     (''mp4BrokenLink'', CI32)]"

lemma IMPEG4VDEC_OutArgs_layout [layout]:
  "csize IMPEG4VDEC_OutArgs = 700" "psize IMPEG4VDEC_OutArgs = 700" "calign IMPEG4VDEC_OutArgs = 4" "wf_ctype IMPEG4VDEC_OutArgs"
  by (simp_all add: IMPEG4VDEC_OutArgs_def align_up_def layout)

subsection \<open>\<^verbatim>\<open>realvdec/irealvdec.h\<close>\<close>

definition IrealVDEC_Status :: ctype where
  "IrealVDEC_Status = CStruct [
     (''viddecStatus'', IVIDDEC3_Status),
     (''extendedErrorCode0'', CI32),
     (''extendedErrorCode1'', CI32),
     (''extendedErrorCode2'', CI32),
     (''extendedErrorCode3'', CI32),
     (''reserved'', CArr 4 CI32)]"

lemma IrealVDEC_Status_layout [layout]:
  "csize IrealVDEC_Status = 580" "psize IrealVDEC_Status = 580" "calign IrealVDEC_Status = 4" "wf_ctype IrealVDEC_Status"
  by (simp_all add: IrealVDEC_Status_def align_up_def layout)

definition IrealVDEC_Params :: ctype where
  "IrealVDEC_Params = CStruct [
     (''viddecParams'', IVIDDEC3_Params),
     (''codec_version'', CI32),
     (''stream_type'', CI32),
     (''reserved'', CArr 2 CI32),
     (''errorConcealmentEnable'', CI32)]"

lemma IrealVDEC_Params_layout [layout]:
  "csize IrealVDEC_Params = 92" "psize IrealVDEC_Params = 92" "calign IrealVDEC_Params = 4" "wf_ctype IrealVDEC_Params"
  by (simp_all add: IrealVDEC_Params_def align_up_def layout)

definition IrealVDEC_DynamicParams :: ctype where
  "IrealVDEC_DynamicParams = CStruct [
     (''viddecDynamicParams'', IVIDDEC3_DynamicParams)]"

lemma IrealVDEC_DynamicParams_layout [layout]:
  "csize IrealVDEC_DynamicParams = 48" "psize IrealVDEC_DynamicParams = 48" "calign IrealVDEC_DynamicParams = 4" "wf_ctype IrealVDEC_DynamicParams"
  by (simp_all add: IrealVDEC_DynamicParams_def align_up_def layout)

definition IrealVDEC_InArgs :: ctype where
  "IrealVDEC_InArgs = CStruct [
     (''viddecInArgs'', IVIDDEC3_InArgs),
     (''packSize'', CPtr),
     (''num_packets'', CI32)]"

lemma IrealVDEC_InArgs_layout [layout]:
  "csize IrealVDEC_InArgs = 20" "psize IrealVDEC_InArgs = 20" "calign IrealVDEC_InArgs = 4" "wf_ctype IrealVDEC_InArgs"
  by (simp_all add: IrealVDEC_InArgs_def align_up_def layout)

definition IrealVDEC_OutArgs :: ctype where
  "IrealVDEC_OutArgs = CStruct [
     (''viddecOutArgs'', IVIDDEC3_OutArgs)]"

lemma IrealVDEC_OutArgs_layout [layout]:
  "csize IrealVDEC_OutArgs = 684" "psize IrealVDEC_OutArgs = 684" "calign IrealVDEC_OutArgs = 4" "wf_ctype IrealVDEC_OutArgs"
  by (simp_all add: IrealVDEC_OutArgs_def align_up_def layout)

subsection \<open>\<^verbatim>\<open>vc1vdec/ivc1vdec.h\<close>\<close>

definition IVC1VDEC_Status :: ctype where
  "IVC1VDEC_Status = CStruct [
     (''viddecStatus'', IVIDDEC3_Status),
     (''extendedErrorCode0'', CI32),
     (''extendedErrorCode1'', CI32),
     (''extendedErrorCode2'', CI32),
     (''extendedErrorCode3'', CI32),
     (''reserved'', CArr 4 CI32)]"

lemma IVC1VDEC_Status_layout [layout]:
  "csize IVC1VDEC_Status = 580" "psize IVC1VDEC_Status = 580" "calign IVC1VDEC_Status = 4" "wf_ctype IVC1VDEC_Status"
  by (simp_all add: IVC1VDEC_Status_def align_up_def layout)

definition IVC1VDEC_Params :: ctype where
  "IVC1VDEC_Params = CStruct [
     (''viddecParams'', IVIDDEC3_Params),
     (''ErrorConcealmentON'', CI32),
     ('''', CUnion [
       (''frameLayerDataPresentFlag'', CI32),
       (''FrameLayerDataPresentFlag'', CI32)]),
     (''reserved'', CArr 2 CI32)]"

lemma IVC1VDEC_Params_layout [layout]:
  "csize IVC1VDEC_Params = 88" "psize IVC1VDEC_Params = 88" "calign IVC1VDEC_Params = 4" "wf_ctype IVC1VDEC_Params"
  by (simp_all add: IVC1VDEC_Params_def align_up_def layout)

definition IVC1VDEC_DynamicParams :: ctype where
  "IVC1VDEC_DynamicParams = CStruct [
     (''viddecDynamicParams'', IVIDDEC3_DynamicParams)]"

lemma IVC1VDEC_DynamicParams_layout [layout]:
  "csize IVC1VDEC_DynamicParams = 48" "psize IVC1VDEC_DynamicParams = 48" "calign IVC1VDEC_DynamicParams = 4" "wf_ctype IVC1VDEC_DynamicParams"
  by (simp_all add: IVC1VDEC_DynamicParams_def align_up_def layout)

definition IVC1VDEC_InArgs :: ctype where
  "IVC1VDEC_InArgs = CStruct [
     (''viddecInArgs'', IVIDDEC3_InArgs)]"

lemma IVC1VDEC_InArgs_layout [layout]:
  "csize IVC1VDEC_InArgs = 12" "psize IVC1VDEC_InArgs = 12" "calign IVC1VDEC_InArgs = 4" "wf_ctype IVC1VDEC_InArgs"
  by (simp_all add: IVC1VDEC_InArgs_def align_up_def layout)

definition IVC1VDEC_OutArgs :: ctype where
  "IVC1VDEC_OutArgs = CStruct [
     (''viddecOutArgs'', IVIDDEC3_OutArgs)]"

lemma IVC1VDEC_OutArgs_layout [layout]:
  "csize IVC1VDEC_OutArgs = 684" "psize IVC1VDEC_OutArgs = 684" "calign IVC1VDEC_OutArgs = 4" "wf_ctype IVC1VDEC_OutArgs"
  by (simp_all add: IVC1VDEC_OutArgs_def align_up_def layout)

subsection \<open>\<^verbatim>\<open>vp6dec/ivp6vdec.h\<close>\<close>

definition Ivp6VDEC_Status :: ctype where
  "Ivp6VDEC_Status = CStruct [
     (''viddecStatus'', IVIDDEC3_Status),
     (''extendedErrorCode0'', CI32),
     (''extendedErrorCode1'', CI32),
     (''extendedErrorCode2'', CI32),
     (''extendedErrorCode3'', CI32),
     (''reserved'', CArr 4 CI32)]"

lemma Ivp6VDEC_Status_layout [layout]:
  "csize Ivp6VDEC_Status = 580" "psize Ivp6VDEC_Status = 580" "calign Ivp6VDEC_Status = 4" "wf_ctype Ivp6VDEC_Status"
  by (simp_all add: Ivp6VDEC_Status_def align_up_def layout)

definition Ivp6VDEC_Params :: ctype where
  "Ivp6VDEC_Params = CStruct [
     (''viddecParams'', IVIDDEC3_Params),
     (''ivfFormat'', CI32),
     (''reserved'', CArr 2 CI32),
     (''payloadHeaderPresent'', CI32)]"

lemma Ivp6VDEC_Params_layout [layout]:
  "csize Ivp6VDEC_Params = 88" "psize Ivp6VDEC_Params = 88" "calign Ivp6VDEC_Params = 4" "wf_ctype Ivp6VDEC_Params"
  by (simp_all add: Ivp6VDEC_Params_def align_up_def layout)

definition Ivp6VDEC_DynamicParams :: ctype where
  "Ivp6VDEC_DynamicParams = CStruct [
     (''viddecDynamicParams'', IVIDDEC3_DynamicParams)]"

lemma Ivp6VDEC_DynamicParams_layout [layout]:
  "csize Ivp6VDEC_DynamicParams = 48" "psize Ivp6VDEC_DynamicParams = 48" "calign Ivp6VDEC_DynamicParams = 4" "wf_ctype Ivp6VDEC_DynamicParams"
  by (simp_all add: Ivp6VDEC_DynamicParams_def align_up_def layout)

definition Ivp6VDEC_InArgs :: ctype where
  "Ivp6VDEC_InArgs = CStruct [
     (''viddecInArgs'', IVIDDEC3_InArgs)]"

lemma Ivp6VDEC_InArgs_layout [layout]:
  "csize Ivp6VDEC_InArgs = 12" "psize Ivp6VDEC_InArgs = 12" "calign Ivp6VDEC_InArgs = 4" "wf_ctype Ivp6VDEC_InArgs"
  by (simp_all add: Ivp6VDEC_InArgs_def align_up_def layout)

definition Ivp6VDEC_OutArgs :: ctype where
  "Ivp6VDEC_OutArgs = CStruct [
     (''viddecOutArgs'', IVIDDEC3_OutArgs)]"

lemma Ivp6VDEC_OutArgs_layout [layout]:
  "csize Ivp6VDEC_OutArgs = 684" "psize Ivp6VDEC_OutArgs = 684" "calign Ivp6VDEC_OutArgs = 4" "wf_ctype Ivp6VDEC_OutArgs"
  by (simp_all add: Ivp6VDEC_OutArgs_def align_up_def layout)

subsection \<open>\<^verbatim>\<open>vp7dec/ivp7vdec.h\<close>\<close>

definition Ivp7VDEC_Status :: ctype where
  "Ivp7VDEC_Status = CStruct [
     (''viddecStatus'', IVIDDEC3_Status),
     (''extendedErrorCode0'', CI32),
     (''extendedErrorCode1'', CI32),
     (''extendedErrorCode2'', CI32),
     (''extendedErrorCode3'', CI32),
     (''reserved'', CArr 4 CI32)]"

lemma Ivp7VDEC_Status_layout [layout]:
  "csize Ivp7VDEC_Status = 580" "psize Ivp7VDEC_Status = 580" "calign Ivp7VDEC_Status = 4" "wf_ctype Ivp7VDEC_Status"
  by (simp_all add: Ivp7VDEC_Status_def align_up_def layout)

definition Ivp7VDEC_Params :: ctype where
  "Ivp7VDEC_Params = CStruct [
     (''viddecParams'', IVIDDEC3_Params),
     (''ivfFormat'', CI32),
     (''reserved'', CArr 2 CI32),
     (''payloadHeaderPresent'', CI32)]"

lemma Ivp7VDEC_Params_layout [layout]:
  "csize Ivp7VDEC_Params = 88" "psize Ivp7VDEC_Params = 88" "calign Ivp7VDEC_Params = 4" "wf_ctype Ivp7VDEC_Params"
  by (simp_all add: Ivp7VDEC_Params_def align_up_def layout)

definition Ivp7VDEC_DynamicParams :: ctype where
  "Ivp7VDEC_DynamicParams = CStruct [
     (''viddecDynamicParams'', IVIDDEC3_DynamicParams)]"

lemma Ivp7VDEC_DynamicParams_layout [layout]:
  "csize Ivp7VDEC_DynamicParams = 48" "psize Ivp7VDEC_DynamicParams = 48" "calign Ivp7VDEC_DynamicParams = 4" "wf_ctype Ivp7VDEC_DynamicParams"
  by (simp_all add: Ivp7VDEC_DynamicParams_def align_up_def layout)

definition Ivp7VDEC_InArgs :: ctype where
  "Ivp7VDEC_InArgs = CStruct [
     (''viddecInArgs'', IVIDDEC3_InArgs)]"

lemma Ivp7VDEC_InArgs_layout [layout]:
  "csize Ivp7VDEC_InArgs = 12" "psize Ivp7VDEC_InArgs = 12" "calign Ivp7VDEC_InArgs = 4" "wf_ctype Ivp7VDEC_InArgs"
  by (simp_all add: Ivp7VDEC_InArgs_def align_up_def layout)

definition Ivp7VDEC_OutArgs :: ctype where
  "Ivp7VDEC_OutArgs = CStruct [
     (''viddecOutArgs'', IVIDDEC3_OutArgs)]"

lemma Ivp7VDEC_OutArgs_layout [layout]:
  "csize Ivp7VDEC_OutArgs = 684" "psize Ivp7VDEC_OutArgs = 684" "calign Ivp7VDEC_OutArgs = 4" "wf_ctype Ivp7VDEC_OutArgs"
  by (simp_all add: Ivp7VDEC_OutArgs_def align_up_def layout)

subsection \<open>The extended structures and their bases\<close>

definition codec_extensions :: "(ctype \<times> ctype) list" where
  "codec_extensions = [
     (IVIDDEC3_Status, IH264VDEC_Status),
     (IVIDDEC3_Params, IH264VDEC_Params),
     (IVIDDEC3_DynamicParams, IH264VDEC_DynamicParams),
     (IVIDDEC3_InArgs, IH264VDEC_InArgs),
     (IVIDDEC3_OutArgs, IH264VDEC_OutArgs),
     (IVIDDEC3_Status, IMPEG2VDEC_Status),
     (IVIDDEC3_Params, IMPEG2VDEC_Params),
     (IVIDDEC3_DynamicParams, IMPEG2VDEC_DynamicParams),
     (IVIDDEC3_InArgs, IMPEG2VDEC_InArgs),
     (IVIDDEC3_OutArgs, IMPEG2VDEC_OutArgs),
     (IVIDDEC3_Status, IMPEG4VDEC_Status),
     (IVIDDEC3_Params, IMPEG4VDEC_Params),
     (IVIDDEC3_DynamicParams, IMPEG4VDEC_DynamicParams),
     (IVIDDEC3_InArgs, IMPEG4VDEC_InArgs),
     (IVIDDEC3_OutArgs, IMPEG4VDEC_OutArgs),
     (IVIDDEC3_Status, IrealVDEC_Status),
     (IVIDDEC3_Params, IrealVDEC_Params),
     (IVIDDEC3_DynamicParams, IrealVDEC_DynamicParams),
     (IVIDDEC3_InArgs, IrealVDEC_InArgs),
     (IVIDDEC3_OutArgs, IrealVDEC_OutArgs),
     (IVIDDEC3_Status, IVC1VDEC_Status),
     (IVIDDEC3_Params, IVC1VDEC_Params),
     (IVIDDEC3_DynamicParams, IVC1VDEC_DynamicParams),
     (IVIDDEC3_InArgs, IVC1VDEC_InArgs),
     (IVIDDEC3_OutArgs, IVC1VDEC_OutArgs),
     (IVIDDEC3_Status, Ivp6VDEC_Status),
     (IVIDDEC3_Params, Ivp6VDEC_Params),
     (IVIDDEC3_DynamicParams, Ivp6VDEC_DynamicParams),
     (IVIDDEC3_InArgs, Ivp6VDEC_InArgs),
     (IVIDDEC3_OutArgs, Ivp6VDEC_OutArgs),
     (IVIDDEC3_Status, Ivp7VDEC_Status),
     (IVIDDEC3_Params, Ivp7VDEC_Params),
     (IVIDDEC3_DynamicParams, Ivp7VDEC_DynamicParams),
     (IVIDDEC3_InArgs, Ivp7VDEC_InArgs),
     (IVIDDEC3_OutArgs, Ivp7VDEC_OutArgs)]"

end
