(* ===== verification/Engine_Types.thy ===== *)
theory Engine_Types
  imports C_Layout
begin

text \<open>
  What the client API uses of the Codec Engine headers
  (\<^verbatim>\<open>packages/codec_engine/ti/sdo/ce/Engine.h\<close>, \<^verbatim>\<open>Server.h\<close>): error codes, engine attributes and the
  memory statistics that the two headers declare separately.
\<close>

definition Engine_EOK :: int where [simp]: "Engine_EOK = 0"

definition Engine_EEXIST :: int where [simp]: "Engine_EEXIST = 1"

definition Engine_ENOMEM :: int where [simp]: "Engine_ENOMEM = 2"

definition Engine_EDSPLOAD :: int where [simp]: "Engine_EDSPLOAD = 3"

definition Engine_ENOCOMM :: int where [simp]: "Engine_ENOCOMM = 4"

definition Engine_ENOSERVER :: int where [simp]: "Engine_ENOSERVER = 5"

definition Engine_ECOMALLOC :: int where [simp]: "Engine_ECOMALLOC = 6"

definition Engine_ERUNTIME :: int where [simp]: "Engine_ERUNTIME = 7"

definition Engine_ECODECCREATE :: int where [simp]: "Engine_ECODECCREATE = 8"

definition Engine_ECODECSTART :: int where [simp]: "Engine_ECODECSTART = 9"

definition Engine_EINVAL :: int where [simp]: "Engine_EINVAL = 10"

definition Engine_EBADSERVER :: int where [simp]: "Engine_EBADSERVER = 11"

definition Engine_ENOTAVAIL :: int where [simp]: "Engine_ENOTAVAIL = 12"

definition Engine_EWRONGSTATE :: int where [simp]: "Engine_EWRONGSTATE = 13"

definition Engine_EINUSE :: int where [simp]: "Engine_EINUSE = 14"

definition Engine_ENOTFOUND :: int where [simp]: "Engine_ENOTFOUND = 15"

definition Engine_ETIMEOUT :: int where [simp]: "Engine_ETIMEOUT = 16"

definition Engine_Attrs :: ctype where
  "Engine_Attrs = CStruct [
     (''procId'', CPtr)]"

lemma Engine_Attrs_layout [layout]:
  "csize Engine_Attrs = 4" "psize Engine_Attrs = 4" "calign Engine_Attrs = 4" "wf_ctype Engine_Attrs"
  by (simp_all add: Engine_Attrs_def align_up_def layout)

definition Engine_AlgInfo :: ctype where
  "Engine_AlgInfo = CStruct [
     (''algInfoSize'', CI32),
     (''name'', CPtr),
     (''typeTab'', CPtr),
     (''isLocal'', CI16)]"

lemma Engine_AlgInfo_layout [layout]:
  "csize Engine_AlgInfo = 16" "psize Engine_AlgInfo = 14" "calign Engine_AlgInfo = 4" "wf_ctype Engine_AlgInfo"
  by (simp_all add: Engine_AlgInfo_def align_up_def layout)

definition Engine_MAXSEGNAMELENGTH :: nat where [simp]: "Engine_MAXSEGNAMELENGTH = 32"

definition Engine_MemStat :: ctype where
  "Engine_MemStat = CStruct [
     (''name'', CArr (Engine_MAXSEGNAMELENGTH + 1) CI8),
     (''base'', CI32),
     (''size'', CI32),
     (''used'', CI32),
     (''maxBlockLen'', CI32)]"

lemma Engine_MemStat_layout [layout]:
  "csize Engine_MemStat = 52" "psize Engine_MemStat = 49" "calign Engine_MemStat = 4" "wf_ctype Engine_MemStat"
  by (simp_all add: Engine_MemStat_def align_up_def layout)

definition Server_MAXSEGNAMELENGTH :: nat where [simp]: "Server_MAXSEGNAMELENGTH = 32"

datatype Server_Status =
    Server_EOK
  | Server_ENOSERVER
  | Server_ENOMEM
  | Server_ERUNTIME
  | Server_EINVAL
  | Server_EWRONGSTATE
  | Server_EINUSE
  | Server_ENOTFOUND
  | Server_EFAIL

fun Server_Status_val :: "Server_Status \<Rightarrow> int" where
  "Server_Status_val Server_EOK = 0"
| "Server_Status_val Server_ENOSERVER = 1"
| "Server_Status_val Server_ENOMEM = 2"
| "Server_Status_val Server_ERUNTIME = 3"
| "Server_Status_val Server_EINVAL = 4"
| "Server_Status_val Server_EWRONGSTATE = 5"
| "Server_Status_val Server_EINUSE = 6"
| "Server_Status_val Server_ENOTFOUND = 7"
| "Server_Status_val Server_EFAIL = 8"

definition Server_MemStat :: ctype where
  "Server_MemStat = CStruct [
     (''name'', CArr (Server_MAXSEGNAMELENGTH + 1) CI8),
     (''base'', CI32),
     (''size'', CI32),
     (''used'', CI32),
     (''maxBlockLen'', CI32)]"

lemma Server_MemStat_layout [layout]:
  "csize Server_MemStat = 52" "psize Server_MemStat = 49" "calign Server_MemStat = 4" "wf_ctype Server_MemStat"
  by (simp_all add: Server_MemStat_def align_up_def layout)

end
