(* ===== verification/Header_Props.thy ===== *)
theory Header_Props
  imports Codec_Types Engine_Types
begin

text \<open>
  What the declarations of the interface headers give the code that uses them: the
  codec-specific structures can be passed where the generic \<open>IVIDDEC3\<close> ones are expected, and
  the bit macros of \<^verbatim>\<open>xdm.h\<close> work on the sets of bits the enumerations name.
\<close>

subsection \<open>The codec-specific structures extend the generic ones\<close>

lemma extends_locate:
  assumes "extends base ext"
  shows "\<exists>f. \<forall>p. locate ext (f # p) = locate base p"
proof -
  from assms obtain f fs where "ext = CStruct ((f, base) # fs)"
    by (auto simp: extends_def split: ctype.splits list.splits prod.splits)
  then show ?thesis using locate_extends [of base f fs] by auto
qed

lemmas codec_structures =
  IH264VDEC_Status_def IH264VDEC_Params_def IH264VDEC_DynamicParams_def IH264VDEC_InArgs_def
  IH264VDEC_OutArgs_def IMPEG2VDEC_Status_def IMPEG2VDEC_Params_def IMPEG2VDEC_DynamicParams_def
  IMPEG2VDEC_InArgs_def IMPEG2VDEC_OutArgs_def IMPEG4VDEC_Status_def IMPEG4VDEC_Params_def
  IMPEG4VDEC_DynamicParams_def IMPEG4VDEC_InArgs_def IMPEG4VDEC_OutArgs_def IrealVDEC_Status_def
  IrealVDEC_Params_def IrealVDEC_DynamicParams_def IrealVDEC_InArgs_def IrealVDEC_OutArgs_def
  IVC1VDEC_Status_def IVC1VDEC_Params_def IVC1VDEC_DynamicParams_def IVC1VDEC_InArgs_def
  IVC1VDEC_OutArgs_def Ivp6VDEC_Status_def Ivp6VDEC_Params_def Ivp6VDEC_DynamicParams_def
  Ivp6VDEC_InArgs_def Ivp6VDEC_OutArgs_def Ivp7VDEC_Status_def Ivp7VDEC_Params_def
  Ivp7VDEC_DynamicParams_def Ivp7VDEC_InArgs_def Ivp7VDEC_OutArgs_def

lemma extends_first [simp]: "extends base (CStruct ((f, base) # fs))"
  by (simp add: extends_def)

lemma codec_extensions_extend: "list_all (\<lambda>(base, ext). extends base ext) codec_extensions"
  unfolding codec_extensions_def codec_structures by simp

lemma codec_extensions_sizes:
  "list_all (\<lambda>(base, ext). no_padding ext \<and> csize base \<le> csize ext) codec_extensions"
  unfolding codec_extensions_def no_padding_def by (simp add: layout)

text \<open>
  C38: each of the 35 structures that the seven codec headers define for an \<open>IVIDDEC3\<close> structure
  has a member (its first) through which every member of the generic structure is found at the
  offset and with the type it has there; it has no padding and is no smaller. The client's code
  that fills a structure through a pointer to the generic type and the codec that reads its own
  type agree on every byte.
\<close>

theorem codec_structures_extend_generic:
  "list_all (\<lambda>(base, ext). (\<exists>f. \<forall>p. locate ext (f # p) = locate base p) \<and> no_padding ext \<and>
     csize base \<le> csize ext) codec_extensions"
proof -
  have "list_all (\<lambda>(base, ext). \<exists>f. \<forall>p. locate ext (f # p) = locate base p) codec_extensions"
    using codec_extensions_extend by (rule list.pred_mono_strong) (auto simp: extends_locate simp del: locate.simps)
  with codec_extensions_sizes show ?thesis by (auto simp: list_all_iff)
qed

subsection \<open>The bit macros\<close>

text \<open>The macros that test, set and clear a bit, with the enumeration constant each is for.\<close>

definition test_macros :: "((u32 \<Rightarrow> u32) \<times> int) list" where
  "test_macros = [
     (XDM_ISACCESSMODE_READ, XDM_AccessMode_val XDM_ACCESSMODE_READ),
     (XDM_ISACCESSMODE_WRITE, XDM_AccessMode_val XDM_ACCESSMODE_WRITE),
     (XDM_ISAPPLIEDCONCEALMENT, XDM_ErrorBit_val XDM_APPLIEDCONCEALMENT),
     (XDM_ISINSUFFICIENTDATA, XDM_ErrorBit_val XDM_INSUFFICIENTDATA),
     (XDM_ISCORRUPTEDDATA, XDM_ErrorBit_val XDM_CORRUPTEDDATA),
     (XDM_ISCORRUPTEDHEADER, XDM_ErrorBit_val XDM_CORRUPTEDHEADER),
     (XDM_ISUNSUPPORTEDINPUT, XDM_ErrorBit_val XDM_UNSUPPORTEDINPUT),
     (XDM_ISUNSUPPORTEDPARAM, XDM_ErrorBit_val XDM_UNSUPPORTEDPARAM),
     (XDM_ISFATALERROR, XDM_ErrorBit_val XDM_FATALERROR)]"

definition set_macros :: "((u32 \<Rightarrow> u32) \<times> int) list" where
  "set_macros = [
     (XDM_SETACCESSMODE_READ, XDM_AccessMode_val XDM_ACCESSMODE_READ),
     (XDM_SETACCESSMODE_WRITE, XDM_AccessMode_val XDM_ACCESSMODE_WRITE),
     (XDM_SETAPPLIEDCONCEALMENT, XDM_ErrorBit_val XDM_APPLIEDCONCEALMENT),
     (XDM_SETINSUFFICIENTDATA, XDM_ErrorBit_val XDM_INSUFFICIENTDATA),
     (XDM_SETCORRUPTEDDATA, XDM_ErrorBit_val XDM_CORRUPTEDDATA),
     (XDM_SETCORRUPTEDHEADER, XDM_ErrorBit_val XDM_CORRUPTEDHEADER),
     (XDM_SETUNSUPPORTEDINPUT, XDM_ErrorBit_val XDM_UNSUPPORTEDINPUT),
     (XDM_SETUNSUPPORTEDPARAM, XDM_ErrorBit_val XDM_UNSUPPORTEDPARAM),
     (XDM_SETFATALERROR, XDM_ErrorBit_val XDM_FATALERROR)]"

definition clear_macros :: "((u32 \<Rightarrow> u32) \<times> int) list" where
  "clear_macros = [
     (XDM_CLEARACCESSMODE_READ, XDM_AccessMode_val XDM_ACCESSMODE_READ),
     (XDM_CLEARACCESSMODE_WRITE, XDM_AccessMode_val XDM_ACCESSMODE_WRITE)]"

definition set_macro_ok :: "(u32 \<Rightarrow> u32) \<times> int \<Rightarrow> bool" where
  "set_macro_ok = (\<lambda>(f, n). \<forall>x. xdm_bits (f x) = insert (nat n) (xdm_bits x))"

definition clear_macro_ok :: "(u32 \<Rightarrow> u32) \<times> int \<Rightarrow> bool" where
  "clear_macro_ok = (\<lambda>(f, n). \<forall>x. xdm_bits (f x) = xdm_bits x - {nat n})"

definition test_macro_ok :: "(u32 \<Rightarrow> u32) \<times> int \<Rightarrow> bool" where
  "test_macro_ok = (\<lambda>(f, n). \<forall>x. f x = (if nat n \<in> xdm_bits x then 1 else 0))"

text \<open>
  Every test macro of \<^verbatim>\<open>xdm.h\<close> answers 1 or 0 as the bit it is named after is set or not,
  every set macro adds exactly that bit, every clear macro removes exactly that bit, and the
  enumeration constants they use are pairwise different: no macro touches the bit of another.
\<close>

lemma xdm_macros_on_bit_sets:
  "list_all test_macro_ok test_macros \<and> list_all set_macro_ok set_macros \<and>
   list_all clear_macro_ok clear_macros \<and>
   distinct (map XDM_AccessMode_val [XDM_ACCESSMODE_READ, XDM_ACCESSMODE_WRITE]) \<and>
   distinct (map snd (drop 2 set_macros)) \<and> map snd test_macros = map snd set_macros"
proof (intro conjI)
  show "list_all test_macro_ok test_macros"
    by (simp add: test_macros_def test_macro_ok_def xdm_macros xdm_is_bit)
  show "list_all set_macro_ok set_macros"
    by (simp add: set_macros_def set_macro_ok_def xdm_macros xdm_bits_set)
  show "list_all clear_macro_ok clear_macros"
    by (simp add: clear_macros_def clear_macro_ok_def xdm_macros xdm_bits_clear)
qed (simp_all add: set_macros_def test_macros_def)

subsection \<open>Engine and server views\<close>

text \<open>
  The memory statistics of the \<open>Engine\<close> and of the \<open>Server\<close> interface have the same members
  at the same offsets with the same types, so that one can be read as the other.
\<close>

lemma engine_and_server_memstat_agree: "locate Engine_MemStat p = locate Server_MemStat p"
  by (simp add: Engine_MemStat_def Server_MemStat_def)

end
