(* ===== verification/Ce_Types.thy ===== *)
theory Ce_Types
  imports Engine_Types Ividdec3_Types
begin

text \<open>
  The message and descriptor types of the Codec Engine headers that the interface of the client
  includes (\<^verbatim>\<open>ipc/Comm.h\<close>, \<^verbatim>\<open>node/node.h\<close>, \<^verbatim>\<open>visa.h\<close>, \<^verbatim>\<open>skel.h\<close>, \<^verbatim>\<open>Engine.h\<close>,
  \<^verbatim>\<open>video3/viddec3.h\<close>): constants, structures and the two functions that the headers define in
  line. A message header has two forms, chosen by \<open>MESSAGEQ_ENABLED\<close>: the model takes the choice
  as an argument. \<open>Bool\<close> is 16 bits wide, \<open>Int\<close>, \<open>UArg\<close> and pointers 32.
\<close>

subsection \<open>Comm\<close>

datatype Comm_QType =
    Comm_PEND
  | Comm_CALL

fun Comm_QType_val :: "Comm_QType \<Rightarrow> int" where
  "Comm_QType_val Comm_PEND = 0"
| "Comm_QType_val Comm_CALL = 1"

definition Comm_Attrs :: ctype where
  "Comm_Attrs = CStruct [
     (''type'', CI32),
     (''callHandle'', CPtr),
     (''callFxn'', CPtr)]"

lemma Comm_Attrs_layout [layout]:
  "csize Comm_Attrs = 12" "psize Comm_Attrs = 12" "calign Comm_Attrs = 4" "wf_ctype Comm_Attrs"
  by (simp_all add: Comm_Attrs_def align_up_def layout)

definition Comm_MsgHeader :: "bool \<Rightarrow> ctype" where
  "Comm_MsgHeader messageq = CStruct (
     if messageq then [
       (''reserved'', CArr 2 CI32),
       (''size'', CI32),
       (''reserved1'', CI16),
       (''msgId'', CI16),
       (''reserved3'', CI16),
       (''reserved4'', CI16),
       (''reserved5'', CI16),
       (''reserved6'', CI16),
       (''reserved7'', CI16),
       (''reserved8'', CI16),
       (''reserved9'', CI32)]
     else [
       (''reserved'', CArr 2 CI32),
       (''reserved1'', CI16),
       (''reserved2'', CI16),
       (''size'', CI16),
       (''reserved3'', CI32),
       (''reserved4'', CI32),
       (''msgId'', CI16)])"

lemma Comm_MsgHeader_layout [layout]:
  "csize (Comm_MsgHeader messageq) = (if messageq then 32 else 28)"
  "calign (Comm_MsgHeader messageq) = 4" "wf_ctype (Comm_MsgHeader messageq)"
  by (simp_all add: Comm_MsgHeader_def align_up_def)

definition Comm_INVALIDMSGQ :: u32 where [simp]: "Comm_INVALIDMSGQ = 0xFFFF"

definition Comm_INVALIDHANDLE :: u32 where [simp]: "Comm_INVALIDHANDLE = 0"

definition Comm_EOK :: int where [simp]: "Comm_EOK = 0"

definition Comm_EFAIL :: int where [simp]: "Comm_EFAIL = 1"

definition Comm_ETIMEOUT :: int where [simp]: "Comm_ETIMEOUT = 2"

definition Comm_FOREVER :: u32 where [simp]: "Comm_FOREVER = - 1"

definition Comm_POLL :: u32 where [simp]: "Comm_POLL = 0"

subsection \<open>Nodes\<close>

definition NODE_FOREVER :: u32 where [simp]: "NODE_FOREVER = - 1"

definition NODE_TOGPP :: int where [simp]: "NODE_TOGPP = 0"

definition NODE_Config :: ctype where
  "NODE_Config = CStruct [
     (''OBJSEG'', CI32),
     (''MSGQPOOLID'', CI32),
     (''FIXEDMSGSIZE'', CI32)]"

lemma NODE_Config_layout [layout]:
  "csize NODE_Config = 12" "psize NODE_Config = 12" "calign NODE_Config = 4" "wf_ctype NODE_Config"
  by (simp_all add: NODE_Config_def align_up_def layout)

definition NODE_Cmd :: ctype where
  "NODE_Cmd = CStruct [
     (''id'', CI32),
     (''arg1'', CI32),
     (''arg2'', CI32)]"

lemma NODE_Cmd_layout [layout]:
  "csize NODE_Cmd = 12" "psize NODE_Cmd = 12" "calign NODE_Cmd = 4" "wf_ctype NODE_Cmd"
  by (simp_all add: NODE_Cmd_def align_up_def layout)

definition NODE_CCALL :: int where [simp]: "NODE_CCALL = 0"

definition NODE_CEXIT :: int where [simp]: "NODE_CEXIT = 1"

definition NODE_MsgHeader :: "bool \<Rightarrow> ctype" where
  "NODE_MsgHeader messageq = CStruct [
     (''header'', Comm_MsgHeader messageq),
     (''cmd'', NODE_Cmd)]"

lemma NODE_MsgHeader_layout [layout]:
  "csize (NODE_MsgHeader messageq) = (if messageq then 44 else 40)"
  "calign (NODE_MsgHeader messageq) = 4" "wf_ctype (NODE_MsgHeader messageq)"
  by (simp_all add: NODE_MsgHeader_def align_up_def layout)

definition NODE_EOK :: int where [simp]: "NODE_EOK = 0"

definition NODE_EOUTOFMEMORY :: int where [simp]: "NODE_EOUTOFMEMORY = 1"

definition NODE_ERESOURCE :: int where [simp]: "NODE_ERESOURCE = 2"

definition NODE_ETASK :: int where [simp]: "NODE_ETASK = 3"

definition NODE_EFAIL :: int where [simp]: "NODE_EFAIL = 4"

definition NODE_Uuid :: ctype where
  "NODE_Uuid = CStruct [
     (''data'', CI32)]"

lemma NODE_Uuid_layout [layout]:
  "csize NODE_Uuid = 4" "psize NODE_Uuid = 4" "calign NODE_Uuid = 4" "wf_ctype NODE_Uuid"
  by (simp_all add: NODE_Uuid_def align_up_def layout)

text \<open>\<open>NODE_uuidMatch\<close> on two uuids in memory.\<close>

definition NODE_uuidMatch :: "mem \<Rightarrow> u32 \<Rightarrow> u32 \<Rightarrow> bool option" where
  "NODE_uuidMatch m uuid1 uuid2 = do {
     a \<leftarrow> load32 m uuid1;
     b \<leftarrow> load32 m uuid2;
     Some (a = b) }"

subsection \<open>VISA and skeletons\<close>

definition VISA_EOK :: int where [simp]: "VISA_EOK = 0"

definition VISA_ERUNTIME :: int where [simp]: "VISA_ERUNTIME = - 1"

definition VISA_EFAIL :: int where [simp]: "VISA_EFAIL = - 2"

definition VISA_ETIMEOUT :: int where [simp]: "VISA_ETIMEOUT = - 100"

abbreviation Engine_FOREVER :: u32 where "Engine_FOREVER \<equiv> Comm_FOREVER"

abbreviation VISA_FOREVER :: u32 where "VISA_FOREVER \<equiv> Engine_FOREVER"

definition VISA_MsgHeader :: "bool \<Rightarrow> ctype" where
  "VISA_MsgHeader messageq = CStruct [
     (''header'', NODE_MsgHeader messageq),
     (''cmd'', CI32),
     (''status'', CI32)]"

lemma VISA_MsgHeader_layout [layout]:
  "csize (VISA_MsgHeader messageq) = (if messageq then 52 else 48)"
  "calign (VISA_MsgHeader messageq) = 4" "wf_ctype (VISA_MsgHeader messageq)"
  by (simp_all add: VISA_MsgHeader_def align_up_def layout)

definition SKEL_Fxns :: ctype where
  "SKEL_Fxns = CStruct [
     (''call'', CPtr),
     (''apiCreate'', CPtr),
     (''apiDestroy'', CPtr)]"

lemma SKEL_Fxns_layout [layout]:
  "csize SKEL_Fxns = 12" "psize SKEL_Fxns = 12" "calign SKEL_Fxns = 4" "wf_ctype SKEL_Fxns"
  by (simp_all add: SKEL_Fxns_def align_up_def layout)

subsection \<open>Descriptors of engines and algorithms\<close>

definition Engine_CEXIT :: int where [simp]: "Engine_CEXIT = 0"

definition Engine_AlgDesc :: ctype where
  "Engine_AlgDesc = CStruct [
     (''name'', CPtr),
     (''uuid'', NODE_Uuid),
     (''fxns'', CPtr),
     (''idmaFxns'', CPtr),
     (''typeTab'', CPtr),
     (''isLocal'', CI16),
     (''groupId'', CI32),
     (''rpcProtocolVersion'', CI32),
     (''iresFxns'', CPtr),
     (''codecClassConfig'', CPtr)]"

lemma Engine_AlgDesc_layout [layout]:
  "csize Engine_AlgDesc = 40" "psize Engine_AlgDesc = 38" "calign Engine_AlgDesc = 4" "wf_ctype Engine_AlgDesc"
  by (simp_all add: Engine_AlgDesc_def align_up_def layout)

definition Engine_DllAlgDesc :: ctype where
  "Engine_DllAlgDesc = CStruct [
     (''uuid'', NODE_Uuid),
     (''fxns'', CPtr),
     (''idmaFxns'', CPtr),
     (''typeTab'', CPtr),
     (''iresFxns'', CPtr),
     (''codecClassConfig'', CPtr)]"

lemma Engine_DllAlgDesc_layout [layout]:
  "csize Engine_DllAlgDesc = 24" "psize Engine_DllAlgDesc = 24" "calign Engine_DllAlgDesc = 4" "wf_ctype Engine_DllAlgDesc"
  by (simp_all add: Engine_DllAlgDesc_def align_up_def layout)

definition Engine_DllAlgParams :: ctype where
  "Engine_DllAlgParams = CStruct [
     (''name'', CPtr),
     (''isLocal'', CI16),
     (''groupId'', CI32)]"

lemma Engine_DllAlgParams_layout [layout]:
  "csize Engine_DllAlgParams = 12" "psize Engine_DllAlgParams = 10" "calign Engine_DllAlgParams = 4" "wf_ctype Engine_DllAlgParams"
  by (simp_all add: Engine_DllAlgParams_def align_up_def layout)

definition Engine_AlgCreateAttrs :: ctype where
  "Engine_AlgCreateAttrs = CStruct [
     (''useExtHeap'', CI16),
     (''priority'', CI32)]"

lemma Engine_AlgCreateAttrs_layout [layout]:
  "csize Engine_AlgCreateAttrs = 8" "psize Engine_AlgCreateAttrs = 6" "calign Engine_AlgCreateAttrs = 4" "wf_ctype Engine_AlgCreateAttrs"
  by (simp_all add: Engine_AlgCreateAttrs_def align_up_def layout)

definition Engine_Desc :: ctype where
  "Engine_Desc = CStruct [
     (''name'', CPtr),
     (''algTab'', CPtr),
     (''remoteName'', CPtr),
     (''linkCfg'', CPtr),
     (''numAlgs'', CI32),
     (''heapId'', CI32)]"

lemma Engine_Desc_layout [layout]:
  "csize Engine_Desc = 24" "psize Engine_Desc = 24" "calign Engine_Desc = 4" "wf_ctype Engine_Desc"
  by (simp_all add: Engine_Desc_def align_up_def layout)

definition Engine_Config :: ctype where
  "Engine_Config = CStruct [
     (''engineTab'', CPtr),
     (''localEngine'', CPtr)]"

lemma Engine_Config_layout [layout]:
  "csize Engine_Config = 8" "psize Engine_Config = 8" "calign Engine_Config = 4" "wf_ctype Engine_Config"
  by (simp_all add: Engine_Config_def align_up_def layout)

definition IVIDDEC3_CodecClassConfig :: ctype where
  "IVIDDEC3_CodecClassConfig = CStruct [
     (''manageInBufsCache'', CArr XDM_MAX_IO_BUFFERS CI16),
     (''manageOutBufsCache'', CArr XDM_MAX_IO_BUFFERS CI16)]"

lemma IVIDDEC3_CodecClassConfig_layout [layout]:
  "csize IVIDDEC3_CodecClassConfig = 64" "psize IVIDDEC3_CodecClassConfig = 64" "calign IVIDDEC3_CodecClassConfig = 2" "wf_ctype IVIDDEC3_CodecClassConfig"
  by code_simp+

abbreviation VIDDEC3_ETIMEOUT :: int where "VIDDEC3_ETIMEOUT \<equiv> VISA_ETIMEOUT"

abbreviation VIDDEC3_FOREVER :: u32 where "VIDDEC3_FOREVER \<equiv> VISA_FOREVER"

subsection \<open>The names of the client interface\<close>

text \<open>
  \<^verbatim>\<open>viddec3.h\<close> gives the applications the IVIDDEC3 interface under names of its own; the handles of
  all layers are pointers to structures that only the libraries know.
\<close>

abbreviation Engine_Handle :: ctype where "Engine_Handle \<equiv> CPtr"

abbreviation Engine_Node :: ctype where "Engine_Node \<equiv> CPtr"

abbreviation Server_Handle :: ctype where "Server_Handle \<equiv> CPtr"

abbreviation Comm_Handle :: ctype where "Comm_Handle \<equiv> CPtr"

abbreviation Comm_Id :: ctype where "Comm_Id \<equiv> CI32"

abbreviation NODE_EnvPtr :: ctype where "NODE_EnvPtr \<equiv> CPtr"

abbreviation VISA_Handle :: ctype where "VISA_Handle \<equiv> CPtr"

abbreviation VISA_Status :: ctype where "VISA_Status \<equiv> CI32"

abbreviation NODE_Status :: ctype where "NODE_Status \<equiv> CI32"

abbreviation Engine_Error :: ctype where "Engine_Error \<equiv> CI32"

abbreviation Engine_Ctrl :: ctype where "Engine_Ctrl \<equiv> CI32"

abbreviation IALG_Handle :: ctype where "IALG_Handle \<equiv> CPtr"

abbreviation IALG_Cmd :: ctype where "IALG_Cmd \<equiv> CI32"

abbreviation IVIDDEC3_Handle :: ctype where "IVIDDEC3_Handle \<equiv> CPtr"

abbreviation IVIDDEC3_Cmd :: ctype where "IVIDDEC3_Cmd \<equiv> IALG_Cmd"

abbreviation XDM_DataSyncHandle :: ctype where "XDM_DataSyncHandle \<equiv> CPtr"

abbreviation VIDDEC3_EOK :: int where "VIDDEC3_EOK \<equiv> IVIDDEC3_EOK"

abbreviation VIDDEC3_EFAIL :: int where "VIDDEC3_EFAIL \<equiv> IVIDDEC3_EFAIL"

abbreviation VIDDEC3_EUNSUPPORTED :: int where "VIDDEC3_EUNSUPPORTED \<equiv> IVIDDEC3_EUNSUPPORTED"

abbreviation VIDDEC3_Handle :: ctype where "VIDDEC3_Handle \<equiv> VISA_Handle"

abbreviation VIDDEC3_Params :: ctype where "VIDDEC3_Params \<equiv> IVIDDEC3_Params"

abbreviation VIDDEC3_InArgs :: ctype where "VIDDEC3_InArgs \<equiv> IVIDDEC3_InArgs"

abbreviation VIDDEC3_OutArgs :: ctype where "VIDDEC3_OutArgs \<equiv> IVIDDEC3_OutArgs"

abbreviation VIDDEC3_Cmd :: ctype where "VIDDEC3_Cmd \<equiv> IVIDDEC3_Cmd"

abbreviation VIDDEC3_DynamicParams :: ctype where "VIDDEC3_DynamicParams \<equiv> IVIDDEC3_DynamicParams"

abbreviation VIDDEC3_Status :: ctype where "VIDDEC3_Status \<equiv> IVIDDEC3_Status"

definition Engine_MODNAME :: string where "Engine_MODNAME = ''ti.sdo.ce.Engine''"

definition Engine_GTNAME :: string where "Engine_GTNAME = ''CE''"

definition Engine_GETALGDESCFXN :: string where "Engine_GETALGDESCFXN = ''GetEngineAlgDesc''"

text \<open>The value that the configuration generates for \<open>VISA_checked\<close> is an argument.\<close>

definition VISA_isChecked :: "16 word \<Rightarrow> 16 word" where "VISA_isChecked VISA_checked = VISA_checked"

definition VISA_MODNAME :: string where "VISA_MODNAME = ''ti.sdo.ce.VISA''"

definition Server_MODNAME :: string where "Server_MODNAME = ''ti.sdo.ce.Server''"

definition Comm_MODNAME :: string where "Comm_MODNAME = ''ti.sdo.ce.ipc.Comm''"

definition Comm_GTNAME :: string where "Comm_GTNAME = ''OC''"

subsection \<open>Messages\<close>

text \<open>
  In both configurations a message of a node and one of a VISA stub start with the transport
  header: each member of it is found through the first members at the offset and with the type it
  has in the transport, which therefore can handle the messages without knowing what they
  carry; command and status of the stub lie behind it.
\<close>

lemma message_headers_nest:
  "locate (NODE_MsgHeader q) (''header'' # p) = locate (Comm_MsgHeader q) p \<and>
   locate (VISA_MsgHeader q) (''header'' # ''header'' # p) = locate (Comm_MsgHeader q) p \<and>
   locate (VISA_MsgHeader q) [''cmd''] = Some (csize (NODE_MsgHeader q), CI32) \<and>
   locate (VISA_MsgHeader q) [''status''] = Some (csize (NODE_MsgHeader q) + 4, CI32) \<and>
   csize (Comm_MsgHeader q) < csize (NODE_MsgHeader q) \<and>
   csize (NODE_MsgHeader q) < csize (VISA_MsgHeader q)"
proof -
  have "locate (NODE_MsgHeader q) (''header'' # p) = locate (Comm_MsgHeader q) p" for p
    unfolding NODE_MsgHeader_def using locate_extends by blast
  moreover have "locate (VISA_MsgHeader q) (''header'' # r) = locate (NODE_MsgHeader q) r" for r
    unfolding VISA_MsgHeader_def using locate_extends by blast
  moreover have "locate (VISA_MsgHeader q) [''cmd''] = Some (csize (NODE_MsgHeader q), CI32)"
    "locate (VISA_MsgHeader q) [''status''] = Some (csize (NODE_MsgHeader q) + 4, CI32)"
    by (simp_all add: VISA_MsgHeader_def align_up_def layout)
  moreover have "csize (Comm_MsgHeader q) < csize (NODE_MsgHeader q)"
    "csize (NODE_MsgHeader q) < csize (VISA_MsgHeader q)" by (simp_all add: layout)
  ultimately show ?thesis by (simp only: simp_thms)
qed

end
