(* ===== verification/Client_Table.thy ===== *)
theory Client_Table
  imports Prelude
begin

text \<open>
  The server's table of client processes (\<^verbatim>\<open>dce.c\<close>, section "Tracking of memmgr's"): ten
  \<open>Client\<close> entries of ten engine and ten codec handles each, and the functions that record
  and drop the handles a client owns. A \<open>Client *\<close> is an index into the table, \<open>NULL\<close> is
  \<open>None\<close>; a zero handle is \<open>NULL\<close>, a zero \<open>pid\<close> an unused entry. The trace macros are left
  out. The lemmas show what each operation does to the entry of its own client and that it
  leaves the others alone; the accounting invariant relates \<open>refs\<close> to the recorded handles.
\<close>

record client =
  c_pid :: u32
  c_refs :: u32
  c_engines :: "u32 list"
  c_codecs :: "u32 list"

type_synonym table = "client list"

definition free_client :: client where
  "free_client = \<lparr>c_pid = 0, c_refs = 0, c_engines = replicate 10 0, c_codecs = replicate 10 0\<rparr>"

definition init_clients :: table where
  "init_clients = replicate 10 free_client"

definition get_client :: "table \<Rightarrow> u32 \<Rightarrow> nat option" where
  "get_client cl pid = find_index (\<lambda>c. c_pid c = pid) cl"

definition add_engine :: "u32 \<Rightarrow> client \<Rightarrow> client" where
  "add_engine engine c =
     c\<lparr>c_refs := c_refs c + 1, c_engines := set_first (\<lambda>e. e = 0) engine (c_engines c)\<rparr>"

definition new_client :: "u32 \<Rightarrow> u32 \<Rightarrow> client \<Rightarrow> client" where
  "new_client pid engine c =
     c\<lparr>c_pid := pid, c_refs := 1, c_engines := (c_engines c)[0 := engine]\<rparr>"

definition dce_register_engine :: "table \<Rightarrow> u32 \<Rightarrow> u32 \<Rightarrow> table" where
  "dce_register_engine cl pid engine =
     (case get_client cl pid of
        Some i \<Rightarrow> cl[i := add_engine engine (cl ! i)]
      | None \<Rightarrow>
          (case get_client cl 0 of
             None \<Rightarrow> cl
           | Some i \<Rightarrow> cl[i := new_client pid engine (cl ! i)]))"

definition drop_engine :: "u32 \<Rightarrow> client \<Rightarrow> client" where
  "drop_engine engine c =
     (let c1 = c\<lparr>c_engines := set_first (\<lambda>e. e = engine) 0 (c_engines c)\<rparr>;
          c2 = c1\<lparr>c_refs := c_refs c1 - 1\<rparr>
      in if c_refs c2 = 0 then c2\<lparr>c_pid := 0\<rparr> else c2)"

definition dce_unregister_engine :: "table \<Rightarrow> u32 \<Rightarrow> u32 \<Rightarrow> table" where
  "dce_unregister_engine cl pid engine =
     (case get_client cl pid of
        Some i \<Rightarrow> cl[i := drop_engine engine (cl ! i)]
      | None \<Rightarrow> cl)"

definition add_codec :: "u32 \<Rightarrow> client \<Rightarrow> client" where
  "add_codec codec c =
     c\<lparr>c_refs := c_refs c + 1, c_codecs := set_first (\<lambda>e. e = 0) codec (c_codecs c)\<rparr>"

definition dce_register_codec :: "table \<Rightarrow> u32 \<Rightarrow> u32 \<Rightarrow> table" where
  "dce_register_codec cl pid codec =
     (case get_client cl pid of
        Some i \<Rightarrow> cl[i := add_codec codec (cl ! i)]
      | None \<Rightarrow> cl)"

definition drop_codec :: "u32 \<Rightarrow> client \<Rightarrow> client" where
  "drop_codec codec c =
     c\<lparr>c_codecs := set_first (\<lambda>e. e = codec) 0 (c_codecs c), c_refs := c_refs c - 1\<rparr>"

definition dce_unregister_codec :: "table \<Rightarrow> u32 \<Rightarrow> u32 \<Rightarrow> table" where
  "dce_unregister_codec cl pid codec =
     (case get_client cl pid of
        Some i \<Rightarrow> cl[i := drop_codec codec (cl ! i)]
      | None \<Rightarrow> cl)"

subsection \<open>The handles of one entry\<close>

text \<open>The handles recorded in an array: its non-zero elements, with their multiplicities.\<close>

definition owned :: "u32 list \<Rightarrow> u32 multiset" where
  "owned xs = filter_mset (\<lambda>h. h \<noteq> 0) (mset xs)"

abbreviation engines_of :: "client \<Rightarrow> u32 multiset" where
  "engines_of c \<equiv> owned (c_engines c)"

abbreviation codecs_of :: "client \<Rightarrow> u32 multiset" where
  "codecs_of c \<equiv> owned (c_codecs c)"

definition client_ok :: "client \<Rightarrow> bool" where
  "client_ok c \<longleftrightarrow> length (c_engines c) = 10 \<and> length (c_codecs c) = 10"

lemma owned_replicate [simp]: "owned (replicate n 0) = {#}"
  by (auto simp: owned_def filter_mset_eq_mempty_iff)

lemma owned_Nil [simp]: "owned [] = {#}"
  by (simp add: owned_def)

lemma size_owned_le: "size (owned xs) \<le> length xs"
  unfolding owned_def by (metis size_filter_mset_lesseq size_mset)

lemma in_owned [simp]: "h \<in># owned xs \<longleftrightarrow> h \<in> set xs \<and> h \<noteq> 0"
  by (simp add: owned_def)

lemma owned_add:
  assumes "0 \<in> set xs" "h \<noteq> 0"
  shows "owned (set_first (\<lambda>e. e = 0) h xs) = add_mset h (owned xs)"
  using assms by (simp add: owned_def mset_set_first_eq)

lemma owned_add_full:
  assumes "0 \<notin> set xs"
  shows "set_first (\<lambda>e. e = 0) h xs = xs"
  using assms by (intro set_first_none) (auto simp: list_ex_iff)

lemma owned_drop:
  "owned (set_first (\<lambda>e. e = h) 0 xs) = owned xs - {#h#}"
proof (cases "h \<in> set xs")
  case True
  then show ?thesis by (simp add: owned_def mset_set_first_eq)
next
  case False
  then have "set_first (\<lambda>e. e = h) 0 xs = xs"
    by (intro set_first_none) (auto simp: list_ex_iff)
  with False show ?thesis by (simp add: owned_def)
qed

lemma owned_Cons: "owned (x # xs) = (if x = 0 then owned xs else add_mset x (owned xs))"
  by (simp add: owned_def)

lemma owned_has_room: "size (owned xs) < length xs \<longleftrightarrow> 0 \<in> set xs"
proof (induction xs)
  case Nil
  then show ?case by simp
next
  case (Cons x xs)
  then show ?case using size_owned_le [of xs] by (auto simp: owned_Cons)
qed

text \<open>
  Both arrays of a client keep a bounded set of handles by the same contract: adding records
  a handle while there is room and drops it silently when there is none; dropping forgets one
  occurrence. What follows from the contract is proved once.
\<close>

locale handle_array =
  fixes handles :: "'c \<Rightarrow> u32 multiset"
    and add :: "u32 \<Rightarrow> 'c \<Rightarrow> 'c"
    and drop :: "u32 \<Rightarrow> 'c \<Rightarrow> 'c"
    and ok :: "'c \<Rightarrow> bool"
    and room :: "'c \<Rightarrow> nat"
  assumes add_ok: "ok c \<Longrightarrow> ok (add h c)"
    and drop_ok: "ok c \<Longrightarrow> ok (drop h c)"
    and add_room: "ok c \<Longrightarrow> h \<noteq> 0 \<Longrightarrow> 0 < room c \<Longrightarrow>
          handles (add h c) = add_mset h (handles c) \<and> room (add h c) = room c - 1"
    and add_full: "ok c \<Longrightarrow> room c = 0 \<Longrightarrow> handles (add h c) = handles c \<and> room (add h c) = 0"
    and drop_handles: "ok c \<Longrightarrow> handles (drop h c) = handles c - {#h#}"
begin

lemma add_drop_handles:
  assumes "ok c" "h \<noteq> 0" "0 < room c"
  shows "handles (drop h (add h c)) = handles c"
  using assms by (simp add: drop_handles add_ok add_room)

lemma add_all_ok: "ok c \<Longrightarrow> ok (fold add hs c)"
  by (induction hs arbitrary: c) (auto simp: add_ok)

lemma add_all_handles:
  assumes "ok c" "0 \<notin> set hs" "length hs \<le> room c"
  shows "handles (fold add hs c) = mset hs + handles c"
  using assms
proof (induction hs arbitrary: c)
  case Nil
  then show ?case by simp
next
  case (Cons h hs)
  then have "handles (add h c) = add_mset h (handles c)" "room (add h c) = room c - 1"
    by (simp_all add: add_room)
  with Cons show ?case by (simp add: add_ok)
qed

lemma drop_all_handles:
  assumes "ok c"
  shows "handles (fold drop hs c) = handles c - mset hs"
  using assms by (induction hs arbitrary: c) (simp_all add: drop_ok drop_handles)

text \<open>Handles that were opened and closed again, in any order, leave no trace.\<close>

lemma open_close_any_order:
  assumes "ok c" "0 \<notin> set hs" "length hs \<le> room c" "mset ks = mset hs"
  shows "handles (fold drop ks (fold add hs c)) = handles c"
  using assms by (simp add: drop_all_handles add_all_ok add_all_handles)

lemma add_beyond_room:
  assumes "ok c" "0 \<notin> set hs" "room c \<le> length hs"
  shows "handles (fold add hs c) = mset (take (room c) hs) + handles c"
  using assms
proof (induction hs arbitrary: c)
  case Nil
  then show ?case by simp
next
  case (Cons h hs)
  show ?case
  proof (cases "room c")
    case 0
    then have "handles (add h c) = handles c" "room (add h c) = 0"
      using Cons.prems(1) by (simp_all add: add_full)
    with Cons 0 show ?thesis by (simp add: add_ok)
  next
    case (Suc r)
    then have "handles (add h c) = add_mset h (handles c)" "room (add h c) = r"
      using Cons.prems(1,2) by (simp_all add: add_room)
    with Cons Suc show ?thesis by (simp add: add_ok)
  qed
qed

end

definition engine_room :: "client \<Rightarrow> nat" where
  "engine_room c = 10 - size (engines_of c)"

definition codec_room :: "client \<Rightarrow> nat" where
  "codec_room c = 10 - size (codecs_of c)"

lemma engine_room_pos: "client_ok c \<Longrightarrow> 0 < engine_room c \<longleftrightarrow> 0 \<in> set (c_engines c)"
  using owned_has_room [of "c_engines c"] by (simp add: engine_room_def client_ok_def)

lemma codec_room_pos: "client_ok c \<Longrightarrow> 0 < codec_room c \<longleftrightarrow> 0 \<in> set (c_codecs c)"
  using owned_has_room [of "c_codecs c"] by (simp add: codec_room_def client_ok_def)

lemma client_ok_ops [simp]:
  "client_ok (add_engine h c) = client_ok c" "client_ok (drop_engine h c) = client_ok c"
  "client_ok (add_codec h c) = client_ok c" "client_ok (drop_codec h c) = client_ok c"
  by (auto simp: client_ok_def add_engine_def drop_engine_def add_codec_def drop_codec_def Let_def)

lemma drop_engine_engines [simp]: "c_engines (drop_engine h c) = set_first (\<lambda>e. e = h) 0 (c_engines c)"
  and drop_engine_codecs [simp]: "c_codecs (drop_engine h c) = c_codecs c"
  and drop_engine_refs [simp]: "c_refs (drop_engine h c) = c_refs c - 1"
  and drop_engine_pid: "c_pid (drop_engine h c) = (if c_refs c = 1 then 0 else c_pid c)"
  by (simp_all add: drop_engine_def Let_def)

lemma drop_codec_engines [simp]: "c_engines (drop_codec h c) = c_engines c"
  and drop_codec_codecs [simp]: "c_codecs (drop_codec h c) = set_first (\<lambda>e. e = h) 0 (c_codecs c)"
  and drop_codec_refs [simp]: "c_refs (drop_codec h c) = c_refs c - 1"
  and drop_codec_pid [simp]: "c_pid (drop_codec h c) = c_pid c"
  by (simp_all add: drop_codec_def)

lemma add_engine_other [simp]: "c_codecs (add_engine h c) = c_codecs c"
    "c_refs (add_engine h c) = c_refs c + 1" "c_pid (add_engine h c) = c_pid c"
  by (simp_all add: add_engine_def)

lemma add_codec_other [simp]: "c_engines (add_codec h c) = c_engines c"
    "c_refs (add_codec h c) = c_refs c + 1" "c_pid (add_codec h c) = c_pid c"
  by (simp_all add: add_codec_def)

interpretation engs: handle_array engines_of add_engine drop_engine client_ok engine_room
proof unfold_locales
  fix c h
  assume c: "client_ok c" and h: "h \<noteq> (0 :: u32)" and r: "0 < engine_room c"
  from c r have "engines_of (add_engine h c) = add_mset h (engines_of c)"
    using h by (simp add: engine_room_pos add_engine_def owned_add)
  then show "engines_of (add_engine h c) = add_mset h (engines_of c) \<and>
             engine_room (add_engine h c) = engine_room c - 1"
    by (simp add: engine_room_def)
next
  fix c h
  assume "client_ok c" "engine_room c = 0"
  then have "c_engines (add_engine h c) = c_engines c"
    using engine_room_pos [of c] by (simp add: add_engine_def owned_add_full)
  then show "engines_of (add_engine h c) = engines_of c \<and> engine_room (add_engine h c) = 0"
    using \<open>engine_room c = 0\<close> by (simp add: engine_room_def)
qed (simp_all add: owned_drop)

interpretation cdcs: handle_array codecs_of add_codec drop_codec client_ok codec_room
proof unfold_locales
  fix c h
  assume c: "client_ok c" and h: "h \<noteq> (0 :: u32)" and r: "0 < codec_room c"
  from c r have "codecs_of (add_codec h c) = add_mset h (codecs_of c)"
    using h by (simp add: codec_room_pos add_codec_def owned_add)
  then show "codecs_of (add_codec h c) = add_mset h (codecs_of c) \<and>
             codec_room (add_codec h c) = codec_room c - 1"
    by (simp add: codec_room_def)
next
  fix c h
  assume "client_ok c" "codec_room c = 0"
  then have "c_codecs (add_codec h c) = c_codecs c"
    using codec_room_pos [of c] by (simp add: add_codec_def owned_add_full)
  then show "codecs_of (add_codec h c) = codecs_of c \<and> codec_room (add_codec h c) = 0"
    using \<open>codec_room c = 0\<close> by (simp add: codec_room_def)
qed (simp_all add: owned_drop)


subsection \<open>The table\<close>

text \<open>
  The invariant of the table: ten well-formed entries; no process has two of them; an unused
  entry records nothing; the reference count of a used entry is the number of handles it
  records.
\<close>

definition pids_distinct :: "table \<Rightarrow> bool" where
  "pids_distinct cl \<longleftrightarrow> (\<forall>i<length cl. \<forall>j<length cl.
     c_pid (cl ! i) = c_pid (cl ! j) \<longrightarrow> c_pid (cl ! i) \<noteq> 0 \<longrightarrow> i = j)"

definition accounted :: "client \<Rightarrow> bool" where
  "accounted c \<longleftrightarrow> c_refs c = of_nat (size (engines_of c) + size (codecs_of c))"

definition client_inv :: "client \<Rightarrow> bool" where
  "client_inv c \<longleftrightarrow> client_ok c \<and> accounted c \<and>
     (c_pid c = 0 \<longrightarrow> engines_of c = {#} \<and> codecs_of c = {#})"

definition table_inv :: "table \<Rightarrow> bool" where
  "table_inv cl \<longleftrightarrow> length cl = 10 \<and> list_all client_inv cl \<and> pids_distinct cl"

lemma get_client_iff:
  assumes "pids_distinct cl" "pid \<noteq> 0"
  shows "get_client cl pid = Some i \<longleftrightarrow> i < length cl \<and> c_pid (cl ! i) = pid"
proof
  show "get_client cl pid = Some i \<Longrightarrow> i < length cl \<and> c_pid (cl ! i) = pid"
    by (auto simp: get_client_def dest: find_index_Some)
next
  assume "i < length cl \<and> c_pid (cl ! i) = pid"
  then show "get_client cl pid = Some i"
    unfolding get_client_def using assms
    by (intro find_index_unique) (auto simp: pids_distinct_def)
qed

lemma get_client_SomeD: "get_client cl pid = Some i \<Longrightarrow> i < length cl \<and> c_pid (cl ! i) = pid"
  by (auto simp: get_client_def dest: find_index_Some)

lemma get_client_None: "get_client cl pid = None \<longleftrightarrow> (\<forall>i<length cl. c_pid (cl ! i) \<noteq> pid)"
  by (simp add: get_client_def find_index_None_nth)

lemma table_inv_nth: "table_inv cl \<Longrightarrow> i < length cl \<Longrightarrow> client_inv (cl ! i)"
  by (simp add: table_inv_def list_all_length)

lemma table_inv_distinct: "table_inv cl \<Longrightarrow> pids_distinct cl"
  by (simp add: table_inv_def)

lemma pids_distinct_update:
  assumes "pids_distinct cl" "i < length cl"
    and "c_pid c = 0 \<or> (\<forall>j<length cl. c_pid (cl ! j) = c_pid c \<longrightarrow> j = i)"
  shows "pids_distinct (cl[i := c])"
  using assms by (auto simp: pids_distinct_def nth_list_update)

lemma table_inv_update:
  assumes "table_inv cl" "get_client cl pid = Some i" "client_inv c"
    and "c_pid c = 0 \<or> c_pid c = pid"
  shows "table_inv (cl[i := c])"
proof -
  from assms(2) have i: "i < length cl" "c_pid (cl ! i) = pid" by (auto dest: get_client_SomeD)
  have "pids_distinct (cl[i := c])"
    using assms i by (intro pids_distinct_update) (auto simp: table_inv_def pids_distinct_def)
  with assms i show ?thesis
    by (auto simp: table_inv_def list_all_length nth_list_update)
qed

lemma of_nat_small_eq_0: "n \<le> 20 \<Longrightarrow> of_nat n = (0 :: u32) \<longleftrightarrow> n = 0"
  by (simp add: word_unat_eq_iff unsigned_of_nat take_bit_nat_eq_self)

lemma client_sizes:
  "client_ok c \<Longrightarrow> size (engines_of c) \<le> 10" "client_ok c \<Longrightarrow> size (codecs_of c) \<le> 10"
  using size_owned_le [of "c_engines c"] size_owned_le [of "c_codecs c"]
  by (simp_all add: client_ok_def)

text \<open>The reference count reaches zero exactly when nothing is recorded.\<close>

lemma refs_0_iff:
  assumes "client_inv c"
  shows "c_refs c = 0 \<longleftrightarrow> engines_of c = {#} \<and> codecs_of c = {#}"
proof -
  have "size (engines_of c) + size (codecs_of c) \<le> 20"
    using assms client_sizes [of c] by (simp add: client_inv_def)
  from of_nat_small_eq_0 [OF this] show ?thesis
    using assms by (simp add: client_inv_def accounted_def)
qed

lemma free_client_inv: "client_inv free_client"
  by (simp add: free_client_def client_inv_def client_ok_def accounted_def)

lemma init_clients_inv: "table_inv init_clients"
  using free_client_inv
  by (simp add: table_inv_def init_clients_def pids_distinct_def list_all_length)
     (simp add: free_client_def)

lemma add_engine_inv:
  assumes "client_inv c" "c_pid c \<noteq> 0" "h \<noteq> 0" "0 < engine_room c"
  shows "client_inv (add_engine h c)"
  using assms engs.add_room [of c h]
  by (simp add: client_inv_def accounted_def add_ac)

lemma add_codec_inv:
  assumes "client_inv c" "c_pid c \<noteq> 0" "h \<noteq> 0" "0 < codec_room c"
  shows "client_inv (add_codec h c)"
  using assms cdcs.add_room [of c h]
  by (simp add: client_inv_def accounted_def add_ac)

lemma of_nat_size_diff:
  "h \<in># M \<Longrightarrow> of_nat (size (M - {#h#})) = (of_nat (size M) - 1 :: u32)"
  by (auto dest!: multi_member_split)

lemma drop_codec_accounted:
  assumes "accounted c" "h \<in># codecs_of c"
  shows "accounted (drop_codec h c)"
  using assms(1) of_nat_size_diff [OF assms(2)] by (simp add: accounted_def owned_drop)

lemma drop_engine_accounted:
  assumes "accounted c" "h \<in># engines_of c"
  shows "accounted (drop_engine h c)"
  using assms(1) of_nat_size_diff [OF assms(2)] by (simp add: accounted_def owned_drop)

lemma drop_codec_inv:
  assumes "client_inv c" "c_pid c \<noteq> 0" "h \<in># codecs_of c"
  shows "client_inv (drop_codec h c)"
  using assms drop_codec_accounted [of c h] by (simp add: client_inv_def)

lemma drop_engine_refs_0:
  assumes "client_ok c" "accounted (drop_engine h c)"
  shows "c_refs (drop_engine h c) = 0 \<longleftrightarrow>
      engines_of (drop_engine h c) = {#} \<and> codecs_of (drop_engine h c) = {#}"
proof -
  have "size (engines_of (drop_engine h c)) + size (codecs_of (drop_engine h c)) \<le> 20"
    using client_sizes [of "drop_engine h c"] assms(1) by (simp del: drop_engine_engines)
  from of_nat_small_eq_0 [OF this] show ?thesis
    using assms(2) by (simp add: accounted_def)
qed

lemma drop_engine_inv:
  assumes "client_inv c" "c_pid c \<noteq> 0" "h \<in># engines_of c"
  shows "client_inv (drop_engine h c)"
proof -
  have acc: "accounted (drop_engine h c)"
    using assms drop_engine_accounted by (simp add: client_inv_def)
  have "c_pid (drop_engine h c) = 0 \<Longrightarrow> c_refs (drop_engine h c) = 0"
    using assms(2) by (simp add: drop_engine_pid split: if_splits)
  with drop_engine_refs_0 [OF _ acc] assms acc show ?thesis
    by (auto simp: client_inv_def simp del: drop_engine_engines drop_engine_codecs)
qed


subsection \<open>Every operation keeps the table's invariant\<close>

text \<open>
  The conditions are those under which the code records what it counts: handles are not
  \<open>NULL\<close>, there is room in the array, a handle that is dropped was recorded. What
  happens outside them is stated separately below.
\<close>

definition room_for_engine :: "table \<Rightarrow> u32 \<Rightarrow> bool" where
  "room_for_engine cl pid =
     (case get_client cl pid of Some i \<Rightarrow> 0 < engine_room (cl ! i) | None \<Rightarrow> True)"

definition room_for_codec :: "table \<Rightarrow> u32 \<Rightarrow> bool" where
  "room_for_codec cl pid =
     (case get_client cl pid of Some i \<Rightarrow> 0 < codec_room (cl ! i) | None \<Rightarrow> True)"

definition has_engine :: "table \<Rightarrow> u32 \<Rightarrow> u32 \<Rightarrow> bool" where
  "has_engine cl pid h =
     (case get_client cl pid of Some i \<Rightarrow> h \<in># engines_of (cl ! i) | None \<Rightarrow> False)"

definition has_codec :: "table \<Rightarrow> u32 \<Rightarrow> u32 \<Rightarrow> bool" where
  "has_codec cl pid h =
     (case get_client cl pid of Some i \<Rightarrow> h \<in># codecs_of (cl ! i) | None \<Rightarrow> False)"

lemma owned_update_empty:
  assumes "owned xs = {#}" "xs \<noteq> []" "h \<noteq> 0"
  shows "owned (xs[0 := h]) = {#h#}"
  using assms by (cases xs) (auto simp: owned_Cons split: if_splits)

lemma new_client_entry:
  assumes "client_inv c" "c_pid c = 0" "h \<noteq> 0"
  shows "engines_of (new_client pid h c) = {#h#}" "codecs_of (new_client pid h c) = {#}"
proof -
  have "c_engines c \<noteq> []" using assms(1) by (auto simp: client_inv_def client_ok_def)
  with assms show "engines_of (new_client pid h c) = {#h#}" "codecs_of (new_client pid h c) = {#}"
    by (simp_all add: new_client_def client_inv_def owned_update_empty)
qed

lemma new_client_inv:
  assumes "client_inv c" "c_pid c = 0" "h \<noteq> 0" "pid \<noteq> 0"
  shows "client_inv (new_client pid h c)"
  using new_client_entry [OF assms(1-3), of pid] assms(1,4)
  by (simp add: client_inv_def accounted_def) (simp add: new_client_def client_ok_def)

lemma client_at:
  assumes "table_inv cl" "get_client cl pid = Some i"
  shows "client_inv (cl ! i)" "c_pid (cl ! i) = pid" "i < length cl"
  using assms by (auto dest: get_client_SomeD intro: table_inv_nth)

lemma register_engine_inv [inv_intros]:
  assumes inv: "table_inv cl" and h: "h \<noteq> 0" "pid \<noteq> 0" "room_for_engine cl pid"
  shows "table_inv (dce_register_engine cl pid h)"
proof (cases "get_client cl pid")
  case None
  show ?thesis
  proof (cases "get_client cl 0")
    case (Some i)
    note at = client_at [OF inv Some]
    have "pids_distinct (cl[i := new_client pid h (cl ! i)])"
      using None at inv by (intro pids_distinct_update)
        (auto simp: table_inv_def new_client_def get_client_None)
    moreover have "client_inv (new_client pid h (cl ! i))"
      using at h by (intro new_client_inv) auto
    ultimately show ?thesis using None Some inv at
      by (auto simp: dce_register_engine_def table_inv_def list_all_length nth_list_update)
  qed (use None inv in \<open>simp add: dce_register_engine_def\<close>)
next
  case (Some i)
  note at = client_at [OF inv Some]
  have "client_inv (add_engine h (cl ! i))"
    using at h Some by (intro add_engine_inv) (auto simp: room_for_engine_def)
  with Some inv at show ?thesis
    by (simp add: dce_register_engine_def table_inv_update)
qed

lemma register_codec_inv [inv_intros]:
  assumes inv: "table_inv cl" and h: "h \<noteq> 0" "pid \<noteq> 0" "room_for_codec cl pid"
  shows "table_inv (dce_register_codec cl pid h)"
proof (cases "get_client cl pid")
  case (Some i)
  note at = client_at [OF inv Some]
  have "client_inv (add_codec h (cl ! i))"
    using at h Some by (intro add_codec_inv) (auto simp: room_for_codec_def)
  with Some inv at show ?thesis by (simp add: dce_register_codec_def table_inv_update)
qed (use inv in \<open>simp add: dce_register_codec_def\<close>)

lemma unregister_engine_inv [inv_intros]:
  assumes inv: "table_inv cl" and h: "pid \<noteq> 0" "has_engine cl pid h"
  shows "table_inv (dce_unregister_engine cl pid h)"
proof (cases "get_client cl pid")
  case (Some i)
  note at = client_at [OF inv Some]
  have "client_inv (drop_engine h (cl ! i))"
    using at h Some by (intro drop_engine_inv) (auto simp: has_engine_def)
  with Some inv at show ?thesis
    by (simp add: dce_unregister_engine_def table_inv_update drop_engine_pid)
qed (use inv in \<open>simp add: dce_unregister_engine_def\<close>)

lemma unregister_codec_inv [inv_intros]:
  assumes inv: "table_inv cl" and h: "pid \<noteq> 0" "has_codec cl pid h"
  shows "table_inv (dce_unregister_codec cl pid h)"
proof (cases "get_client cl pid")
  case (Some i)
  note at = client_at [OF inv Some]
  have "client_inv (drop_codec h (cl ! i))"
    using at h Some by (intro drop_codec_inv) (auto simp: has_codec_def)
  with Some inv at show ?thesis
    by (simp add: dce_unregister_codec_def table_inv_update)
qed (use inv in \<open>simp add: dce_unregister_codec_def\<close>)

subsection \<open>The table as a map from processes to handles\<close>

type_synonym registry = "u32 \<Rightarrow> (u32 multiset \<times> u32 multiset) option"

definition handles :: "client \<Rightarrow> u32 multiset \<times> u32 multiset" where
  "handles c = (engines_of c, codecs_of c)"

definition registry_of :: "table \<Rightarrow> registry" where
  "registry_of cl pid =
     (if pid = 0 then None
      else map_option (\<lambda>i. handles (cl ! i)) (get_client cl pid))"

definition spec_register_engine :: "registry \<Rightarrow> u32 \<Rightarrow> u32 \<Rightarrow> registry" where
  "spec_register_engine R pid h =
     (case R pid of
        Some (E, C) \<Rightarrow> R(pid \<mapsto> (add_mset h E, C))
      | None \<Rightarrow> if card (dom R) < 10 then R(pid \<mapsto> ({#h#}, {#})) else R)"

definition spec_unregister_engine :: "registry \<Rightarrow> u32 \<Rightarrow> u32 \<Rightarrow> registry" where
  "spec_unregister_engine R pid h =
     (case R pid of
        Some (E, C) \<Rightarrow>
          if E = {#h#} \<and> C = {#} then R(pid := None) else R(pid \<mapsto> (E - {#h#}, C))
      | None \<Rightarrow> R)"

definition spec_register_codec :: "registry \<Rightarrow> u32 \<Rightarrow> u32 \<Rightarrow> registry" where
  "spec_register_codec R pid h =
     (case R pid of Some (E, C) \<Rightarrow> R(pid \<mapsto> (E, add_mset h C)) | None \<Rightarrow> R)"

definition spec_unregister_codec :: "registry \<Rightarrow> u32 \<Rightarrow> u32 \<Rightarrow> registry" where
  "spec_unregister_codec R pid h =
     (case R pid of Some (E, C) \<Rightarrow> R(pid \<mapsto> (E, C - {#h#})) | None \<Rightarrow> R)"

lemma registry_Some_iff:
  assumes "pids_distinct cl" "pid \<noteq> 0"
  shows "registry_of cl pid = Some x \<longleftrightarrow>
     (\<exists>i<length cl. c_pid (cl ! i) = pid \<and> handles (cl ! i) = x)"
  using assms by (auto simp: registry_of_def get_client_iff)

lemma registry_0 [simp]: "registry_of cl 0 = None"
  by (simp add: registry_of_def)

lemma get_client_update_other:
  assumes "i < length cl" "c_pid c \<noteq> q" "c_pid (cl ! i) \<noteq> q"
  shows "get_client (cl[i := c]) q = get_client cl q"
  using assms by (simp add: get_client_def find_index_update_other)

lemma get_client_update_self:
  assumes "pids_distinct (cl[i := c])" "i < length cl" "c_pid c \<noteq> 0"
  shows "get_client (cl[i := c]) (c_pid c) = Some i"
  using assms by (simp add: get_client_iff)

lemma registry_update_other:
  assumes "i < length cl" "c_pid c \<noteq> q" "c_pid (cl ! i) \<noteq> q"
  shows "registry_of (cl[i := c]) q = registry_of cl q"
proof -
  have "get_client cl q = Some j \<Longrightarrow> cl[i := c] ! j = cl ! j" for j
    using assms(3) by (metis get_client_SomeD nth_list_update_neq)
  then show ?thesis
    using get_client_update_other [OF assms] by (cases "get_client cl q") (auto simp: registry_of_def)
qed

text \<open>Updating the entry of \<open>pid\<close>, in place or releasing it.\<close>

lemma registry_update:
  assumes "pids_distinct cl" "i < length cl" "pids_distinct (cl[i := c])"
    and "c_pid (cl ! i) = 0 \<or> c_pid (cl ! i) = pid" "c_pid c = pid" "pid \<noteq> 0"
  shows "registry_of (cl[i := c]) = (registry_of cl)(pid \<mapsto> handles c)"
proof
  fix q
  show "registry_of (cl[i := c]) q = ((registry_of cl)(pid \<mapsto> handles c)) q"
    using assms registry_update_other [of i cl c q] get_client_update_self [of cl i c]
    by (cases "q = 0"; cases "q = pid") (auto simp: registry_of_def)
qed

lemma registry_release:
  assumes "pids_distinct cl" "i < length cl" "c_pid (cl ! i) = pid" "c_pid c = 0" "pid \<noteq> 0"
  shows "registry_of (cl[i := c]) = (registry_of cl)(pid := None)"
proof
  fix q
  have "get_client (cl[i := c]) pid = None"
    using assms by (auto simp: get_client_None nth_list_update pids_distinct_def)
  then show "registry_of (cl[i := c]) q = ((registry_of cl)(pid := None)) q"
    using assms registry_update_other [of i cl c q]
    by (cases "q = 0"; cases "q = pid") (auto simp: registry_of_def)
qed


lemma dom_registry:
  assumes "pids_distinct cl"
  shows "dom (registry_of cl) = (\<lambda>i. c_pid (cl ! i)) ` {..<length cl} - {0}"
proof -
  have "q \<in> dom (registry_of cl) \<longleftrightarrow> q \<in> (\<lambda>i. c_pid (cl ! i)) ` {..<length cl} - {0}" for q
    using registry_Some_iff [OF assms, of q] by (cases "q = 0") (auto simp: dom_def handles_def)
  then show ?thesis by blast
qed

text \<open>There is a free entry exactly when fewer than ten processes are registered.\<close>

lemma free_entry_iff:
  assumes "table_inv cl"
  shows "get_client cl 0 = None \<longleftrightarrow> \<not> card (dom (registry_of cl)) < 10"
proof (cases "get_client cl 0")
  case None
  have "inj_on (\<lambda>i. c_pid (cl ! i)) {..<length cl}"
    using assms None by (auto simp: inj_on_def table_inv_def pids_distinct_def get_client_None)
  moreover have "0 \<notin> (\<lambda>i. c_pid (cl ! i)) ` {..<length cl}"
    using None by (force simp: get_client_None)
  ultimately have "card (dom (registry_of cl)) = 10"
    using assms by (simp add: dom_registry table_inv_def card_image)
  with None show ?thesis by simp
next
  case (Some i)
  have "dom (registry_of cl) \<subseteq> (\<lambda>j. c_pid (cl ! j)) ` ({..<10} - {i})"
    using get_client_SomeD [OF Some] assms by (auto simp: dom_registry table_inv_def)
  then have "card (dom (registry_of cl)) \<le> card ({..<10} - {i})"
    by (intro surj_card_le) auto
  also have "\<dots> < 10"
    using get_client_SomeD [OF Some] assms by (simp add: table_inv_def)
  finally show ?thesis using Some by simp
qed

lemma registry_at:
  assumes "get_client cl pid = Some i" "pid \<noteq> 0"
  shows "registry_of cl pid = Some (engines_of (cl ! i), codecs_of (cl ! i))"
  using assms by (simp add: registry_of_def handles_def)

lemma registry_None_iff: "pid \<noteq> 0 \<Longrightarrow> registry_of cl pid = None \<longleftrightarrow> get_client cl pid = None"
  by (simp add: registry_of_def)

lemma spec_register_engine_refines:
  assumes inv: "table_inv cl" and h: "h \<noteq> 0" "pid \<noteq> 0" "room_for_engine cl pid"
  shows "registry_of (dce_register_engine cl pid h) = spec_register_engine (registry_of cl) pid h"
proof (cases "get_client cl pid")
  case None
  show ?thesis
  proof (cases "get_client cl 0")
    case (Some i)
    have "table_inv (cl[i := new_client pid h (cl ! i)])"
      using register_engine_inv [OF inv h] None Some by (simp add: dce_register_engine_def)
    then have "registry_of (cl[i := new_client pid h (cl ! i)]) =
        (registry_of cl)(pid \<mapsto> handles (new_client pid h (cl ! i)))"
      using client_at [OF inv Some] inv h
      by (intro registry_update) (auto simp: table_inv_def new_client_def)
    moreover have "handles (new_client pid h (cl ! i)) = ({#h#}, {#})"
      using client_at [OF inv Some] h by (simp add: handles_def new_client_entry)
    ultimately show ?thesis using None Some h free_entry_iff [OF inv]
      by (simp add: dce_register_engine_def spec_register_engine_def registry_None_iff [THEN iffD2])
  qed (use None h free_entry_iff [OF inv] in
        \<open>simp add: dce_register_engine_def spec_register_engine_def registry_None_iff [THEN iffD2]\<close>)
next
  case (Some i)
  note at = client_at [OF inv Some]
  have "table_inv (cl[i := add_engine h (cl ! i)])"
    using register_engine_inv [OF inv h] Some by (simp add: dce_register_engine_def)
  then have "registry_of (cl[i := add_engine h (cl ! i)]) =
      (registry_of cl)(pid \<mapsto> handles (add_engine h (cl ! i)))"
    using at inv h by (intro registry_update) (auto simp: table_inv_def)
  moreover have "engines_of (add_engine h (cl ! i)) = add_mset h (engines_of (cl ! i))"
    using at h Some engs.add_room [of "cl ! i" h] by (simp add: client_inv_def room_for_engine_def)
  ultimately show ?thesis
    using Some h by (simp add: dce_register_engine_def spec_register_engine_def registry_at handles_def)
qed

lemma spec_register_codec_refines:
  assumes inv: "table_inv cl" and h: "h \<noteq> 0" "pid \<noteq> 0" "room_for_codec cl pid"
  shows "registry_of (dce_register_codec cl pid h) = spec_register_codec (registry_of cl) pid h"
proof (cases "get_client cl pid")
  case None
  with h show ?thesis
    by (simp add: dce_register_codec_def spec_register_codec_def registry_None_iff [THEN iffD2])
next
  case (Some i)
  note at = client_at [OF inv Some]
  have "table_inv (cl[i := add_codec h (cl ! i)])"
    using register_codec_inv [OF inv h] Some by (simp add: dce_register_codec_def)
  then have "registry_of (cl[i := add_codec h (cl ! i)]) =
      (registry_of cl)(pid \<mapsto> handles (add_codec h (cl ! i)))"
    using at inv h by (intro registry_update) (auto simp: table_inv_def)
  moreover have "codecs_of (add_codec h (cl ! i)) = add_mset h (codecs_of (cl ! i))"
    using at h Some cdcs.add_room [of "cl ! i" h] by (simp add: client_inv_def room_for_codec_def)
  ultimately show ?thesis
    using Some h by (simp add: dce_register_codec_def spec_register_codec_def registry_at handles_def)
qed

lemma spec_unregister_codec_refines:
  assumes inv: "table_inv cl" and h: "pid \<noteq> 0" "has_codec cl pid h"
  shows "registry_of (dce_unregister_codec cl pid h) = spec_unregister_codec (registry_of cl) pid h"
proof -
  from h obtain i where Some: "get_client cl pid = Some i"
    by (auto simp: has_codec_def split: option.splits)
  note at = client_at [OF inv Some]
  have "table_inv (cl[i := drop_codec h (cl ! i)])"
    using unregister_codec_inv [OF inv h] Some by (simp add: dce_unregister_codec_def)
  then have "registry_of (cl[i := drop_codec h (cl ! i)]) =
      (registry_of cl)(pid \<mapsto> handles (drop_codec h (cl ! i)))"
    using at inv h by (intro registry_update) (auto simp: table_inv_def)
  then show ?thesis
    using Some h
    by (simp add: dce_unregister_codec_def spec_unregister_codec_def registry_at handles_def owned_drop)
qed

text \<open>Dropping the last handle of a process releases its entry, but only if it is an engine.\<close>

lemma drop_engine_last:
  assumes "client_inv c" "c_pid c \<noteq> 0" "h \<in># engines_of c"
  shows "c_pid (drop_engine h c) = 0 \<longleftrightarrow> engines_of c = {#h#} \<and> codecs_of c = {#}"
proof -
  have "c_pid (drop_engine h c) = 0 \<longleftrightarrow> c_refs (drop_engine h c) = 0"
    using assms(2) by (simp add: drop_engine_pid)
  also have "\<dots> \<longleftrightarrow> engines_of (drop_engine h c) = {#} \<and> codecs_of (drop_engine h c) = {#}"
    using assms by (intro drop_engine_refs_0 drop_engine_accounted) (auto simp: client_inv_def)
  also have "\<dots> \<longleftrightarrow> engines_of c = {#h#} \<and> codecs_of c = {#}"
    using assms(3) by (auto simp: owned_drop simp del: in_owned dest!: multi_member_split)
  finally show ?thesis .
qed

lemma spec_unregister_engine_refines:
  assumes inv: "table_inv cl" and h: "pid \<noteq> 0" "has_engine cl pid h"
  shows "registry_of (dce_unregister_engine cl pid h) = spec_unregister_engine (registry_of cl) pid h"
proof -
  from h obtain i where Some: "get_client cl pid = Some i" and e: "h \<in># engines_of (cl ! i)"
    by (auto simp: has_engine_def split: option.splits)
  note at = client_at [OF inv Some]
  let ?d = "drop_engine h (cl ! i)"
  have inv': "table_inv (cl[i := ?d])"
    using unregister_engine_inv [OF inv h] Some by (simp add: dce_unregister_engine_def)
  have R: "registry_of cl pid = Some (engines_of (cl ! i), codecs_of (cl ! i))"
    by (rule registry_at [OF Some h(1)])
  have last: "c_pid ?d = 0 \<longleftrightarrow> engines_of (cl ! i) = {#h#} \<and> codecs_of (cl ! i) = {#}"
    using at h e by (intro drop_engine_last) auto
  show ?thesis
  proof (cases "c_pid ?d = 0")
    case True
    then have "registry_of (cl[i := ?d]) = (registry_of cl)(pid := None)"
      using at inv h by (intro registry_release) (auto simp: table_inv_def)
    with True last R Some show ?thesis
      by (simp add: dce_unregister_engine_def spec_unregister_engine_def)
  next
    case False
    then have "registry_of (cl[i := ?d]) = (registry_of cl)(pid \<mapsto> handles ?d)"
      using at inv inv' h by (intro registry_update) (auto simp: table_inv_def drop_engine_pid)
    with False last R Some show ?thesis
      by (auto simp: dce_unregister_engine_def spec_unregister_engine_def handles_def owned_drop)
  qed
qed

end
