(* ===== verification/Client_History.thy ===== *)
theory Client_History
  imports Client_Table
begin

text \<open>
  Histories of the client table (\<^verbatim>\<open>dce.c\<close>, lines 195-323): the four operations as data, the
  map from processes to their handles as the specification of a history, and what becomes of
  the table when the calls stay within the conditions of the code and when they do not.
\<close>

datatype table_op =
    Register_Engine u32 u32
  | Unregister_Engine u32 u32
  | Register_Codec u32 u32
  | Unregister_Codec u32 u32

fun table_step :: "table_op \<Rightarrow> table \<Rightarrow> table" where
  "table_step (Register_Engine pid h) cl = dce_register_engine cl pid h"
| "table_step (Unregister_Engine pid h) cl = dce_unregister_engine cl pid h"
| "table_step (Register_Codec pid h) cl = dce_register_codec cl pid h"
| "table_step (Unregister_Codec pid h) cl = dce_unregister_codec cl pid h"

fun spec_step :: "table_op \<Rightarrow> registry \<Rightarrow> registry" where
  "spec_step (Register_Engine pid h) R = spec_register_engine R pid h"
| "spec_step (Unregister_Engine pid h) R = spec_unregister_engine R pid h"
| "spec_step (Register_Codec pid h) R = spec_register_codec R pid h"
| "spec_step (Unregister_Codec pid h) R = spec_unregister_codec R pid h"

text \<open>
  A call within the code's limits: process and handle are not zero, no more than ten handles
  of a kind per process, and a handle is dropped only by the process that owns it.
\<close>

fun within_limits :: "table_op \<Rightarrow> registry \<Rightarrow> bool" where
  "within_limits (Register_Engine pid h) R =
     (pid \<noteq> 0 \<and> h \<noteq> 0 \<and> (case R pid of Some (E, C) \<Rightarrow> size E < 10 | None \<Rightarrow> True))"
| "within_limits (Unregister_Engine pid h) R =
     (pid \<noteq> 0 \<and> (case R pid of Some (E, C) \<Rightarrow> h \<in># E | None \<Rightarrow> False))"
| "within_limits (Register_Codec pid h) R =
     (pid \<noteq> 0 \<and> h \<noteq> 0 \<and> (case R pid of Some (E, C) \<Rightarrow> size C < 10 | None \<Rightarrow> True))"
| "within_limits (Unregister_Codec pid h) R =
     (pid \<noteq> 0 \<and> (case R pid of Some (E, C) \<Rightarrow> h \<in># C | None \<Rightarrow> False))"

fun history_ok :: "table_op list \<Rightarrow> registry \<Rightarrow> bool" where
  "history_ok [] R = True"
| "history_ok (op # ops) R = (within_limits op R \<and> history_ok ops (spec_step op R))"

lemma limits_simps:
  assumes "pid \<noteq> 0"
  shows "(case registry_of cl pid of Some (E, C) \<Rightarrow> size E < 10 | None \<Rightarrow> True) = room_for_engine cl pid"
    and "(case registry_of cl pid of Some (E, C) \<Rightarrow> size C < 10 | None \<Rightarrow> True) = room_for_codec cl pid"
    and "(case registry_of cl pid of Some (E, C) \<Rightarrow> h \<in># E | None \<Rightarrow> False) = has_engine cl pid h"
    and "(case registry_of cl pid of Some (E, C) \<Rightarrow> h \<in># C | None \<Rightarrow> False) = has_codec cl pid h"
  using assms
  by (cases "get_client cl pid", simp_all add: registry_of_def handles_def room_for_engine_def
      room_for_codec_def has_engine_def has_codec_def engine_room_def codec_room_def)+

lemma step_refines:
  assumes "table_inv cl" "within_limits op (registry_of cl)"
  shows "table_inv (table_step op cl) \<and> registry_of (table_step op cl) = spec_step op (registry_of cl)"
  using assms
  by (cases op) (auto simp: limits_simps register_engine_inv unregister_engine_inv
      register_codec_inv unregister_codec_inv spec_register_engine_refines
      spec_unregister_engine_refines spec_register_codec_refines spec_unregister_codec_refines)

lemma history_refines_from:
  assumes "table_inv cl" "history_ok ops (registry_of cl)"
  shows "table_inv (fold table_step ops cl) \<and>
         registry_of (fold table_step ops cl) = fold spec_step ops (registry_of cl)"
  using assms
proof (induction ops arbitrary: cl)
  case Nil
  then show ?case by simp
next
  case (Cons op ops)
  then have "table_inv (table_step op cl)"
    "registry_of (table_step op cl) = spec_step op (registry_of cl)"
    using step_refines [of cl op] by auto
  with Cons show ?case by simp
qed

lemma registry_init [simp]: "registry_of init_clients = Map.empty"
proof
  fix q
  have "get_client init_clients q = None" if "q \<noteq> 0"
    using that by (simp add: get_client_None init_clients_def free_client_def)
  then show "registry_of init_clients q = None"
    by (simp add: registry_of_def)
qed

text \<open>
  C3: for every sequence of register and unregister calls that stays within the limits of the
  code, starting from the zeroed table, the table keeps its invariant (ten well-formed entries,
  one per process, reference counts equal to the number of recorded handles, unused entries
  empty), and it holds for every process exactly the handles the specification gives: those
  the process registered and has not unregistered.
\<close>

theorem table_history_refines:
  assumes "history_ok ops Map.empty"
  shows "table_inv (fold table_step ops init_clients) \<and>
         registry_of (fold table_step ops init_clients) = fold spec_step ops Map.empty"
  using history_refines_from [OF init_clients_inv, of ops] assms by simp

text \<open>A history of two processes, one of which closes its codec and then its engine.\<close>

definition sample_history :: "table_op list" where
  "sample_history = [Register_Engine 7 100, Register_Engine 8 200, Register_Codec 7 101,
     Unregister_Codec 7 101, Unregister_Engine 7 100]"

lemma card_insert_lt: "finite A \<Longrightarrow> card A < n \<Longrightarrow> card (insert x A) < Suc n"
  by (simp add: card_insert_if)

lemma sample_history_ok: "history_ok sample_history Map.empty"
  by (simp add: sample_history_def spec_register_engine_def spec_unregister_engine_def
      spec_register_codec_def spec_unregister_codec_def)

lemma table_history_refines_witness:
  "history_ok sample_history Map.empty \<and> table_inv (fold table_step sample_history init_clients) \<and>
   registry_of (fold table_step sample_history init_clients) = fold spec_step sample_history Map.empty"
  using table_history_refines [OF sample_history_ok] sample_history_ok by simp

subsection \<open>What the table loses\<close>

text \<open>
  \<open>dce_unregister_codec\<close> has no counterpart of the test \<open>if (!c->refs) c->pid = 0\<close> of
  \<open>dce_unregister_engine\<close>: it never releases an entry.
\<close>

lemma unregister_codec_pids: "map c_pid (dce_unregister_codec cl pid h) = map c_pid cl"
proof (cases "get_client cl pid")
  case (Some i)
  then have "i < length cl" by (auto dest: get_client_SomeD)
  then show ?thesis
    using Some by (auto simp: dce_unregister_codec_def intro!: nth_equalityI simp: nth_list_update)
qed (simp add: dce_unregister_codec_def)

text \<open>A process that closes its engine while it still has a codec, and then deletes the codec.\<close>

definition codec_outlives_engine :: "u32 \<Rightarrow> u32 \<Rightarrow> u32 \<Rightarrow> table_op list" where
  "codec_outlives_engine pid e c =
     [Register_Engine pid e, Register_Codec pid c, Unregister_Engine pid e, Unregister_Codec pid c]"

lemma codec_outlives_engine_spec:
  assumes "R pid = None" "card (dom R) < 10" "pid \<noteq> 0" "e \<noteq> 0" "c \<noteq> 0"
  shows "fold spec_step (codec_outlives_engine pid e c) R = R(pid \<mapsto> ({#}, {#}))"
    and "history_ok (codec_outlives_engine pid e c) R"
  using assms
  by (simp_all add: codec_outlives_engine_def spec_register_engine_def spec_register_codec_def
      spec_unregister_engine_def spec_unregister_codec_def fun_upd_upd)

lemma history_ok_append:
  "history_ok (xs @ ys) R \<longleftrightarrow> history_ok xs R \<and> history_ok ys (fold spec_step xs R)"
  by (induction xs arbitrary: R) auto

lemma fold_codec_outlives_engine:
  assumes "distinct ps" "0 \<notin> set ps" "set ps \<inter> dom R = {}" "finite (dom R)"
    and "card (dom R) + length ps \<le> 10" "e \<noteq> 0" "c \<noteq> 0"
  shows "history_ok (concat (map (\<lambda>p. codec_outlives_engine p e c) ps)) R \<and>
     fold spec_step (concat (map (\<lambda>p. codec_outlives_engine p e c) ps)) R =
       (\<lambda>q. if q \<in> set ps then Some ({#}, {#}) else R q)"
  using assms
proof (induction ps arbitrary: R)
  case Nil
  then show ?case by simp
next
  case (Cons p ps)
  let ?R = "R(p \<mapsto> ({#}, {#}))"
  from Cons.prems have p: "R p = None" "card (dom R) < 10" "p \<noteq> 0" by auto
  have dom: "dom ?R = insert p (dom R)" by simp
  have "p \<notin> dom R" using p(1) by auto
  then have card: "card (dom ?R) = Suc (card (dom R))" using Cons.prems(4) unfolding dom by simp
  have fin: "finite (dom ?R)" "card (dom ?R) + length ps \<le> 10" "set ps \<inter> dom ?R = {}"
    using Cons.prems card unfolding dom by (simp_all add: disjoint_iff)
  from Cons.prems have "history_ok (concat (map (\<lambda>p. codec_outlives_engine p e c) ps)) ?R \<and>
      fold spec_step (concat (map (\<lambda>p. codec_outlives_engine p e c) ps)) ?R =
        (\<lambda>q. if q \<in> set ps then Some ({#}, {#}) else ?R q)"
    by (intro Cons.IH fin) simp_all
  with codec_outlives_engine_spec [OF p] Cons.prems show ?case
    by (auto simp: history_ok_append)
qed

definition exhausted :: "u32 list \<Rightarrow> u32 \<Rightarrow> u32 \<Rightarrow> table" where
  "exhausted ps e c =
     fold table_step (concat (map (\<lambda>p. codec_outlives_engine p e c) ps)) init_clients"

text \<open>
  C27: ten distinct processes that each close their engine before their codec leave ten entries
  that record nothing and are never reused, and the table refuses every further process: it
  stays as it is when process \<open>p\<close> registers an engine, so that nothing of \<open>p\<close> is cleaned up
  when \<open>p\<close> dies. \<open>dce_unregister_codec\<close> lacks the test \<open>if (!c->refs) c->pid = 0\<close>.
\<close>

theorem codec_after_engine_exhausts_table:
  assumes "distinct ps" "0 \<notin> set ps" "length ps = 10" "e \<noteq> 0" "c \<noteq> 0"
    and "p \<noteq> 0" "p \<notin> set ps"
  shows "registry_of (exhausted ps e c) = (\<lambda>q. if q \<in> set ps then Some ({#}, {#}) else None) \<and>
     dce_register_engine (exhausted ps e c) p h = exhausted ps e c"
proof -
  let ?ops = "concat (map (\<lambda>q. codec_outlives_engine q e c) ps)"
  have spec: "history_ok ?ops Map.empty"
    "fold spec_step ?ops Map.empty = (\<lambda>q. if q \<in> set ps then Some ({#}, {#}) else None)"
    using fold_codec_outlives_engine [of ps Map.empty e c] assms(1-5) by auto
  then have inv: "table_inv (exhausted ps e c)"
    and R: "registry_of (exhausted ps e c) = (\<lambda>q. if q \<in> set ps then Some ({#}, {#}) else None)"
    using history_refines_from [OF init_clients_inv, of ?ops] by (simp_all add: exhausted_def)
  have "dom (registry_of (exhausted ps e c)) = set ps" by (auto simp: R split: if_splits)
  then have "get_client (exhausted ps e c) 0 = None"
    using free_entry_iff [OF inv] assms(1,3) by (simp add: distinct_card)
  moreover have "get_client (exhausted ps e c) p = None"
    using R assms(6,7) registry_None_iff [of p "exhausted ps e c"] by simp
  ultimately show ?thesis using R by (simp add: dce_register_engine_def)
qed

lemma codec_after_engine_exhausts_table_witness:
  "dce_register_engine (exhausted [1, 2, 3, 4, 5, 6, 7, 8, 9, 10] 5 6) 11 9 =
     exhausted [1, 2, 3, 4, 5, 6, 7, 8, 9, 10] 5 6"
  using codec_after_engine_exhausts_table [of "[1, 2, 3, 4, 5, 6, 7, 8, 9, 10]" 5 6 11 9] by simp

text \<open>Dropping as many recorded engines as are counted, but for one.\<close>

lemma refs_small: "n \<le> 20 \<Longrightarrow> of_nat n = (0 :: u32) \<longleftrightarrow> n = 0"
  by (rule of_nat_small_eq_0)

lemma drop_engines_one_left:
  assumes "c_refs c = of_nat (Suc (length hs))" "length hs \<le> 19"
  shows "c_refs (fold drop_engine hs c) = 1 \<and> c_pid (fold drop_engine hs c) = c_pid c"
  using assms
proof (induction hs arbitrary: c)
  case Nil
  then show ?case by simp
next
  case (Cons h hs)
  have "c_refs (drop_engine h c) = of_nat (Suc (length hs))" using Cons.prems by simp
  moreover from this have "c_refs (drop_engine h c) \<noteq> 0"
    using Cons.prems(2) of_nat_small_eq_0 [of "Suc (length hs)"] by (simp del: of_nat_Suc)
  then have "c_pid (drop_engine h c) = c_pid c" by (simp add: drop_engine_pid)
  ultimately show ?case using Cons.IH [of "drop_engine h c"] Cons.prems(2) by simp
qed

text \<open>
  A process with ten engines that opens an eleventh has it counted but not recorded: the
  engines recorded stay the same and the reference count goes up, so that after every recorded
  engine has been unregistered the entry is still the process's, with a count of one and nothing
  in it.
\<close>

lemma eleventh_engine_leaks_entry:
  assumes "client_inv c" "engine_room c = 0" "codecs_of c = {#}" "mset hs = engines_of c"
  shows "engines_of (add_engine h c) = engines_of c \<and>
     (let d = fold drop_engine hs (add_engine h c) in
        c_pid d = c_pid c \<and> c_refs d = 1 \<and> engines_of d = {#} \<and> codecs_of d = {#})"
proof -
  from assms(1) have ok: "client_ok c" by (simp add: client_inv_def)
  have full: "engines_of (add_engine h c) = engines_of c"
    using engs.add_full [OF ok assms(2)] by simp
  have len: "size (engines_of c) = length hs" using assms(4) by (metis size_mset)
  with client_sizes(1) [OF ok] have le: "length hs \<le> 10" by simp
  have "c_refs (add_engine h c) = of_nat (Suc (length hs))"
    using assms(1,3) len by (simp add: client_inv_def accounted_def)
  from drop_engines_one_left [OF this] le
  have "c_refs (fold drop_engine hs (add_engine h c)) = 1"
    "c_pid (fold drop_engine hs (add_engine h c)) = c_pid c" by simp_all
  moreover have "engines_of (fold drop_engine hs (add_engine h c)) = {#}"
    using engs.drop_all_handles [of "add_engine h c" hs] ok full assms(4) by simp
  moreover have "c_codecs (fold drop_engine hs x) = c_codecs x" for x
    by (induction hs arbitrary: x) simp_all
  ultimately show ?thesis using full assms(3) by (simp add: Let_def)
qed

definition full_client :: client where
  "full_client = \<lparr>c_pid = 4, c_refs = 10, c_engines = replicate 10 3, c_codecs = replicate 10 0\<rparr>"

lemma owned_replicate_same: "h \<noteq> 0 \<Longrightarrow> owned (replicate n h) = replicate_mset n h"
  by (induction n) (simp_all add: owned_Cons)

lemma full_client_engines: "engines_of full_client = mset (replicate 10 3)"
  by (simp add: full_client_def owned_replicate_same)

lemma full_client_inv: "client_inv full_client" "engine_room full_client = 0"
  by (simp_all add: client_inv_def client_ok_def accounted_def engine_room_def full_client_engines)
     (simp_all add: full_client_def)

lemma eleventh_engine_leaks_entry_witness:
  "c_pid (fold drop_engine (replicate 10 3) (add_engine 9 full_client)) = 4"
  using eleventh_engine_leaks_entry [of full_client "replicate 10 3" 9] full_client_inv
  by (simp add: full_client_engines Let_def) (simp add: full_client_def)

definition double_close :: "u32 \<Rightarrow> u32 \<Rightarrow> u32 \<Rightarrow> u32 \<Rightarrow> u32 \<Rightarrow> table_op list" where
  "double_close p e1 e2 q e3 = [Register_Engine p e1, Register_Engine p e2,
     Unregister_Engine p e1, Unregister_Engine p e1, Register_Engine q e3]"

lemma init_clients_Cons: "init_clients = free_client # replicate 9 free_client"
  by (simp add: init_clients_def numeral_nat)

lemma replicate_10: "replicate 10 (0::u32) = 0 # 0 # replicate 8 0"
  by (simp add: numeral_nat)

text \<open>The operations on the first entry of the table.\<close>

lemma get_client_Cons:
  "get_client (c # cl) r = (if c_pid c = r then Some 0 else map_option Suc (get_client cl r))"
  by (simp add: get_client_def)

lemma get_client_free: "get_client (replicate 9 free_client) r = (if r = 0 then Some 0 else None)"
  by (simp add: get_client_def free_client_def numeral_nat)

lemma first_entry_steps:
  "c_pid c = 0 \<Longrightarrow> p \<noteq> 0 \<Longrightarrow> get_client cl p = None \<Longrightarrow>
     dce_register_engine (c # cl) p h = new_client p h c # cl"
  "c_pid c = p \<Longrightarrow> dce_register_engine (c # cl) p h = add_engine h c # cl"
  "c_pid c = p \<Longrightarrow> dce_unregister_engine (c # cl) p h = drop_engine h c # cl"
  by (simp_all add: dce_register_engine_def dce_unregister_engine_def get_client_Cons)

lemma two_engines_dropped_twice:
  fixes p :: u32
  assumes "distinct [0, e1, e2]"
  defines "c \<equiv> drop_engine e1 (drop_engine e1 (add_engine e2 (new_client p e1 free_client)))"
  shows "c_pid c = 0" "c_engines c = 0 # e2 # replicate 8 0" "c_codecs c = replicate 10 0"
  using assms
  by (auto simp: drop_engine_pid new_client_def add_engine_def free_client_def replicate_10)

text \<open>
  C32: a process with two engines that closes one of them twice has its entry released while the
  other engine is recorded in it; the next process to register inherits that engine, and its
  cleanup will close it. The count goes down although nothing was found in the array.
\<close>

theorem double_close_hands_engine_over:
  assumes "distinct [0, p, q]" "distinct [0, e1, e2]" "e3 \<noteq> 0"
  shows "registry_of (fold table_step (double_close p e1 e2 q e3) init_clients) =
     [q \<mapsto> ({#e2, e3#}, {#})]"
proof -
  let ?c1 = "add_engine e2 (new_client p e1 free_client)"
  let ?c = "drop_engine e1 (drop_engine e1 ?c1)"
  note c = two_engines_dropped_twice [OF assms(2), of p]
  have "c_pid free_client = 0" "c_pid (new_client p e1 free_client) = p" "c_pid (drop_engine e1 ?c1) = p"
    by (simp_all add: free_client_def new_client_def drop_engine_pid)
  then have tab: "fold table_step (double_close p e1 e2 q e3) init_clients =
      new_client q e3 ?c # replicate 9 free_client"
    using assms(1) c(1)
    by (simp add: double_close_def init_clients_Cons first_entry_steps get_client_free)
  have "handles (new_client q e3 ?c) = ({#e2, e3#}, {#})"
    using c assms by (simp add: handles_def new_client_def owned_Cons add_mset_commute)
  moreover have "c_pid (new_client q e3 ?c) = q" by (simp add: new_client_def)
  ultimately have "registry_of (new_client q e3 ?c # replicate 9 free_client) r =
      [q \<mapsto> ({#e2, e3#}, {#})] r" for r
    using assms(1) by (cases "r = q") (simp_all add: registry_of_def get_client_Cons get_client_free)
  with tab show ?thesis by auto
qed

lemma double_close_hands_engine_over_witness:
  "registry_of (fold table_step (double_close 1 10 11 2 12) init_clients) = [2 \<mapsto> ({#11, 12#}, {#})]"
  by (rule double_close_hands_engine_over) simp_all

end
