(* ===== verification/Interleave.thy ===== *)
theory Interleave
  imports Client_History
begin

text \<open>
  Threads that share the client table. A thread runs an operation, of a type \<open>'o\<close>, one access to the table
  at a time, from place to place, of a type \<open>'p\<close>; a schedule is the list of the numbers of the threads in
  the order in which they take their steps. The locale \<open>entry_threads\<close> is the contract of operations
  of which each works on the entry of its own process: its step depends on that entry only and
  changes that entry only. Within it, operations of different processes do not disturb each other
  in any schedule: each is where it would be after as many steps alone.
\<close>

subsection \<open>Schedules\<close>

definition step_at ::
  "('o \<Rightarrow> 'p \<times> table \<Rightarrow> 'p \<times> table) \<Rightarrow> nat \<Rightarrow> ('o \<times> 'p) list \<times> table \<Rightarrow> ('o \<times> 'p) list \<times> table" where
  "step_at step t = (\<lambda>(ts, cl).
     if t < length ts then
       (case ts ! t of (op, p) \<Rightarrow>
          (case step op (p, cl) of (p', cl') \<Rightarrow> (ts[t := (op, p')], cl')))
     else (ts, cl))"

definition run_sched ::
  "('o \<Rightarrow> 'p \<times> table \<Rightarrow> 'p \<times> table) \<Rightarrow> nat list \<Rightarrow> ('o \<times> 'p) list \<times> table \<Rightarrow> ('o \<times> 'p) list \<times> table" where
  "run_sched step sched = fold (step_at step) sched"

lemma run_sched_simps [simp]:
  "run_sched step [] s = s" "run_sched step (t # sched) s = run_sched step sched (step_at step t s)"
  by (simp_all add: run_sched_def)

text \<open>A thread that runs alone takes as many steps as the schedule has turns for it.\<close>

lemma run_sched_single:
  "run_sched step sched ([(op, p)], cl) =
     (case (step op ^^ count_list sched 0) (p, cl) of (p', cl') \<Rightarrow> ([(op, p')], cl'))"
proof (induction sched arbitrary: p cl)
  case (Cons t sched)
  show ?case
  proof (cases "t = 0")
    case True
    obtain p1 cl1 where st: "step op (p, cl) = (p1, cl1)" by (metis surj_pair)
    have "(step op ^^ count_list (t # sched) 0) (p, cl) = (step op ^^ count_list sched 0) (p1, cl1)"
      using True by (simp add: st [symmetric] funpow_swap1)
    moreover have "step_at step t ([(op, p)], cl) = ([(op, p1)], cl1)" using True st by (simp add: step_at_def)
    ultimately show ?thesis using Cons.IH by simp
  next
    case False
    then show ?thesis using Cons.IH by (simp add: step_at_def)
  qed
qed simp

text \<open>A place that a thread does not leave.\<close>

definition final_at :: "('o \<Rightarrow> 'p \<times> table \<Rightarrow> 'p \<times> table) \<Rightarrow> 'o \<Rightarrow> 'p \<Rightarrow> bool" where
  "final_at step op p \<longleftrightarrow> (\<forall>cl. step op (p, cl) = (p, cl))"

lemma final_stays: "final_at step op p \<Longrightarrow> (step op ^^ n) (p, cl) = (p, cl)"
  by (induction n) (simp_all add: final_at_def)

lemma final_reached:
  assumes "(step op ^^ n) x = (p, cl)" "final_at step op p" "n \<le> m"
  shows "(step op ^^ m) x = (p, cl)"
proof -
  obtain k where "m = k + n" using assms(3) by (metis add.commute le_add_diff_inverse)
  then show ?thesis using final_stays [OF assms(2)] assms(1) by (simp add: funpow_add)
qed

text \<open>Reaching a state within a number of steps.\<close>

definition reaches :: "('s \<Rightarrow> 's) \<Rightarrow> nat \<Rightarrow> 's \<Rightarrow> 's \<Rightarrow> bool" where
  "reaches f n x y \<longleftrightarrow> (\<exists>k\<le>n. (f ^^ k) x = y)"

lemma reaches_refl: "reaches f n x x"
  unfolding reaches_def by (intro exI [of _ 0]) simp

lemma reaches_step: "reaches f n (f x) y \<Longrightarrow> reaches f (Suc n) x y"
proof -
  assume "reaches f n (f x) y"
  then obtain k where "k \<le> n" "(f ^^ k) (f x) = y" by (auto simp: reaches_def)
  then show ?thesis unfolding reaches_def by (intro exI [of _ "Suc k"]) (simp add: funpow_swap1)
qed

lemma reaches_trans: "reaches f n x y \<Longrightarrow> reaches f m y z \<Longrightarrow> reaches f (n + m) x z"
proof -
  assume "reaches f n x y" "reaches f m y z"
  then obtain j k where "j \<le> n" "(f ^^ j) x = y" "k \<le> m" "(f ^^ k) y = z" by (auto simp: reaches_def)
  then show ?thesis unfolding reaches_def by (intro exI [of _ "k + j"]) (simp add: funpow_add)
qed

lemma reaches_mono: "reaches f n x y \<Longrightarrow> n \<le> m \<Longrightarrow> reaches f m x y"
  by (auto simp: reaches_def intro: le_trans)

text \<open>A step of one machine that another takes in the same way carries over.\<close>

lemma reaches_embed:
  assumes "reaches f n x y" "\<And>z. f z \<noteq> z \<Longrightarrow> g (e z) = e (f z)"
  shows "reaches g n (e x) (e y)"
proof -
  obtain k where k: "k \<le> n" "(f ^^ k) x = y" using assms(1) by (auto simp: reaches_def)
  have "\<exists>j\<le>k. (g ^^ j) (e x) = e ((f ^^ k) x)"
  proof (induction k)
    case (Suc k)
    then obtain j where j: "j \<le> k" "(g ^^ j) (e x) = e ((f ^^ k) x)" by blast
    show ?case
    proof (cases "f ((f ^^ k) x) = (f ^^ k) x")
      case True
      with j show ?thesis by (intro exI [of _ j]) simp
    next
      case False
      with j assms(2) show ?thesis by (intro exI [of _ "Suc j"]) simp
    qed
  qed simp
  with k show ?thesis unfolding reaches_def by (meson le_trans)
qed

subsection \<open>Operations that work on an entry each\<close>

text \<open>No other entry is of this process.\<close>

definition sole :: "u32 \<Rightarrow> nat \<Rightarrow> table \<Rightarrow> bool" where
  "sole pid i cl \<longleftrightarrow> (\<forall>j<length cl. j \<noteq> i \<longrightarrow> c_pid (cl ! j) \<noteq> pid)"

lemma sole_distinct: "pids_distinct cl \<Longrightarrow> get_client cl pid = Some i \<Longrightarrow> pid \<noteq> 0 \<Longrightarrow> sole pid i cl"
  unfolding sole_def pids_distinct_def by (metis get_client_SomeD)

locale entry_threads =
  fixes step :: "'o \<Rightarrow> 'p \<times> table \<Rightarrow> 'p \<times> table"
    and start :: "'o \<Rightarrow> 'p"
    and pid_of :: "'o \<Rightarrow> u32"
    and inside :: "'o \<Rightarrow> nat \<Rightarrow> 'p \<Rightarrow> client \<Rightarrow> bool"
  assumes enter: "get_client cl (pid_of op) = Some i \<Longrightarrow> inside op i (start op) (cl ! i)"
    and local_step: "inside op i p (cl ! i) \<Longrightarrow> i < length cl \<Longrightarrow> length cl' = length cl \<Longrightarrow> cl' ! i = cl ! i \<Longrightarrow>
      sole (pid_of op) i cl \<Longrightarrow> sole (pid_of op) i cl' \<Longrightarrow>
      \<exists>p' c. step op (p, cl) = (p', cl[i := c]) \<and> step op (p, cl') = (p', cl'[i := c]) \<and>
        inside op i p' c \<and> (c_pid c = c_pid (cl ! i) \<or> c_pid c = 0)"
begin

definition begin_all :: "'o list \<Rightarrow> ('o \<times> 'p) list" where
  "begin_all ops = map (\<lambda>op. (op, start op)) ops"

text \<open>The operations \<open>ops\<close> are of different processes, whose entries are \<open>ix\<close>.\<close>

definition entries :: "table \<Rightarrow> 'o list \<Rightarrow> nat list \<Rightarrow> bool" where
  "entries cl ops ix \<longleftrightarrow> length ix = length ops \<and> distinct ix \<and>
     (\<forall>t<length ops. pid_of (ops ! t) \<noteq> 0 \<and> get_client cl (pid_of (ops ! t)) = Some (ix ! t) \<and>
        sole (pid_of (ops ! t)) (ix ! t) cl)"

text \<open>
  Each has come as far as it would have come alone in \<open>k\<close> steps, its entry is what it would be
  then, and the entries of no operation are as they were.
\<close>

definition apart :: "table \<Rightarrow> 'o list \<Rightarrow> nat list \<Rightarrow> (nat \<Rightarrow> nat) \<Rightarrow> ('o \<times> 'p) list \<times> table \<Rightarrow> bool" where
  "apart cl0 ops ix k = (\<lambda>(ts, cl).
     length cl = length cl0 \<and> map fst ts = ops \<and>
     (\<forall>t<length ops. (step (ops ! t) ^^ k t) (start (ops ! t), cl0) = (snd (ts ! t), cl0[ix ! t := cl ! (ix ! t)]) \<and>
        inside (ops ! t) (ix ! t) (snd (ts ! t)) (cl ! (ix ! t))) \<and>
     (\<forall>j<length cl0. c_pid (cl ! j) = c_pid (cl0 ! j) \<or> c_pid (cl ! j) = 0) \<and>
     (\<forall>j<length cl0. j \<notin> set ix \<longrightarrow> cl ! j = cl0 ! j))"

lemma entriesD:
  assumes "entries cl ops ix" "t < length ops"
  shows "pid_of (ops ! t) \<noteq> 0" "ix ! t < length cl" "sole (pid_of (ops ! t)) (ix ! t) cl"
    "get_client cl (pid_of (ops ! t)) = Some (ix ! t)"
  using assms get_client_SomeD by (auto simp: entries_def)

lemma entries_known:
  assumes "table_inv cl" "distinct (map pid_of ops)"
    and known: "\<And>op. op \<in> set ops \<Longrightarrow> pid_of op \<noteq> 0 \<and> get_client cl (pid_of op) \<noteq> None"
  shows "entries cl ops (map (\<lambda>op. the (get_client cl (pid_of op))) ops)"
proof -
  have at: "get_client cl (pid_of op) = Some (the (get_client cl (pid_of op)))" if "op \<in> set ops" for op
    using known [OF that] by auto
  have "inj_on (\<lambda>op. the (get_client cl (pid_of op))) (set ops)"
    using assms(2) at get_client_SomeD by (intro inj_onI) (metis distinct_map inj_on_def)
  moreover have "sole (pid_of op) (the (get_client cl (pid_of op))) cl" if "op \<in> set ops" for op
    using sole_distinct [OF table_inv_distinct [OF assms(1)] at [OF that]] known [OF that] by blast
  ultimately show ?thesis using assms(2) at known by (simp add: entries_def distinct_map)
qed

lemma apart_start: "entries cl ops ix \<Longrightarrow> apart cl ops ix (\<lambda>t. 0) (begin_all ops, cl)"
  using entriesD enter by (auto simp: apart_def begin_all_def comp_def)

lemma apart_step:
  assumes on: "entries cl0 ops ix" and sep: "apart cl0 ops ix k s"
  shows "apart cl0 ops ix (k(t := Suc (k t))) (step_at step t s) \<or> length ops \<le> t \<and> step_at step t s = s"
proof (cases "t < length ops")
  case t: True
  obtain ts cl where s: "s = (ts, cl)" by (cases s)
  from sep have ops: "map fst ts = ops" and len: "length cl = length cl0" by (auto simp: s apart_def)
  then have lt: "t < length ts" using t by auto
  let ?i = "ix ! t" and ?op = "ops ! t" and ?p = "snd (ts ! t)"
  let ?cl' = "cl0[?i := cl ! ?i]"
  note D = entriesD [OF on t]
  from sep t have st: "(step ?op ^^ k t) (start ?op, cl0) = (?p, ?cl')" "inside ?op ?i ?p (cl ! ?i)"
    by (auto simp: s apart_def)
  have pid: "c_pid (cl ! j) = c_pid (cl0 ! j) \<or> c_pid (cl ! j) = 0" if "j < length cl0" for j
    using sep that by (auto simp: s apart_def)
  have "sole (pid_of ?op) ?i cl" using D(1,3) pid len unfolding sole_def by metis
  moreover have "sole (pid_of ?op) ?i ?cl'" using D(3) by (simp add: sole_def)
  ultimately obtain p' c where c: "step ?op (?p, cl) = (p', cl[?i := c])" "step ?op (?p, ?cl') = (p', cl0[?i := c])"
    "inside ?op ?i p' c" "c_pid c = c_pid (cl ! ?i) \<or> c_pid c = 0"
    using local_step [of ?op ?i ?p cl ?cl'] st(2) D(2) len by auto
  obtain p where p: "ts ! t = (?op, p)" using ops lt by (metis nth_map prod.collapse)
  then have step: "step_at step t s = (ts[t := (?op, p')], cl[?i := c])"
    using c(1) lt by (simp add: s step_at_def)
  have "map fst (ts[t := (?op, p')]) = ops" using ops by (simp add: map_update)
  moreover have "(step (ops ! u) ^^ (k(t := Suc (k t))) u) (start (ops ! u), cl0) =
        (snd (ts[t := (?op, p')] ! u), cl0[ix ! u := cl[?i := c] ! (ix ! u)]) \<and>
      inside (ops ! u) (ix ! u) (snd (ts[t := (?op, p')] ! u)) (cl[?i := c] ! (ix ! u))"
    if u: "u < length ops" for u
  proof (cases "u = t")
    case True
    with lt c D(2) len st(1) show ?thesis by simp
  next
    case False
    then have "ix ! u \<noteq> ?i" using on t u by (simp add: entries_def nth_eq_iff_index_eq)
    with False sep u show ?thesis by (simp add: s apart_def)
  qed
  moreover have "c_pid (cl[?i := c] ! j) = c_pid (cl0 ! j) \<or> c_pid (cl[?i := c] ! j) = 0" if "j < length cl0" for j
    using pid [OF that] pid [of ?i] c(4) len that by (cases "j = ?i") auto
  moreover have "cl[?i := c] ! j = cl0 ! j" if "j < length cl0" "j \<notin> set ix" for j
  proof -
    have "j \<noteq> ?i" using that(2) on t by (auto simp: entries_def)
    with that sep show ?thesis by (simp add: s apart_def)
  qed
  ultimately have "apart cl0 ops ix (k(t := Suc (k t))) (step_at step t s)"
    using len unfolding step apart_def by auto
  then show ?thesis ..
next
  case False
  moreover have "length (fst s) = length ops" using sep by (auto simp: apart_def)
  ultimately show ?thesis by (cases s) (simp add: step_at_def)
qed

lemma apart_cong: "(\<And>t. t < length ops \<Longrightarrow> k t = k' t) \<Longrightarrow> apart cl0 ops ix k s = apart cl0 ops ix k' s"
  by (auto simp: apart_def)

lemma apart_run:
  assumes "entries cl0 ops ix"
  shows "apart cl0 ops ix k s \<Longrightarrow> apart cl0 ops ix (\<lambda>t. k t + count_list sched t) (run_sched step sched s)"
proof (induction sched arbitrary: k s)
  case (Cons t sched)
  from apart_step [OF assms Cons.prems, of t] show ?case
  proof
    assume "apart cl0 ops ix (k(t := Suc (k t))) (step_at step t s)"
    from Cons.IH [OF this] have "apart cl0 ops ix (\<lambda>u. (k(t := Suc (k t))) u + count_list sched u)
      (run_sched step (t # sched) s)" by (simp only: run_sched_simps)
    moreover have "(\<lambda>u. (k(t := Suc (k t))) u + count_list sched u) = (\<lambda>u. k u + count_list (t # sched) u)"
      by (auto simp: fun_eq_iff)
    ultimately show ?case by (simp only:)
  next
    assume t: "length ops \<le> t \<and> step_at step t s = s"
    then have "apart cl0 ops ix (\<lambda>u. k u + count_list (t # sched) u) =
        apart cl0 ops ix (\<lambda>u. k u + count_list sched u)"
      by (intro ext apart_cong) auto
    with t Cons show ?case by simp
  qed
qed simp

text \<open>
  When each operation would reach a final place alone, and each gets as many turns as that takes, all
  reach it, and the table has the entries they would have left.
\<close>

lemma all_reach:
  assumes on: "entries cl0 ops ix"
    and alone: "\<And>t. t < length ops \<Longrightarrow> reaches (step (ops ! t)) n (start (ops ! t), cl0) (fin (ops ! t), res (ops ! t))"
    and final: "\<And>op. op \<in> set ops \<Longrightarrow> final_at step op (fin op)"
    and fair: "\<And>t. t < length ops \<Longrightarrow> n \<le> count_list sched t"
  shows "\<exists>cl. run_sched step sched (begin_all ops, cl0) = (map (\<lambda>op. (op, fin op)) ops, cl) \<and> length cl = length cl0 \<and>
     (\<forall>t<length ops. res (ops ! t) = cl0[ix ! t := cl ! (ix ! t)]) \<and>
     (\<forall>j<length cl0. j \<notin> set ix \<longrightarrow> cl ! j = cl0 ! j)"
proof -
  obtain ts cl where run: "run_sched step sched (begin_all ops, cl0) = (ts, cl)" by (metis surj_pair)
  have sep: "apart cl0 ops ix (\<lambda>t. 0 + count_list sched t) (ts, cl)"
    using apart_run [OF on apart_start [OF on], of sched] run by simp
  have ops: "map fst ts = ops" using sep by (simp add: apart_def)
  have at: "snd (ts ! t) = fin (ops ! t) \<and> res (ops ! t) = cl0[ix ! t := cl ! (ix ! t)]" if t: "t < length ops" for t
  proof -
    obtain m where "m \<le> n" "(step (ops ! t) ^^ m) (start (ops ! t), cl0) = (fin (ops ! t), res (ops ! t))"
      using alone [OF t] by (auto simp: reaches_def)
    with final_reached [OF this(2) final] fair [OF t] t
    have "(step (ops ! t) ^^ count_list sched t) (start (ops ! t), cl0) = (fin (ops ! t), res (ops ! t))"
      by (metis le_trans nth_mem)
    with sep t show ?thesis by (simp add: apart_def)
  qed
  have "ts = map (\<lambda>op. (op, fin op)) ops"
  proof (rule nth_equalityI)
    show "length ts = length (map (\<lambda>op. (op, fin op)) ops)" using ops by auto
    fix t
    assume "t < length ts"
    with at [of t] ops show "ts ! t = map (\<lambda>op. (op, fin op)) ops ! t" by (auto simp: prod_eq_iff)
  qed
  with run at sep show ?thesis by (auto simp: apart_def)
qed

end

end
