(* ===== verification/Table_Threads.thy ===== *)
theory Table_Threads
  imports Interleave
begin

text \<open>
  The functions of the client table as concurrent threads run them (\<^verbatim>\<open>dce.c\<close>, lines 204-323).
  The server is created with a pool of three workers, the cleanup callback is called by the power
  manager, and none of the functions takes a lock (a comment in each says that it should have a
  critical section). The theory takes this at its word: threads run the functions at the same
  time, and their steps interleave in any way. A step is one access to the table: the test of a \<open>pid\<close> or of a handle, the load and the store of
  \<open>refs\<close>, a store to \<open>pid\<close>, \<open>refs\<close> or an array. The lemmas: a call that runs alone does what the
  function of \<^verbatim>\<open>Client_Table\<close> says; calls of different processes that are already in the table do
  not disturb each other in any interleaving; first calls of two processes do.
\<close>

subsection \<open>Threads\<close>

fun op_pid :: "table_op \<Rightarrow> u32" where
  "op_pid (Register_Engine pid h) = pid"
| "op_pid (Unregister_Engine pid h) = pid"
| "op_pid (Register_Codec pid h) = pid"
| "op_pid (Unregister_Codec pid h) = pid"

text \<open>What the functions do to the entry of a process that has one.\<close>

fun entry_op :: "table_op \<Rightarrow> client \<Rightarrow> client" where
  "entry_op (Register_Engine pid h) = add_engine h"
| "entry_op (Unregister_Engine pid h) = drop_engine h"
| "entry_op (Register_Codec pid h) = add_codec h"
| "entry_op (Unregister_Codec pid h) = drop_codec h"

text \<open>The place of a thread: what it is about to do, with its locals \<open>c\<close>, \<open>i\<close> and a loaded value.\<close>

datatype place =
    Find nat                \<comment> \<open>test of \<open>clients[i].pid == pid\<close> in \<open>get_client(pid)\<close>\<close>
  | Find_Free nat           \<comment> \<open>the same in \<open>get_client(0)\<close>\<close>
  | Scan nat nat            \<comment> \<open>test of an element of the array of \<open>c\<close>\<close>
  | Put nat nat             \<comment> \<open>store to that element\<close>
  | Load_Refs nat           \<comment> \<open>load of \<open>c->refs\<close> in \<open>c->refs++\<close> or \<open>c->refs--\<close>\<close>
  | Store_Refs nat u32      \<comment> \<open>store of the value loaded, plus or minus one\<close>
  | Test_Refs nat           \<comment> \<open>\<open>if (! c->refs)\<close>\<close>
  | Clear_Pid nat           \<comment> \<open>\<open>c->pid = 0\<close>\<close>
  | Claim_Pid nat           \<comment> \<open>\<open>c->pid = pid\<close>\<close>
  | Claim_Refs nat          \<comment> \<open>\<open>c->refs = 1\<close>\<close>
  | Claim_Engine nat        \<comment> \<open>\<open>c->engines[0] = engine\<close>\<close>
  | Done

fun register_engine_step :: "u32 \<Rightarrow> u32 \<Rightarrow> place \<Rightarrow> table \<Rightarrow> place \<times> table" where
  "register_engine_step pid engine (Find i) cl =
     (if i < length cl then if c_pid (cl ! i) = pid then Load_Refs i else Find (Suc i)
      else Find_Free 0, cl)"
| "register_engine_step pid engine (Load_Refs c) cl = (Store_Refs c (c_refs (cl ! c) + 1), cl)"
| "register_engine_step pid engine (Store_Refs c v) cl = (Scan c 0, cl[c := (cl ! c)\<lparr>c_refs := v\<rparr>])"
| "register_engine_step pid engine (Scan c i) cl =
     (if i < length (c_engines (cl ! c))
      then if c_engines (cl ! c) ! i = 0 then Put c i else Scan c (Suc i)
      else Done, cl)"
| "register_engine_step pid engine (Put c i) cl =
     (Done, cl[c := (cl ! c)\<lparr>c_engines := (c_engines (cl ! c))[i := engine]\<rparr>])"
| "register_engine_step pid engine (Find_Free i) cl =
     (if i < length cl then if c_pid (cl ! i) = 0 then Claim_Pid i else Find_Free (Suc i)
      else Done, cl)"
| "register_engine_step pid engine (Claim_Pid c) cl = (Claim_Refs c, cl[c := (cl ! c)\<lparr>c_pid := pid\<rparr>])"
| "register_engine_step pid engine (Claim_Refs c) cl = (Claim_Engine c, cl[c := (cl ! c)\<lparr>c_refs := 1\<rparr>])"
| "register_engine_step pid engine (Claim_Engine c) cl =
     (Done, cl[c := (cl ! c)\<lparr>c_engines := (c_engines (cl ! c))[0 := engine]\<rparr>])"
| "register_engine_step pid engine _ cl = (Done, cl)"

fun unregister_engine_step :: "u32 \<Rightarrow> u32 \<Rightarrow> place \<Rightarrow> table \<Rightarrow> place \<times> table" where
  "unregister_engine_step pid engine (Find i) cl =
     (if i < length cl then if c_pid (cl ! i) = pid then Scan i 0 else Find (Suc i)
      else Done, cl)"
| "unregister_engine_step pid engine (Scan c i) cl =
     (if i < length (c_engines (cl ! c))
      then if c_engines (cl ! c) ! i = engine then Put c i else Scan c (Suc i)
      else Load_Refs c, cl)"
| "unregister_engine_step pid engine (Put c i) cl =
     (Load_Refs c, cl[c := (cl ! c)\<lparr>c_engines := (c_engines (cl ! c))[i := 0]\<rparr>])"
| "unregister_engine_step pid engine (Load_Refs c) cl = (Store_Refs c (c_refs (cl ! c) - 1), cl)"
| "unregister_engine_step pid engine (Store_Refs c v) cl =
     (Test_Refs c, cl[c := (cl ! c)\<lparr>c_refs := v\<rparr>])"
| "unregister_engine_step pid engine (Test_Refs c) cl =
     (if c_refs (cl ! c) = 0 then Clear_Pid c else Done, cl)"
| "unregister_engine_step pid engine (Clear_Pid c) cl = (Done, cl[c := (cl ! c)\<lparr>c_pid := 0\<rparr>])"
| "unregister_engine_step pid engine _ cl = (Done, cl)"

fun register_codec_step :: "u32 \<Rightarrow> u32 \<Rightarrow> place \<Rightarrow> table \<Rightarrow> place \<times> table" where
  "register_codec_step pid codec (Find i) cl =
     (if i < length cl then if c_pid (cl ! i) = pid then Load_Refs i else Find (Suc i)
      else Done, cl)"
| "register_codec_step pid codec (Load_Refs c) cl = (Store_Refs c (c_refs (cl ! c) + 1), cl)"
| "register_codec_step pid codec (Store_Refs c v) cl = (Scan c 0, cl[c := (cl ! c)\<lparr>c_refs := v\<rparr>])"
| "register_codec_step pid codec (Scan c i) cl =
     (if i < length (c_codecs (cl ! c))
      then if c_codecs (cl ! c) ! i = 0 then Put c i else Scan c (Suc i)
      else Done, cl)"
| "register_codec_step pid codec (Put c i) cl =
     (Done, cl[c := (cl ! c)\<lparr>c_codecs := (c_codecs (cl ! c))[i := codec]\<rparr>])"
| "register_codec_step pid codec _ cl = (Done, cl)"

fun unregister_codec_step :: "u32 \<Rightarrow> u32 \<Rightarrow> place \<Rightarrow> table \<Rightarrow> place \<times> table" where
  "unregister_codec_step pid codec (Find i) cl =
     (if i < length cl then if c_pid (cl ! i) = pid then Scan i 0 else Find (Suc i)
      else Done, cl)"
| "unregister_codec_step pid codec (Scan c i) cl =
     (if i < length (c_codecs (cl ! c))
      then if c_codecs (cl ! c) ! i = codec then Put c i else Scan c (Suc i)
      else Load_Refs c, cl)"
| "unregister_codec_step pid codec (Put c i) cl =
     (Load_Refs c, cl[c := (cl ! c)\<lparr>c_codecs := (c_codecs (cl ! c))[i := 0]\<rparr>])"
| "unregister_codec_step pid codec (Load_Refs c) cl = (Store_Refs c (c_refs (cl ! c) - 1), cl)"
| "unregister_codec_step pid codec (Store_Refs c v) cl = (Done, cl[c := (cl ! c)\<lparr>c_refs := v\<rparr>])"
| "unregister_codec_step pid codec _ cl = (Done, cl)"

fun thread_step :: "table_op \<Rightarrow> place \<times> table \<Rightarrow> place \<times> table" where
  "thread_step (Register_Engine pid h) (p, cl) = register_engine_step pid h p cl"
| "thread_step (Unregister_Engine pid h) (p, cl) = unregister_engine_step pid h p cl"
| "thread_step (Register_Codec pid h) (p, cl) = register_codec_step pid h p cl"
| "thread_step (Unregister_Codec pid h) (p, cl) = unregister_codec_step pid h p cl"

lemma thread_step_Done [simp]: "thread_step op (Done, cl) = (Done, cl)"
  by (cases op) simp_all

subsection \<open>A call that runs alone\<close>

abbreviation steps_to :: "table_op \<Rightarrow> place \<times> table \<Rightarrow> place \<times> table \<Rightarrow> bool" where
  "steps_to op \<equiv> (\<lambda>x y. thread_step op x = y)\<^sup>*\<^sup>*"

lemma steps_to_step: "steps_to op (thread_step op x) y \<Longrightarrow> steps_to op x y"
  by (rule converse_rtranclp_into_rtranclp [of _ x "thread_step op x"]) simp_all

lemma steps_to_n: "(thread_step op ^^ n) x = y \<Longrightarrow> steps_to op x y"
  by (induction n arbitrary: y) (auto intro: rtranclp.rtrancl_into_rtrancl)

lemma set_first_find_index:
  "set_first q v xs = (case find_index q xs of Some i \<Rightarrow> xs[i := v] | None \<Rightarrow> xs)"
  by (induction xs) (auto split: option.splits)

lemma find_index_first:
  assumes "k < length xs" "q (xs ! k)" "\<forall>j<k. \<not> q (xs ! j)"
  shows "find_index q xs = Some k"
proof (cases "find_index q xs")
  case (Some i)
  from find_index_Some [OF Some] assms show ?thesis using Some by (metis linorder_neqE_nat)
qed (use assms in \<open>auto simp: find_index_None_nth\<close>)

text \<open>A loop that looks for the first element with a property.\<close>

lemma search_from:
  assumes "\<And>i. thread_step op (P i, cl) =
      (if i < length xs then if q (xs ! i) then H i else P (Suc i) else M, cl)"
  shows "k \<le> length xs \<Longrightarrow> (\<forall>j<k. \<not> q (xs ! j)) \<Longrightarrow>
     steps_to op (P k, cl) (case find_index q xs of Some i \<Rightarrow> H i | None \<Rightarrow> M, cl)"
proof (induction "length xs - k" arbitrary: k)
  case 0
  then have k: "k = length xs" by simp
  with 0(3) have "find_index q xs = None" by (metis find_index_None_nth)
  with k show ?case by - (rule steps_to_step, simp add: assms)
next
  case (Suc n)
  then have lt: "k < length xs" by simp
  show ?case
  proof (cases "q (xs ! k)")
    case True
    with Suc.prems Suc.hyps(2) have "find_index q xs = Some k"
      by (intro find_index_first) auto
    with True lt show ?thesis by - (rule steps_to_step, simp add: assms)
  next
    case False
    with Suc have "steps_to op (P (Suc k), cl) (case find_index q xs of Some i \<Rightarrow> H i | None \<Rightarrow> M, cl)"
      by (intro Suc.hyps(1)) (auto simp: less_Suc_eq)
    with False lt show ?thesis by - (rule steps_to_step, simp add: assms)
  qed
qed

lemmas search = search_from [where k = 0, simplified]

lemma find_loop:
  "steps_to op (Find 0, cl)
     (case get_client cl (op_pid op) of
        Some i \<Rightarrow> (case op of Register_Engine _ _ \<Rightarrow> Load_Refs i | Register_Codec _ _ \<Rightarrow> Load_Refs i | _ \<Rightarrow> Scan i 0)
      | None \<Rightarrow> (case op of Register_Engine _ _ \<Rightarrow> Find_Free 0 | _ \<Rightarrow> Done), cl)"
  unfolding get_client_def by (rule search) (simp split: table_op.split)

lemma find_free_loop:
  "steps_to (Register_Engine pid h) (Find_Free 0, cl)
     (case get_client cl 0 of Some i \<Rightarrow> Claim_Pid i | None \<Rightarrow> Done, cl)"
  unfolding get_client_def by (rule search) simp

lemma scan_loops:
  "steps_to (Register_Engine pid h) (Scan c 0, cl)
     (case find_index (\<lambda>e. e = 0) (c_engines (cl ! c)) of Some i \<Rightarrow> Put c i | None \<Rightarrow> Done, cl)"
  "steps_to (Unregister_Engine pid h) (Scan c 0, cl)
     (case find_index (\<lambda>e. e = h) (c_engines (cl ! c)) of Some i \<Rightarrow> Put c i | None \<Rightarrow> Load_Refs c, cl)"
  "steps_to (Register_Codec pid h) (Scan c 0, cl)
     (case find_index (\<lambda>e. e = 0) (c_codecs (cl ! c)) of Some i \<Rightarrow> Put c i | None \<Rightarrow> Done, cl)"
  "steps_to (Unregister_Codec pid h) (Scan c 0, cl)
     (case find_index (\<lambda>e. e = h) (c_codecs (cl ! c)) of Some i \<Rightarrow> Put c i | None \<Rightarrow> Load_Refs c, cl)"
  by (rule search, simp)+

text \<open>The part of a call that works on an entry, and the part that claims a free one.\<close>

lemma register_part:
  assumes i: "i < length cl"
  shows "steps_to (Register_Engine pid h) (Load_Refs i, cl) (Done, cl[i := add_engine h (cl ! i)])"
    and "steps_to (Register_Codec pid h) (Load_Refs i, cl) (Done, cl[i := add_codec h (cl ! i)])"
proof -
  let ?cl = "cl[i := (cl ! i)\<lparr>c_refs := c_refs (cl ! i) + 1\<rparr>]"
  have "steps_to (Register_Engine pid h) (Load_Refs i, cl) (Scan i 0, ?cl)"
    by (rule steps_to_n [of 2]) (simp add: numeral_2_eq_2)
  also have "steps_to (Register_Engine pid h) \<dots>
      (case find_index (\<lambda>e. e = 0) (c_engines (cl ! i)) of Some k \<Rightarrow> Put i k | None \<Rightarrow> Done, ?cl)"
    using scan_loops(1) [of pid h i ?cl] i by simp
  also have "steps_to (Register_Engine pid h) \<dots> (Done, cl[i := add_engine h (cl ! i)])"
    by (rule steps_to_n [of 1])
      (use i in \<open>simp split: option.split add: add_engine_def set_first_find_index\<close>)
  finally show "steps_to (Register_Engine pid h) (Load_Refs i, cl) (Done, cl[i := add_engine h (cl ! i)])" .
  have "steps_to (Register_Codec pid h) (Load_Refs i, cl) (Scan i 0, ?cl)"
    by (rule steps_to_n [of 2]) (simp add: numeral_2_eq_2)
  also have "steps_to (Register_Codec pid h) \<dots>
      (case find_index (\<lambda>e. e = 0) (c_codecs (cl ! i)) of Some k \<Rightarrow> Put i k | None \<Rightarrow> Done, ?cl)"
    using scan_loops(3) [of pid h i ?cl] i by simp
  also have "steps_to (Register_Codec pid h) \<dots> (Done, cl[i := add_codec h (cl ! i)])"
    by (rule steps_to_n [of 1])
      (use i in \<open>simp split: option.split add: add_codec_def set_first_find_index\<close>)
  finally show "steps_to (Register_Codec pid h) (Load_Refs i, cl) (Done, cl[i := add_codec h (cl ! i)])" .
qed

lemma unregister_part:
  assumes i: "i < length cl"
  shows "steps_to (Unregister_Engine pid h) (Scan i 0, cl) (Done, cl[i := drop_engine h (cl ! i)])"
    and "steps_to (Unregister_Codec pid h) (Scan i 0, cl) (Done, cl[i := drop_codec h (cl ! i)])"
proof -
  let ?e = "cl[i := (cl ! i)\<lparr>c_engines := set_first (\<lambda>e. e = h) 0 (c_engines (cl ! i))\<rparr>]"
  note scan_loops(2) [of pid h i cl]
  also have "steps_to (Unregister_Engine pid h)
      (case find_index (\<lambda>e. e = h) (c_engines (cl ! i)) of Some k \<Rightarrow> Put i k | None \<Rightarrow> Load_Refs i, cl)
      (Load_Refs i, ?e)"
    by (cases "find_index (\<lambda>e. e = h) (c_engines (cl ! i))")
      (use i in \<open>auto simp: set_first_find_index intro: steps_to_n [of 1]\<close>)
  also have "steps_to (Unregister_Engine pid h) (Load_Refs i, ?e) (Done, cl[i := drop_engine h (cl ! i)])"
    by (rule steps_to_n [of 4]) (use i in \<open>simp add: eval_nat_numeral drop_engine_def Let_def\<close>)
  finally show "steps_to (Unregister_Engine pid h) (Scan i 0, cl) (Done, cl[i := drop_engine h (cl ! i)])" .
  let ?c = "cl[i := (cl ! i)\<lparr>c_codecs := set_first (\<lambda>e. e = h) 0 (c_codecs (cl ! i))\<rparr>]"
  note scan_loops(4) [of pid h i cl]
  also have "steps_to (Unregister_Codec pid h)
      (case find_index (\<lambda>e. e = h) (c_codecs (cl ! i)) of Some k \<Rightarrow> Put i k | None \<Rightarrow> Load_Refs i, cl)
      (Load_Refs i, ?c)"
    by (cases "find_index (\<lambda>e. e = h) (c_codecs (cl ! i))")
      (use i in \<open>auto simp: set_first_find_index intro: steps_to_n [of 1]\<close>)
  also have "steps_to (Unregister_Codec pid h) (Load_Refs i, ?c) (Done, cl[i := drop_codec h (cl ! i)])"
    by (rule steps_to_n [of 2]) (use i in \<open>simp add: numeral_2_eq_2 drop_codec_def\<close>)
  finally show "steps_to (Unregister_Codec pid h) (Scan i 0, cl) (Done, cl[i := drop_codec h (cl ! i)])" .
qed

lemma claim_part:
  assumes "i < length cl"
  shows "steps_to (Register_Engine pid h) (Claim_Pid i, cl) (Done, cl[i := new_client pid h (cl ! i)])"
  by (rule steps_to_n [of 3]) (use assms in \<open>simp add: eval_nat_numeral new_client_def\<close>)

text \<open>Without other threads a call does what the function does.\<close>

lemma alone_steps: "steps_to op (Find 0, cl) (Done, table_step op cl)"
proof (cases "get_client cl (op_pid op)")
  case (Some i)
  note i = get_client_SomeD [OF Some, THEN conjunct1]
  note found = find_loop [of op cl]
  show ?thesis
    by (rule rtranclp_trans [OF found])
      (cases op; use Some i in \<open>simp add: register_part unregister_part dce_register_engine_def
        dce_unregister_engine_def dce_register_codec_def dce_unregister_codec_def\<close>)
next
  case None
  have new: "steps_to (Register_Engine pid h) (Find_Free 0, cl) (Done, table_step (Register_Engine pid h) cl)"
    if "get_client cl pid = None" for pid h
    by (rule rtranclp_trans [OF find_free_loop])
      (use that claim_part in \<open>auto simp: dce_register_engine_def dest: get_client_SomeD split: option.split\<close>)
  show ?thesis
    by (rule rtranclp_trans [OF find_loop])
      (cases op; use None new in \<open>simp add: dce_unregister_engine_def dce_register_codec_def
        dce_unregister_codec_def\<close>)
qed

lemma steps_to_funpow: "steps_to op x y \<Longrightarrow> \<exists>n. (thread_step op ^^ n) x = y"
proof (induction rule: rtranclp_induct)
  case base
  then show ?case by (intro exI [of _ 0]) simp
next
  case (step y z)
  then obtain n where "(thread_step op ^^ n) x = y" by auto
  with step.hyps(2) show ?case by (intro exI [of _ "Suc n"]) simp
qed

lemma funpow_Done [simp]: "(thread_step op ^^ n) (Done, cl) = (Done, cl)"
  by (induction n) simp_all

text \<open>The table at the end of a call does not depend on how it is reached.\<close>

lemma Done_unique:
  assumes "steps_to op x (Done, cl)" "steps_to op x (Done, cl')"
  shows "cl = cl'"
proof -
  obtain n m where "(thread_step op ^^ n) x = (Done, cl)" "(thread_step op ^^ m) x = (Done, cl')"
    using steps_to_funpow assms by meson
  then have "(thread_step op ^^ (m + n)) x = (Done, cl)" "(thread_step op ^^ (n + m)) x = (Done, cl')"
    by (simp_all only: funpow_add o_apply funpow_Done)
  then show ?thesis by (simp add: add.commute)
qed

subsection \<open>The number of steps\<close>

text \<open>How many steps a call still takes at most, on tables with ten entries of ten handles.\<close>

fun steps_left :: "table_op \<Rightarrow> place \<Rightarrow> nat" where
  "steps_left (Register_Engine _ _) (Find i) = 15 + (10 - i)"
| "steps_left (Register_Codec _ _) (Find i) = 15 + (10 - i)"
| "steps_left _ (Find i) = 17 + (10 - i)"
| "steps_left _ (Find_Free i) = 4 + (10 - i)"
| "steps_left _ (Claim_Pid _) = 3"
| "steps_left _ (Claim_Refs _) = 2"
| "steps_left _ (Claim_Engine _) = 1"
| "steps_left (Unregister_Engine _ _) (Load_Refs _) = 4"
| "steps_left (Unregister_Engine _ _) (Store_Refs _ _) = 3"
| "steps_left (Unregister_Codec _ _) (Load_Refs _) = 4"
| "steps_left (Unregister_Codec _ _) (Store_Refs _ _) = 3"
| "steps_left _ (Load_Refs _) = 14"
| "steps_left _ (Store_Refs _ _) = 13"
| "steps_left (Unregister_Engine _ _) (Scan _ i) = 6 + (10 - i)"
| "steps_left (Unregister_Codec _ _) (Scan _ i) = 6 + (10 - i)"
| "steps_left _ (Scan _ i) = 2 + (10 - i)"
| "steps_left (Unregister_Engine _ _) (Put _ _) = 5"
| "steps_left (Unregister_Codec _ _) (Put _ _) = 5"
| "steps_left _ (Put _ _) = 1"
| "steps_left _ (Test_Refs _) = 2"
| "steps_left _ (Clear_Pid _) = 1"
| "steps_left _ Done = 0"

fun entry_of :: "place \<Rightarrow> nat" where
  "entry_of (Scan c i) = c"
| "entry_of (Load_Refs c) = c"
| "entry_of (Store_Refs c v) = c"
| "entry_of (Put c i) = c"
| "entry_of _ = 0"

definition table_shape :: "table \<Rightarrow> bool" where
  "table_shape cl \<longleftrightarrow> length cl = 10 \<and> list_all client_ok cl"

lemma table_shape_update:
  assumes "table_shape cl" "\<And>c. client_ok c \<Longrightarrow> client_ok (f c)"
  shows "table_shape (cl[i := f (cl ! i)])"
proof (cases "i < length cl")
  case True
  with assms show ?thesis
    by (auto simp: table_shape_def list_all_length nth_list_update)
qed (use assms in \<open>simp add: list_update_beyond\<close>)

lemma thread_step_shape:
  assumes "thread_step op (p, cl) = (p', cl')" "table_shape cl"
  shows "table_shape cl'"
  using assms
  by (cases op; cases p) (auto intro!: table_shape_update simp: client_ok_def)

lemma thread_step_entry:
  assumes "thread_step op (p, cl) = (p', cl')" "table_shape cl" "entry_of p < 10"
  shows "entry_of p' < 10"
  using assms by (cases op; cases p) (auto simp: table_shape_def split: if_splits)

lemma thread_step_left:
  assumes "thread_step op (p, cl) = (p', cl')" "table_shape cl" "entry_of p < 10"
  shows "steps_left op p' \<le> steps_left op p - 1"
proof -
  have len: "length cl = 10" and "\<And>c. c < 10 \<Longrightarrow> client_ok (cl ! c)"
    using assms(2) by (auto simp: table_shape_def list_all_length)
  then have "length (c_engines (cl ! entry_of p)) = 10" "length (c_codecs (cl ! entry_of p)) = 10"
    using assms(3) by (auto simp: client_ok_def)
  with len assms(1) show ?thesis by (cases op; cases p) (auto split: if_splits)
qed

lemma steps_left_start: "steps_left op (Find 0) \<le> 27"
  by (cases op) simp_all

lemma steps_left_0: "steps_left op p = 0 \<longleftrightarrow> p = Done"
  by (cases op; cases p) simp_all

lemma steps_left_funpow:
  assumes "table_shape cl" "entry_of p < 10" "(thread_step op ^^ n) (p, cl) = (p', cl')"
  shows "table_shape cl' \<and> entry_of p' < 10 \<and> steps_left op p' \<le> steps_left op p - n"
  using assms(3)
proof (induction n arbitrary: p' cl')
  case 0
  with assms show ?case by simp
next
  case (Suc n)
  obtain p1 cl1 where 1: "(thread_step op ^^ n) (p, cl) = (p1, cl1)" by (metis surj_pair)
  with Suc.prems have st: "thread_step op (p1, cl1) = (p', cl')" by simp
  from Suc.IH [OF 1] thread_step_shape [OF st] thread_step_entry [OF st] thread_step_left [OF st]
  show ?case by auto
qed

text \<open>A call that runs alone is done after at most 27 accesses, and has done what the function does.\<close>

lemma call_reaches:
  assumes "table_shape cl"
  shows "reaches (thread_step op) 27 (Find 0, cl) (Done, table_step op cl)"
proof -
  obtain p cl' where 27: "(thread_step op ^^ 27) (Find 0, cl) = (p, cl')" by (metis surj_pair)
  have "steps_left op p \<le> 0"
    using steps_left_funpow [OF assms _ 27] steps_left_start [of op] by (simp add: le_diff_conv2)
  then have p: "p = Done" using steps_left_0 by simp
  have "steps_to op (Find 0, cl) (Done, cl')" using 27 p by (intro steps_to_n [of 27]) simp
  from Done_unique [OF this alone_steps] 27 p show ?thesis unfolding reaches_def by blast
qed

lemma table_step_shape: "table_shape cl \<Longrightarrow> table_shape (table_step op cl)"
  using call_reaches [of cl op] steps_left_funpow [of cl "Find 0"] by (auto simp: reaches_def)

subsection \<open>Interleavings\<close>

abbreviation sched_step :: "nat \<Rightarrow> (table_op \<times> place) list \<times> table \<Rightarrow> (table_op \<times> place) list \<times> table" where
  "sched_step \<equiv> step_at thread_step"

abbreviation run_threads :: "nat list \<Rightarrow> (table_op \<times> place) list \<times> table \<Rightarrow> (table_op \<times> place) list \<times> table" where
  "run_threads \<equiv> run_sched thread_step"

definition calls :: "table_op list \<Rightarrow> (table_op \<times> place) list" where
  "calls ops = map (\<lambda>op. (op, Find 0)) ops"

lemma Done_final: "final_at thread_step op Done"
  by (simp add: final_at_def)

subsection \<open>Processes that are in the table\<close>

text \<open>
  The places of a call that works on entry \<open>i\<close>. A search for the entry of the process passes over the
  others; only \<open>dce_register_engine\<close> goes on when it finds none, and then works on a free entry.
\<close>

fun inside_call :: "table_op \<Rightarrow> nat \<Rightarrow> place \<Rightarrow> client \<Rightarrow> bool" where
  "inside_call op i (Find k) c = (case op of Register_Engine pid h \<Rightarrow> k \<le> i \<and> c_pid c = pid | _ \<Rightarrow> True)"
| "inside_call op i (Scan j k) c = (j = i)"
| "inside_call op i (Put j k) c = (j = i)"
| "inside_call op i (Load_Refs j) c = (j = i)"
| "inside_call op i (Store_Refs j v) c = (j = i)"
| "inside_call op i (Test_Refs j) c = (j = i)"
| "inside_call op i (Clear_Pid j) c = (j = i)"
| "inside_call op i Done c = True"
| "inside_call op i _ c = False"

lemma thread_step_local:
  assumes "inside_call op i p (cl ! i)" "i < length cl" "length cl' = length cl" "cl' ! i = cl ! i"
    and "sole (op_pid op) i cl" "sole (op_pid op) i cl'"
  shows "\<exists>p' c. thread_step op (p, cl) = (p', cl[i := c]) \<and> thread_step op (p, cl') = (p', cl'[i := c]) \<and>
     inside_call op i p' c \<and> (c_pid c = c_pid (cl ! i) \<or> c_pid c = 0)"
proof -
  let ?r = "thread_step op (p, cl)"
  have id: "cl[i := cl ! i] = cl" "cl' [i := cl ! i] = cl'" using assms(4) by (simp, metis list_update_id)
  show ?thesis
  proof (cases "\<exists>k. p = Find k \<and> k \<noteq> i")
    case True
    then obtain k where k: "p = Find k" "k \<noteq> i" by blast
    then have "k < length cl \<Longrightarrow> c_pid (cl ! k) \<noteq> op_pid op" "k < length cl \<Longrightarrow> c_pid (cl' ! k) \<noteq> op_pid op"
      using assms(3,5,6) by (simp_all add: sole_def)
    then have "thread_step op (p, cl) = (fst ?r, cl)" "thread_step op (p, cl') = (fst ?r, cl')"
      "inside_call op i (fst ?r) (cl ! i)"
      using k assms(1-3) by (cases op; auto)+
    with id show ?thesis by (intro exI [of _ "fst ?r"] exI [of _ "cl ! i"]) simp
  next
    case False
    then show ?thesis
      using assms(1-4) id by (intro exI [of _ "fst ?r"] exI [of _ "snd ?r ! i"]) (cases op; cases p; auto)
  qed
qed

interpretation calls: entry_threads thread_step "\<lambda>op. Find 0" op_pid inside_call
proof unfold_locales
  show "inside_call op i (Find 0) (cl ! i)" if "get_client cl (op_pid op) = Some i" for cl op i
    using get_client_SomeD [OF that] by (cases op) simp_all
qed (rule thread_step_local)

lemma calls_begin: "calls.begin_all = calls"
  by (simp add: fun_eq_iff calls.begin_all_def calls_def)

lemma known_step:
  "get_client cl (op_pid op) = Some i \<Longrightarrow> table_step op cl = cl[i := entry_op op (cl ! i)]"
  by (cases op) (simp_all add: dce_register_engine_def dce_unregister_engine_def
      dce_register_codec_def dce_unregister_codec_def)

lemma entry_op_pid: "c_pid (entry_op op c) = c_pid c \<or> c_pid (entry_op op c) = 0"
  by (cases op) (simp_all add: drop_engine_pid)

text \<open>Calls one after the other, of processes that have an entry each.\<close>

lemma fold_known:
  assumes "calls.entries cl ops ix"
  shows "length (fold table_step ops cl) = length cl \<and>
     (\<forall>t<length ops. fold table_step ops cl ! (ix ! t) = entry_op (ops ! t) (cl ! (ix ! t))) \<and>
     (\<forall>j<length cl. j \<notin> set ix \<longrightarrow> fold table_step ops cl ! j = cl ! j)"
  using assms
proof (induction ops arbitrary: cl ix)
  case Nil
  then show ?case by simp
next
  case (Cons op ops)
  then obtain i js where ix: "ix = i # js" "length js = length ops" "i \<notin> set js" "distinct js"
    by (auto simp: calls.entries_def length_Suc_conv)
  from Cons.prems have i: "get_client cl (op_pid op) = Some i" "op_pid op \<noteq> 0"
    and rest: "\<And>t. t < length ops \<Longrightarrow> op_pid (ops ! t) \<noteq> 0 \<and> get_client cl (op_pid (ops ! t)) = Some (js ! t) \<and>
      sole (op_pid (ops ! t)) (js ! t) cl"
    unfolding calls.entries_def ix length_Cons All_less_Suc2 by simp_all
  let ?cl = "cl[i := entry_op op (cl ! i)]"
  have il: "i < length cl" "c_pid (cl ! i) = op_pid op" using get_client_SomeD [OF i(1)] by auto
  have "get_client ?cl (op_pid (ops ! t)) = Some (js ! t) \<and> sole (op_pid (ops ! t)) (js ! t) ?cl"
    if t: "t < length ops" for t
  proof -
    have "js ! t \<noteq> i" using t ix by (metis nth_mem)
    then have ne: "op_pid (ops ! t) \<noteq> c_pid (cl ! i)" using rest [OF t] i(1) il by auto
    with rest [OF t] entry_op_pid [of op "cl ! i"] have "c_pid (entry_op op (cl ! i)) \<noteq> op_pid (ops ! t)" by auto
    with ne rest [OF t] il show ?thesis
      by (subst get_client_update_other) (auto simp: sole_def nth_list_update)
  qed
  with rest ix have "calls.entries ?cl ops js" by (simp add: calls.entries_def)
  from Cons.IH [OF this] known_step [OF i(1)] il ix show ?case
    by (auto simp: nth_Cons' less_Suc_eq_0_disj in_set_conv_nth)
qed

subsection \<open>What the calls guarantee, and what they do not\<close>

text \<open>
  A call that runs without others takes at most 27 accesses to the table, and then the table
  is what the function as a whole makes of it.
\<close>

lemma call_alone_is_operation:
  assumes "table_shape cl" "27 \<le> count_list sched 0"
  shows "run_threads sched (calls [op], cl) = ([(op, Done)], table_step op cl)"
proof -
  obtain k where "k \<le> 27" "(thread_step op ^^ k) (Find 0, cl) = (Done, table_step op cl)"
    using call_reaches [OF assms(1)] by (auto simp: reaches_def)
  from final_reached [OF this(2) Done_final] this(1) assms(2)
  have "(thread_step op ^^ count_list sched 0) (Find 0, cl) = (Done, table_step op cl)" by (meson le_trans)
  then show ?thesis by (simp add: calls_def run_sched_single)
qed

lemma init_clients_shape: "table_shape init_clients"
  by (simp add: table_shape_def init_clients_def free_client_def client_ok_def list_all_length)

lemma call_alone_is_operation_witness:
  "run_threads (replicate 27 0) (calls [Register_Engine 7 100], init_clients) =
     ([(Register_Engine 7 100, Done)], table_step (Register_Engine 7 100) init_clients)"
  by (rule call_alone_is_operation [OF init_clients_shape]) (simp add: numeral_eq_Suc)

lemma table_inv_shape: "table_inv cl \<Longrightarrow> table_shape cl"
  by (auto simp: table_inv_def table_shape_def client_inv_def list_all_iff)

text \<open>
  C5: calls of different processes that all have an entry do not disturb each other: in every
  interleaving of their accesses, each call is done after at most 27 of its own, and in the end
  the table is what the calls make of it one after the other. No lock is needed for them.
\<close>

theorem known_clients_do_not_interfere:
  assumes inv: "table_inv cl" and pids: "distinct (map op_pid ops)"
    and known: "\<And>op. op \<in> set ops \<Longrightarrow> op_pid op \<noteq> 0 \<and> get_client cl (op_pid op) \<noteq> None"
    and fair: "\<And>t. t < length ops \<Longrightarrow> 27 \<le> count_list sched t"
  shows "run_threads sched (calls ops, cl) = (map (\<lambda>op. (op, Done)) ops, fold table_step ops cl)"
proof -
  let ?ix = "map (\<lambda>op. the (get_client cl (op_pid op))) ops"
  have on: "calls.entries cl ops ?ix" using inv pids known by (rule calls.entries_known)
  obtain cl' where run: "run_threads sched (calls ops, cl) = (map (\<lambda>op. (op, Done)) ops, cl')"
    "length cl' = length cl" "\<forall>t<length ops. table_step (ops ! t) cl = cl[?ix ! t := cl' ! (?ix ! t)]"
    "\<forall>j<length cl. j \<notin> set ?ix \<longrightarrow> cl' ! j = cl ! j"
    using calls.all_reach [OF on call_reaches [OF table_inv_shape [OF inv]] Done_final fair]
    by (auto simp: calls_begin)
  note f = fold_known [OF on]
  have "cl' = fold table_step ops cl"
  proof (rule nth_equalityI)
    show "length cl' = length (fold table_step ops cl)" using f run(2) by simp
    fix j
    assume "j < length cl'"
    with run(2) have j: "j < length cl" by simp
    show "cl' ! j = fold table_step ops cl ! j"
    proof (cases "j \<in> set ?ix")
      case True
      then obtain t where t: "t < length ops" "j = ?ix ! t" by (auto simp: in_set_conv_nth)
      with on have "get_client cl (op_pid (ops ! t)) = Some j" by (simp add: calls.entries_def)
      from known_step [OF this] run(3) t have "cl[j := cl' ! j] = cl[j := entry_op (ops ! t) (cl ! j)]" by simp
      with j have "cl' ! j = entry_op (ops ! t) (cl ! j)" by (metis nth_list_update_eq)
      with f t show ?thesis by simp
    next
      case False
      with f run(4) j show ?thesis by simp
    qed
  qed
  with run(1) show ?thesis by simp
qed

definition two_clients :: table where
  "two_clients = fold table_step [Register_Engine 1 10, Register_Engine 2 20] init_clients"

lemma count_rounds: "count_list (concat (replicate n xs)) t = n * count_list xs t"
  by (induction n) simp_all

lemma two_clients_eq:
  "two_clients = new_client 1 10 free_client # new_client 2 20 free_client # replicate 8 free_client"
  by (simp add: two_clients_def dce_register_engine_def init_clients_def free_client_def
      new_client_def get_client_def numeral_eq_Suc)

lemma two_clients_inv: "table_inv two_clients"
  unfolding two_clients_def
  by (rule conjunct1 [OF history_refines_from [OF init_clients_inv]])
    (simp add: spec_register_engine_def)

lemma known_clients_do_not_interfere_witness:
  "run_threads (concat (replicate 27 [0, 1]))
      (calls [Register_Codec 1 11, Unregister_Engine 2 20], two_clients) =
    ([(Register_Codec 1 11, Done), (Unregister_Engine 2 20, Done)],
     fold table_step [Register_Codec 1 11, Unregister_Engine 2 20] two_clients)"
    (is "run_threads ?sched (calls ?ops, _) = _")
proof -
  have 1: "op_pid op \<noteq> 0 \<and> get_client two_clients (op_pid op) \<noteq> None" if "op \<in> set ?ops" for op
    using that by (auto simp: two_clients_eq get_client_Cons new_client_def)
  have 2: "27 \<le> count_list ?sched t" if "t < length ?ops" for t
    using that unfolding count_rounds by (auto simp: less_Suc_eq)
  show ?thesis
    using known_clients_do_not_interfere [of two_clients ?ops ?sched, OF two_clients_inv _ 1 2] by simp
qed

text \<open>
  The first call of a process looks for a free entry and then claims it. Two processes that both
  look before one of them has claimed find the same entry.
\<close>

definition both_look_first :: "nat list" where
  "both_look_first = replicate 12 0 @ replicate 12 1 @ [0, 0, 0, 1, 1, 1]"

text \<open>
  C28: when two processes open their first engines at the same time, it can happen that both
  take the same free entry: the process that writes last has its engine recorded, the other is
  not in the table, so that its engine is not closed when it dies. One call after the other, in
  either order, records both.
\<close>

theorem first_calls_race:
  assumes "distinct [0, p, q]" "e1 \<noteq> 0" "e2 \<noteq> 0"
  defines "ops \<equiv> [Register_Engine p e1, Register_Engine q e2]"
  shows "fst (run_threads both_look_first (calls ops, init_clients)) = map (\<lambda>op. (op, Done)) ops \<and>
    registry_of (snd (run_threads both_look_first (calls ops, init_clients))) = [q \<mapsto> ({#e2#}, {#})] \<and>
    registry_of (fold table_step ops init_clients) = [p \<mapsto> ({#e1#}, {#}), q \<mapsto> ({#e2#}, {#})] \<and>
    registry_of (fold table_step (rev ops) init_clients) = [p \<mapsto> ({#e1#}, {#}), q \<mapsto> ({#e2#}, {#})]"
proof -
  have run: "run_threads both_look_first (calls ops, init_clients) =
      (map (\<lambda>op. (op, Done)) ops, new_client q e2 free_client # replicate 9 free_client)"
    using assms(1)
    by (simp add: both_look_first_def ops_def calls_def step_at_def init_clients_def
        free_client_def new_client_def numeral_eq_Suc)
  have h1: "history_ok ops Map.empty" and h2: "history_ok (rev ops) Map.empty"
    using assms(1-3) by (auto simp: ops_def spec_register_engine_def)
  have s1: "fold spec_step ops Map.empty = [p \<mapsto> ({#e1#}, {#}), q \<mapsto> ({#e2#}, {#})]"
    and s2: "fold spec_step (rev ops) Map.empty = [p \<mapsto> ({#e1#}, {#}), q \<mapsto> ({#e2#}, {#})]"
    using assms(1) by (auto simp: ops_def spec_register_engine_def fun_upd_twist)
  have "handles (new_client q e2 free_client) = ({#e2#}, {#})"
    using assms(3) by (simp add: handles_def new_client_def free_client_def owned_Cons replicate_10)
  then have "registry_of (new_client q e2 free_client # replicate 9 free_client) r =
      [q \<mapsto> ({#e2#}, {#})] r" for r
    using assms(1) by (cases "r = q") (simp_all add: registry_of_def get_client_Cons get_client_free new_client_def)
  then have "registry_of (new_client q e2 free_client # replicate 9 free_client) = [q \<mapsto> ({#e2#}, {#})]" ..
  with run history_refines_from [OF init_clients_inv, of ops] history_refines_from [OF init_clients_inv, of "rev ops"]
    h1 h2 s1 s2
  show ?thesis by (simp only: registry_init fst_conv snd_conv)
qed

lemma first_calls_race_witness:
  "registry_of (snd (run_threads both_look_first
     (calls [Register_Engine 7 100, Register_Engine 8 200], init_clients))) = [8 \<mapsto> ({#200#}, {#})]"
  using first_calls_race [of 7 8 100 200] by (simp del: run_sched_simps)

end
