(* ===== verification/Rpc_Args.thy ===== *)
theory Rpc_Args
  imports C_Layout
begin

text \<open>
  The argument blocks of the six remote calls (\<^verbatim>\<open>dce.c\<close>, the \<open>__args\<close> unions). Client and
  server are compiled from the same declarations and overlay them on the data of the message: a
  message is a byte buffer, a member is a 32-bit word at the offset that the layout of the union
  gives it, and a name is the bytes from its offset on. The results overwrite the arguments,
  because \<open>in\<close> and \<open>out\<close> are members of a union.
\<close>

text \<open>The remote functions, and the order in which \<open>dce_init\<close> sets them up on both sides.\<close>

datatype fxn = F_Engine_open | F_Engine_close | F_VIDDEC3_create | F_VIDDEC3_control
  | F_VIDDEC3_process | F_VIDDEC3_delete

definition all_fxns :: "fxn list" where
  "all_fxns = [F_Engine_open, F_Engine_close, F_VIDDEC3_create, F_VIDDEC3_control,
     F_VIDDEC3_process, F_VIDDEC3_delete]"

lemma set_all_fxns: "set all_fxns = UNIV"
proof -
  have "f \<in> set all_fxns" for f by (cases f) (simp_all add: all_fxns_def)
  then show ?thesis by auto
qed

text \<open>The functions in the order of their registration, as an enumeration.\<close>

instantiation fxn :: enum
begin

definition "enum_fxn = all_fxns"
definition "enum_all_fxn P = list_all P all_fxns"
definition "enum_ex_fxn P = list_ex P all_fxns"

instance
proof
  show "(UNIV :: fxn set) = set enum_class.enum" by (simp add: enum_fxn_def set_all_fxns)
  show "distinct (enum_class.enum :: fxn list)" by (simp add: enum_fxn_def all_fxns_def)
  fix P :: "fxn \<Rightarrow> bool"
  show "enum_class.enum_all P \<longleftrightarrow> Ball UNIV P" by (simp add: enum_all_fxn_def list_all_iff set_all_fxns)
  show "enum_class.enum_ex P \<longleftrightarrow> Bex UNIV P" by (simp add: enum_ex_fxn_def list_ex_iff set_all_fxns)
qed

end

definition Engine_open_args :: ctype where
  "Engine_open_args = CUnion [
     (''in'', CStruct [(''pid'', CI32), (''name'', CArr 25 CI8)]),
     (''out'', CStruct [(''ec'', CI32), (''engine'', CI32)])]"

definition Engine_close_args :: ctype where
  "Engine_close_args = CUnion [(''in'', CStruct [(''pid'', CI32), (''engine'', CI32)])]"

definition VIDDEC3_create_args :: ctype where
  "VIDDEC3_create_args = CUnion [
     (''in'', CStruct [(''pid'', CI32), (''engine'', CI32), (''name'', CArr 25 CI8),
        (''params'', CI32)]),
     (''out'', CStruct [(''codec'', CI32)])]"

definition VIDDEC3_control_args :: ctype where
  "VIDDEC3_control_args = CUnion [
     (''in'', CStruct [(''pid'', CI32), (''codec'', CI32), (''id'', CI32), (''dynParams'', CI32),
        (''status'', CI32)]),
     (''out'', CStruct [(''ret'', CI32)])]"

definition VIDDEC3_process_args :: ctype where
  "VIDDEC3_process_args = CUnion [
     (''in'', CStruct [(''pid'', CI32), (''codec'', CI32), (''inBufs'', CI32), (''outBufs'', CI32),
        (''inArgs'', CI32), (''outArgs'', CI32)]),
     (''out'', CStruct [(''ret'', CI32)])]"

definition VIDDEC3_delete_args :: ctype where
  "VIDDEC3_delete_args = CUnion [(''in'', CStruct [(''pid'', CI32), (''codec'', CI32)])]"

lemma args_sizes [simp]:
  "csize Engine_open_args = 32" "csize Engine_close_args = 8" "csize VIDDEC3_create_args = 40"
  "csize VIDDEC3_control_args = 20" "csize VIDDEC3_process_args = 24" "csize VIDDEC3_delete_args = 8"
  by (simp_all add: Engine_open_args_def Engine_close_args_def VIDDEC3_create_args_def
      VIDDEC3_control_args_def VIDDEC3_process_args_def VIDDEC3_delete_args_def align_up_def)

text \<open>\<open>args->path\<close>: the offset of a member, and access to it in a message.\<close>

definition fld :: "ctype \<Rightarrow> string list \<Rightarrow> nat" where
  "fld t p = (case offset_of t p of Some off \<Rightarrow> off | None \<Rightarrow> csize t)"

definition getf :: "ctype \<Rightarrow> string list \<Rightarrow> bytes \<Rightarrow> u32" where
  "getf t p d = get32 (fld t p) d"

definition putf :: "ctype \<Rightarrow> string list \<Rightarrow> u32 \<Rightarrow> bytes \<Rightarrow> bytes" where
  "putf t p v d = put32 (fld t p) v d"

definition name_at :: "ctype \<Rightarrow> string list \<Rightarrow> bytes \<Rightarrow> cstr option" where
  "name_at t p d = read_cstr (fld t p) d"

definition copy_name :: "ctype \<Rightarrow> string list \<Rightarrow> cstr \<Rightarrow> bytes \<Rightarrow> bytes" where
  "copy_name t p s d = strncpy (fld t p) s (25 - 1) d"

lemma length_putf [simp]: "length (putf t p v d) = length d"
  by (simp add: putf_def)

lemma length_copy_name [simp]: "length (copy_name t p s d) = length d"
  by (simp add: copy_name_def)

lemma open_fields [simp]:
  "fld Engine_open_args [''in'', ''pid''] = 0" "fld Engine_open_args [''in'', ''name''] = 4"
  "fld Engine_open_args [''out'', ''ec''] = 0" "fld Engine_open_args [''out'', ''engine''] = 4"
  by code_simp+

lemma close_fields [simp]:
  "fld Engine_close_args [''in'', ''pid''] = 0" "fld Engine_close_args [''in'', ''engine''] = 4"
  by code_simp+

lemma create_fields [simp]:
  "fld VIDDEC3_create_args [''in'', ''pid''] = 0" "fld VIDDEC3_create_args [''in'', ''engine''] = 4"
  "fld VIDDEC3_create_args [''in'', ''name''] = 8" "fld VIDDEC3_create_args [''in'', ''params''] = 36"
  "fld VIDDEC3_create_args [''out'', ''codec''] = 0"
  by code_simp+

lemma control_fields [simp]:
  "fld VIDDEC3_control_args [''in'', ''pid''] = 0" "fld VIDDEC3_control_args [''in'', ''codec''] = 4"
  "fld VIDDEC3_control_args [''in'', ''id''] = 8" "fld VIDDEC3_control_args [''in'', ''dynParams''] = 12"
  "fld VIDDEC3_control_args [''in'', ''status''] = 16" "fld VIDDEC3_control_args [''out'', ''ret''] = 0"
  by code_simp+

lemma process_fields [simp]:
  "fld VIDDEC3_process_args [''in'', ''pid''] = 0" "fld VIDDEC3_process_args [''in'', ''codec''] = 4"
  "fld VIDDEC3_process_args [''in'', ''inBufs''] = 8" "fld VIDDEC3_process_args [''in'', ''outBufs''] = 12"
  "fld VIDDEC3_process_args [''in'', ''inArgs''] = 16" "fld VIDDEC3_process_args [''in'', ''outArgs''] = 20"
  "fld VIDDEC3_process_args [''out'', ''ret''] = 0"
  by code_simp+

lemma delete_fields [simp]:
  "fld VIDDEC3_delete_args [''in'', ''pid''] = 0" "fld VIDDEC3_delete_args [''in'', ''codec''] = 4"
  by code_simp+

subsection \<open>Filling a message\<close>

text \<open>The assignments of the client's stubs to \<open>args->in\<close>, in the order of the code.\<close>

definition fill_Engine_open :: "u32 \<Rightarrow> cstr \<Rightarrow> bytes \<Rightarrow> bytes" where
  "fill_Engine_open pid name d =
     (let d = putf Engine_open_args [''in'', ''pid''] pid d
      in copy_name Engine_open_args [''in'', ''name''] name d)"

definition fill_Engine_close :: "u32 \<Rightarrow> u32 \<Rightarrow> bytes \<Rightarrow> bytes" where
  "fill_Engine_close pid engine d =
     (let d = putf Engine_close_args [''in'', ''pid''] pid d
      in putf Engine_close_args [''in'', ''engine''] engine d)"

definition fill_VIDDEC3_create :: "u32 \<Rightarrow> u32 \<Rightarrow> cstr \<Rightarrow> u32 \<Rightarrow> bytes \<Rightarrow> bytes" where
  "fill_VIDDEC3_create pid engine name params d =
     (let d = putf VIDDEC3_create_args [''in'', ''pid''] pid d;
          d = putf VIDDEC3_create_args [''in'', ''engine''] engine d;
          d = copy_name VIDDEC3_create_args [''in'', ''name''] name d
      in putf VIDDEC3_create_args [''in'', ''params''] params d)"

definition fill_VIDDEC3_control :: "u32 \<Rightarrow> u32 \<Rightarrow> u32 \<Rightarrow> u32 \<Rightarrow> u32 \<Rightarrow> bytes \<Rightarrow> bytes" where
  "fill_VIDDEC3_control pid codec cmd dynParams status d =
     (let d = putf VIDDEC3_control_args [''in'', ''pid''] pid d;
          d = putf VIDDEC3_control_args [''in'', ''codec''] codec d;
          d = putf VIDDEC3_control_args [''in'', ''id''] cmd d;
          d = putf VIDDEC3_control_args [''in'', ''dynParams''] dynParams d
      in putf VIDDEC3_control_args [''in'', ''status''] status d)"

definition fill_VIDDEC3_process :: "u32 \<Rightarrow> u32 \<Rightarrow> u32 \<Rightarrow> u32 \<Rightarrow> u32 \<Rightarrow> u32 \<Rightarrow> bytes \<Rightarrow> bytes" where
  "fill_VIDDEC3_process pid codec inBufs outBufs inArgs outArgs d =
     (let d = putf VIDDEC3_process_args [''in'', ''pid''] pid d;
          d = putf VIDDEC3_process_args [''in'', ''codec''] codec d;
          d = putf VIDDEC3_process_args [''in'', ''inBufs''] inBufs d;
          d = putf VIDDEC3_process_args [''in'', ''outBufs''] outBufs d;
          d = putf VIDDEC3_process_args [''in'', ''inArgs''] inArgs d
      in putf VIDDEC3_process_args [''in'', ''outArgs''] outArgs d)"

definition fill_VIDDEC3_delete :: "u32 \<Rightarrow> u32 \<Rightarrow> bytes \<Rightarrow> bytes" where
  "fill_VIDDEC3_delete pid codec d =
     (let d = putf VIDDEC3_delete_args [''in'', ''pid''] pid d
      in putf VIDDEC3_delete_args [''in'', ''codec''] codec d)"

lemmas fill_defs =
  fill_Engine_open_def fill_Engine_close_def fill_VIDDEC3_create_def fill_VIDDEC3_control_def
  fill_VIDDEC3_process_def fill_VIDDEC3_delete_def

lemmas msg_access = putf_def getf_def name_at_def copy_name_def

lemma length_fill [simp]:
  "length (fill_Engine_open pid name d) = length d" "length (fill_Engine_close pid e d) = length d"
  "length (fill_VIDDEC3_create pid e name p d) = length d"
  "length (fill_VIDDEC3_control pid c i dp st d) = length d"
  "length (fill_VIDDEC3_process pid c ib ob ia oa d) = length d"
  "length (fill_VIDDEC3_delete pid c d) = length d"
  by (simp_all add: fill_defs)

subsection \<open>What the server reads\<close>

lemma read_Engine_open:
  assumes "32 \<le> length d"
  shows "getf Engine_open_args [''in'', ''pid''] (fill_Engine_open pid name d) = pid"
  using assms by (simp add: fill_defs msg_access buf_simps)

lemma read_name_Engine_open:
  assumes "32 \<le> length d" "cstr_ok name" "length name < 24"
  shows "name_at Engine_open_args [''in'', ''name''] (fill_Engine_open pid name d) = Some name"
  using assms by (simp add: fill_defs msg_access read_cstr_strncpy)

lemma read_Engine_close:
  assumes "8 \<le> length d"
  shows "getf Engine_close_args [''in'', ''pid''] (fill_Engine_close pid e d) = pid"
    "getf Engine_close_args [''in'', ''engine''] (fill_Engine_close pid e d) = e"
  using assms by (simp_all add: fill_defs msg_access buf_simps)

lemma read_VIDDEC3_create:
  assumes "40 \<le> length d"
  shows "getf VIDDEC3_create_args [''in'', ''pid''] (fill_VIDDEC3_create pid e name p d) = pid"
    "getf VIDDEC3_create_args [''in'', ''engine''] (fill_VIDDEC3_create pid e name p d) = e"
    "getf VIDDEC3_create_args [''in'', ''params''] (fill_VIDDEC3_create pid e name p d) = p"
  using assms by (simp_all add: fill_defs msg_access buf_simps)

lemma read_name_VIDDEC3_create:
  assumes "40 \<le> length d" "cstr_ok name" "length name < 24"
  shows "name_at VIDDEC3_create_args [''in'', ''name''] (fill_VIDDEC3_create pid e name p d) = Some name"
  unfolding name_at_def
  by (rule read_cstr_eqI) (use assms in \<open>auto simp: fill_defs msg_access buf_simps nth_strncpy\<close>)

lemma read_VIDDEC3_control:
  assumes "20 \<le> length d"
  shows "getf VIDDEC3_control_args [''in'', ''pid''] (fill_VIDDEC3_control pid c i dp st d) = pid"
    "getf VIDDEC3_control_args [''in'', ''codec''] (fill_VIDDEC3_control pid c i dp st d) = c"
    "getf VIDDEC3_control_args [''in'', ''id''] (fill_VIDDEC3_control pid c i dp st d) = i"
    "getf VIDDEC3_control_args [''in'', ''dynParams''] (fill_VIDDEC3_control pid c i dp st d) = dp"
    "getf VIDDEC3_control_args [''in'', ''status''] (fill_VIDDEC3_control pid c i dp st d) = st"
  using assms by (simp_all add: fill_defs msg_access buf_simps)

lemma read_VIDDEC3_process:
  assumes "24 \<le> length d"
  shows "getf VIDDEC3_process_args [''in'', ''pid''] (fill_VIDDEC3_process pid c ib ob ia oa d) = pid"
    "getf VIDDEC3_process_args [''in'', ''codec''] (fill_VIDDEC3_process pid c ib ob ia oa d) = c"
    "getf VIDDEC3_process_args [''in'', ''inBufs''] (fill_VIDDEC3_process pid c ib ob ia oa d) = ib"
    "getf VIDDEC3_process_args [''in'', ''outBufs''] (fill_VIDDEC3_process pid c ib ob ia oa d) = ob"
    "getf VIDDEC3_process_args [''in'', ''inArgs''] (fill_VIDDEC3_process pid c ib ob ia oa d) = ia"
    "getf VIDDEC3_process_args [''in'', ''outArgs''] (fill_VIDDEC3_process pid c ib ob ia oa d) = oa"
  using assms by (simp_all add: fill_defs msg_access buf_simps)

lemma read_VIDDEC3_delete:
  assumes "8 \<le> length d"
  shows "getf VIDDEC3_delete_args [''in'', ''pid''] (fill_VIDDEC3_delete pid c d) = pid"
    "getf VIDDEC3_delete_args [''in'', ''codec''] (fill_VIDDEC3_delete pid c d) = c"
  using assms by (simp_all add: fill_defs msg_access buf_simps)

subsection \<open>Properties\<close>

text \<open>
  C20: whatever the message buffer held before, the server reads from it the process id, every
  handle, command and pointer, and every name of up to 23 characters, exactly as the client's
  stub stored them, for each of the six calls.
\<close>

theorem arguments_arrive:
  assumes "40 \<le> length d" "cstr_ok name" "length name < 24"
  shows "(let m = fill_Engine_open pid name d in
        getf Engine_open_args [''in'', ''pid''] m = pid \<and>
        name_at Engine_open_args [''in'', ''name''] m = Some name) \<and>
     (let m = fill_Engine_close pid e d in
        getf Engine_close_args [''in'', ''pid''] m = pid \<and>
        getf Engine_close_args [''in'', ''engine''] m = e) \<and>
     (let m = fill_VIDDEC3_create pid e name p d in
        getf VIDDEC3_create_args [''in'', ''pid''] m = pid \<and>
        getf VIDDEC3_create_args [''in'', ''engine''] m = e \<and>
        name_at VIDDEC3_create_args [''in'', ''name''] m = Some name \<and>
        getf VIDDEC3_create_args [''in'', ''params''] m = p) \<and>
     (let m = fill_VIDDEC3_control pid c i dp st d in
        getf VIDDEC3_control_args [''in'', ''pid''] m = pid \<and>
        getf VIDDEC3_control_args [''in'', ''codec''] m = c \<and>
        getf VIDDEC3_control_args [''in'', ''id''] m = i \<and>
        getf VIDDEC3_control_args [''in'', ''dynParams''] m = dp \<and>
        getf VIDDEC3_control_args [''in'', ''status''] m = st) \<and>
     (let m = fill_VIDDEC3_process pid c ib ob ia oa d in
        getf VIDDEC3_process_args [''in'', ''pid''] m = pid \<and>
        getf VIDDEC3_process_args [''in'', ''codec''] m = c \<and>
        getf VIDDEC3_process_args [''in'', ''inBufs''] m = ib \<and>
        getf VIDDEC3_process_args [''in'', ''outBufs''] m = ob \<and>
        getf VIDDEC3_process_args [''in'', ''inArgs''] m = ia \<and>
        getf VIDDEC3_process_args [''in'', ''outArgs''] m = oa) \<and>
     (let m = fill_VIDDEC3_delete pid c d in
        getf VIDDEC3_delete_args [''in'', ''pid''] m = pid \<and>
        getf VIDDEC3_delete_args [''in'', ''codec''] m = c)"
  using assms le_trans [of 32 40 "length d"] le_trans [of 24 40 "length d"]
    le_trans [of 20 40 "length d"] le_trans [of 8 40 "length d"]
  by (simp add: Let_def read_Engine_open read_name_Engine_open read_Engine_close
      read_VIDDEC3_create read_name_VIDDEC3_create read_VIDDEC3_control read_VIDDEC3_process
      read_VIDDEC3_delete)

text \<open>The name ''ivahd_vidsvr'', in a message that held other data.\<close>

definition sample_name :: cstr where
  "sample_name = [105, 118, 97, 104, 100, 95, 118, 105, 100, 115, 118, 114]"

lemma arguments_arrive_witness:
  "name_at VIDDEC3_create_args [''in'', ''name'']
     (fill_VIDDEC3_create 7 0x8000 sample_name 0x9000 (replicate 40 255)) = Some sample_name"
  using arguments_arrive [where d = "replicate 40 255" and name = sample_name and pid = 7
      and e = "0x8000" and p = "0x9000"]
  by (simp add: sample_name_def cstr_ok_def Let_def)

lemma fill_Engine_open_tail:
  assumes "32 \<le> length d" "24 \<le> length name"
  shows "drop 4 (fill_Engine_open pid name d) = take 24 name @ drop 28 d"
proof (rule nth_equalityI)
  fix i
  assume "i < length (drop 4 (fill_Engine_open pid name d))"
  with assms show "drop 4 (fill_Engine_open pid name d) ! i = (take 24 name @ drop 28 d) ! i"
    by (auto simp: fill_defs msg_access nth_strncpy nth_append nth_put32_other add.commute)
qed (use assms in simp)

text \<open>
  C36: a name of 24 characters or more is not terminated by the stub: \<open>strncpy\<close> stores its first
  24 characters and the last byte of the field keeps what the message held before. The server
  reads those 24 characters and then on to the first zero byte that happens to follow in the
  message; when there is none, the read runs past the message.
\<close>

theorem long_name_unterminated:
  assumes "32 \<le> length d" "cstr_ok name" "24 \<le> length name"
  shows "name_at Engine_open_args [''in'', ''name''] (fill_Engine_open pid name d) =
     (if 0 \<in> set (drop 28 d) then Some (take 24 name @ takeWhile (\<lambda>b. b \<noteq> 0) (drop 28 d))
      else None)"
proof -
  have "0 \<notin> set (take 24 name)" using assms(2) by (auto simp: cstr_ok_def dest: in_set_takeD)
  then have "\<And>b. b \<in> set (take 24 name) \<Longrightarrow> b \<noteq> 0" by auto
  with \<open>0 \<notin> set (take 24 name)\<close> fill_Engine_open_tail [OF assms(1,3), of pid] show ?thesis
    by (simp add: name_at_def read_cstr_def Let_def takeWhile_append2)
qed

lemma long_name_unterminated_witness:
  "name_at Engine_open_args [''in'', ''name''] (fill_Engine_open 7 (replicate 24 65)
     (replicate 31 66 @ [0])) = Some (replicate 24 65 @ [66, 66, 66])"
  using long_name_unterminated [of "replicate 31 66 @ [0]" "replicate 24 65" 7]
  by (simp add: cstr_ok_def takeWhile_append numeral_3_eq_3)

end
