(* ===== verification/Mem_Header.thy ===== *)
theory Mem_Header
  imports C_Layout
begin

text \<open>
  Blocks shared with the other processor (\<^verbatim>\<open>dce.c\<close>, section "Memory allocation/mapping"): a
  \<open>MemHeader\<close> in front of every block records its size and its address on the Ducati side.
  \<open>MemMgr_Alloc\<close>, \<open>MemMgr_Free\<close> and \<open>TilerMem_VirtToPhys\<close> are not under \<^verbatim>\<open>src/\<close>: they are the
  fields of a record the definitions take, over a state \<open>'s\<close> of the allocator and the memory.
  \<open>sizeof(MemHeader)\<close> is 8; the \<open>MemAllocBlock\<close> of the call is the page-mode block of the
  length given. Accesses to unmapped memory are \<open>None\<close>.
\<close>

definition MemHeader :: ctype where
  "MemHeader = CStruct [(''size'', CI32), (''ducati_addr'', CI32)]"

lemma MemHeader_layout [layout]:
  "csize MemHeader = 8" "locate MemHeader [''size''] = Some (0, CI32)"
  "locate MemHeader [''ducati_addr''] = Some (4, CI32)"
  by (simp_all add: MemHeader_def align_up_def)

definition P2H :: "u32 \<Rightarrow> u32" where
  "P2H p = p - of_nat (csize MemHeader)"

definition H2P :: "u32 \<Rightarrow> u32" where
  "H2P h = h + of_nat (csize MemHeader)"

record 's memmgr =
  mm_alloc :: "u32 \<Rightarrow> 's \<times> mem \<Rightarrow> u32 \<times> 's \<times> mem"
  mm_free :: "u32 \<Rightarrow> 's \<times> mem \<Rightarrow> 's \<times> mem"
  virt_to_phys :: "u32 \<Rightarrow> u32"

definition dce_alloc :: "'s memmgr \<Rightarrow> u32 \<Rightarrow> 's \<times> mem \<Rightarrow> (u32 \<times> 's \<times> mem) option" where
  "dce_alloc M sz w =
     (case mm_alloc M (sz + of_nat (csize MemHeader)) w of (h, s, m) \<Rightarrow> do {
        m1 \<leftarrow> store32 m h sz;
        m2 \<leftarrow> store32 m1 (h + 4) (virt_to_phys M (H2P h));
        m3 \<leftarrow> store_bytes m2 (H2P h) (replicate (unat sz) 0);
        Some (H2P h, s, m3) })"

definition dce_free :: "'s memmgr \<Rightarrow> u32 \<Rightarrow> 's \<times> mem \<Rightarrow> 's \<times> mem" where
  "dce_free M p w = mm_free M (P2H p) w"

definition virt2ducati :: "mem \<Rightarrow> u32 \<Rightarrow> u32 option" where
  "virt2ducati m p = (if p \<noteq> 0 then load32 m (P2H p + 4) else Some 0)"

text \<open>
  \<open>dce_clean\<close> writes back and invalidates the cache lines of the block behind \<open>p\<close>: the result
  is the range that \<open>Cache_wbInv\<close> is called with.
\<close>

definition dce_clean :: "mem \<Rightarrow> u32 \<Rightarrow> (u32 \<times> u32) option" where
  "dce_clean m p = map_option (\<lambda>sz. (p, sz)) (load32 m (P2H p))"

subsection \<open>Headers and blocks\<close>

lemma P2H_H2P [simp]: "P2H (H2P h) = h"
  by (simp add: P2H_def H2P_def)

lemma H2P_eq: "H2P h = h + 8"
  by (simp add: H2P_def layout)

lemma P2H_eq: "P2H p = p - 8"
  by (simp add: P2H_def layout)

text \<open>The memory after a successful \<open>dce_alloc\<close>.\<close>

definition block_mem :: "u32 \<Rightarrow> u32 \<Rightarrow> u32 \<Rightarrow> mem \<Rightarrow> mem" where
  "block_mem h sz pa m =
     mem_blit (h + 8) (replicate (unat sz) 0)
       (mem_blit (h + 4) (bytes_of pa) (mem_blit h (bytes_of sz) m))"

lemma dce_alloc_eq:
  assumes "mm_alloc M (sz + 8) w = (h, s, m)" "mapped m h (8 + unat sz)"
  shows "dce_alloc M sz w = Some (h + 8, s, block_mem h sz (virt_to_phys M (h + 8)) m)"
proof -
  have m: "mapped m h 4" "mapped m (h + 4) 4" "mapped m (h + 8) (unat sz)"
    using assms(2) mapped_tail [of m h _ 4 4] mapped_tail [of m h _ 8 "unat sz"]
    by (auto intro: mapped_mono)
  have "unat sz \<le> 2 ^ 32" by (rule unat_le_2p32)
  then show ?thesis
    using m assms(1)
    by (simp add: dce_alloc_def layout H2P_eq store32_mapped store_bytes_mapped mapped_mem_blit
        block_mem_def)
qed

text \<open>Reading the header back: the zeroed block behind it does not overwrite it.\<close>

lemma block_mem_header:
  assumes "unat sz + 8 \<le> 2 ^ 32"
  shows "load32 (block_mem h sz pa m) h = Some sz"
    and "load32 (block_mem h sz pa m) (h + 4) = Some pa"
proof -
  have z: "length (replicate (unat sz) (0 :: u8)) + 8 \<le> 2 ^ 32" using assms by simp
  note before = load32_blit_before [OF _ z, where h = h]
  show "load32 (block_mem h sz pa m) (h + 4) = Some pa"
    using before [of 4] by (simp add: block_mem_def load32_mem_blit_same)
  have "load32 (mem_blit (h + 4) (bytes_of pa) x) h = load32 x h" for x
    using load32_blit_before [of 0 4 "bytes_of pa" h x] by simp
  then show "load32 (block_mem h sz pa m) h = Some sz"
    using before [of 0] by (simp add: block_mem_def load32_mem_blit_same)
qed

lemma block_mem_zero:
  assumes "i < unat sz"
  shows "block_mem h sz pa m (h + 8 + of_nat i) = Some 0"
proof -
  have "unat sz \<le> 2 ^ 32" by (rule unat_le_2p32)
  then show ?thesis
    using assms mem_blit_nth [of i "replicate (unat sz) 0" "h + 8"] by (simp add: block_mem_def)
qed

lemma block_mem_outside:
  assumes "8 + unat sz \<le> i" "i < 2 ^ 32"
  shows "block_mem h sz pa m (h + of_nat i) = m (h + of_nat i)"
  using mem_blit_after [of 8 "replicate (unat sz) 0" i h] mem_blit_after [of 4 "bytes_of pa" i h]
    mem_blit_after [of 0 "bytes_of sz" i h] assms
  by (simp add: block_mem_def)


subsection \<open>Properties\<close>

text \<open>
  C22: when \<open>MemMgr_Alloc\<close> returns a mapped block of the length asked for, \<open>dce_alloc\<close> returns a
  pointer behind a header from which \<open>virt2ducati\<close> reads the physical address of that pointer
  and \<open>dce_clean\<close> its size; the block is zeroed, nothing outside it changes, and \<open>dce_free\<close>
  hands exactly the allocated address back to the allocator.
\<close>

theorem dce_alloc_roundtrip:
  assumes "mm_alloc M (sz + 8) w = (h, s, m)" "mapped m h (8 + unat sz)"
    and "unat sz + 8 \<le> 2 ^ 32" "h + 8 \<noteq> 0"
  shows "\<exists>p m'. dce_alloc M sz w = Some (p, s, m') \<and>
     virt2ducati m' p = Some (virt_to_phys M p) \<and> dce_clean m' p = Some (p, sz) \<and>
     (\<forall>i. i < unat sz \<longrightarrow> m' (p + of_nat i) = Some 0) \<and>
     (\<forall>i. 8 + unat sz \<le> i \<and> i < 2 ^ 32 \<longrightarrow> m' (h + of_nat i) = m (h + of_nat i)) \<and>
     (\<forall>v. dce_free M p v = mm_free M h v)"
proof -
  let ?m = "block_mem h sz (virt_to_phys M (h + 8)) m"
  have "dce_alloc M sz w = Some (h + 8, s, ?m)" by (rule dce_alloc_eq [OF assms(1,2)])
  moreover have "virt2ducati ?m (h + 8) = Some (virt_to_phys M (h + 8))"
    using assms(4) block_mem_header(2) [OF assms(3)] by (simp add: virt2ducati_def P2H_eq)
  moreover have "dce_clean ?m (h + 8) = Some (h + 8, sz)"
    using block_mem_header(1) [OF assms(3)] by (simp add: dce_clean_def P2H_eq)
  ultimately show ?thesis
    by (intro exI [of _ "h + 8"] exI [of _ ?m])
       (simp add: block_mem_zero block_mem_outside dce_free_def P2H_eq)
qed

text \<open>An allocator that hands out address 4096, over memory that is mapped from there on.\<close>

definition sample_memmgr :: "nat memmgr" where
  "sample_memmgr = \<lparr>mm_alloc = (\<lambda>len (s, m). (4096, s + 1, m)), mm_free = (\<lambda>p (s, m). (s - 1, m)),
     virt_to_phys = (\<lambda>v. v + 0x80000000)\<rparr>"

definition sample_mem :: mem where
  "sample_mem a = (if 4096 \<le> a \<and> a < 8192 then Some 255 else None)"

lemma sample_mem_mapped: "mapped sample_mem 4096 24"
  by (simp add: mapped_def sample_mem_def upt_rec)

lemma dce_alloc_roundtrip_witness:
  "\<exists>p m'. dce_alloc sample_memmgr 16 (0, sample_mem) = Some (p, 1, m') \<and>
     virt2ducati m' p = Some (p + 0x80000000) \<and> dce_clean m' p = Some (p, 16)"
  using dce_alloc_roundtrip [of sample_memmgr 16 "(0, sample_mem)" 4096 1 sample_mem] sample_mem_mapped
  by (auto simp: sample_memmgr_def)

text \<open>
  The result of \<open>MemMgr_Alloc\<close> is not tested: when it is \<open>NULL\<close> and page zero is not mapped,
  \<open>dce_alloc\<close> faults on storing the size instead of returning \<open>NULL\<close>, for every size.
\<close>

lemma dce_alloc_unchecked:
  assumes "mm_alloc M (sz + 8) w = (0, s, m)" "m 0 = None"
  shows "dce_alloc M sz w = None"
  using assms by (simp add: dce_alloc_def layout store32_unmapped)

lemma dce_alloc_unchecked_witness:
  "dce_alloc (sample_memmgr\<lparr>mm_alloc := \<lambda>len (s, m). (0, s, m)\<rparr>) 16 (0, sample_mem) = None"
  by (rule dce_alloc_unchecked [where s = 0 and m = sample_mem]) (simp_all add: sample_mem_def)

text \<open>
  The two sides treat \<open>NULL\<close> differently: \<open>virt2ducati\<close> maps it to 0 without touching memory,
  \<open>dce_clean\<close> reads a header eight bytes below address zero.
\<close>

lemma null_pointer_translated_not_cleaned:
  "virt2ducati m 0 = Some 0 \<and> dce_clean m 0 = map_option (\<lambda>sz. (0, sz)) (load32 m (- 8))"
  by (simp add: virt2ducati_def dce_clean_def P2H_eq)

end
