(* ===== verification/Ivahd.thy ===== *)
theory Ivahd
  imports Prelude
begin

text \<open>
  The video accelerator as \<^verbatim>\<open>ducati/platform/base_image/src/main.c\<close> drives it: its control
  registers, the boot code of its two processors, the reset sequence \<open>HDVICP_Reset\<close> with its
  polling loops, and the clock divider with the use count that \<open>ivahd_acquire\<close> and
  \<open>ivahd_release\<close> keep. Registers are volatile: reading one may change the hardware, so the
  definitions take the bus as a record of a read and a write function over a hardware state
  \<open>'h\<close>. A polling loop that never sees its status bit is \<open>None\<close>. Debug traces read registers
  too, but not at the trace level the file is compiled with.
\<close>

record 'h mmio =
  rd :: "u32 \<Rightarrow> 'h \<Rightarrow> u32 \<times> 'h"
  wr :: "u32 \<Rightarrow> u32 \<Rightarrow> 'h \<Rightarrow> 'h"

definition PM_IVAHD_PWRSTCTRL :: u32 where "PM_IVAHD_PWRSTCTRL = 0xAA306F00"
definition RM_IVAHD_RSTCTRL :: u32 where "RM_IVAHD_RSTCTRL = 0xAA306F10"
definition RM_IVAHD_RSTST :: u32 where "RM_IVAHD_RSTST = 0xAA306F14"
definition CM_IVAHD_CLKSTCTRL :: u32 where "CM_IVAHD_CLKSTCTRL = 0xAA008F00"
definition CM_IVAHD_CLKCTRL :: u32 where "CM_IVAHD_CLKCTRL = 0xAA008F20"
definition CM_IVAHD_SL2_CLKCTRL :: u32 where "CM_IVAHD_SL2_CLKCTRL = 0xAA008F28"
definition CM_DIV_M5_DPLL_IVA :: u32 where "CM_DIV_M5_DPLL_IVA = 0xAA0041BC"
definition IVAHD_CONFIG_REG_BASE :: u32 where "IVAHD_CONFIG_REG_BASE = 0xBA000000"
definition ICONT1_ITCM_BASE :: u32 where "ICONT1_ITCM_BASE = IVAHD_CONFIG_REG_BASE + 0x08000"
definition ICONT2_ITCM_BASE :: u32 where "ICONT2_ITCM_BASE = IVAHD_CONFIG_REG_BASE + 0x18000"

lemmas ivahd_regs =
  RM_IVAHD_RSTCTRL_def RM_IVAHD_RSTST_def CM_IVAHD_CLKSTCTRL_def CM_IVAHD_CLKCTRL_def
  CM_IVAHD_SL2_CLKCTRL_def CM_DIV_M5_DPLL_IVA_def IVAHD_CONFIG_REG_BASE_def
  ICONT1_ITCM_BASE_def ICONT2_ITCM_BASE_def

definition icont_boot :: "u32 list" where
  "icont_boot = [
     0xEA000006, 0xEAFFFFFE, 0xEAFFFFFE, 0xEAFFFFFE, 0xEAFFFFFE, 0xEAFFFFFE, 0xEAFFFFFE,
     0xEAFFFFFE, 0xE3A00000, 0xEE070F9A, 0xEE070F90, 0xE3A00000, 0xEAFFFFFE, 0xEAFFFFF1]"

text \<open>\<open>REG = f (REG)\<close>: one read, one write.\<close>

definition rmw :: "'h mmio \<Rightarrow> u32 \<Rightarrow> (u32 \<Rightarrow> u32) \<Rightarrow> 'h \<Rightarrow> 'h" where
  "rmw io a f h = (case rd io a h of (v, h1) \<Rightarrow> wr io a (f v) h1)"

text \<open>\<open>while (!stop(REG));\<close>\<close>

partial_function (option) poll :: "'h mmio \<Rightarrow> (u32 \<Rightarrow> bool) \<Rightarrow> u32 \<Rightarrow> 'h \<Rightarrow> 'h option" where
  "poll io stop a h =
     (case rd io a h of (v, h1) \<Rightarrow> if stop v then Some h1 else poll io stop a h1)"

fun copy_boot :: "'h mmio \<Rightarrow> u32 list \<Rightarrow> u32 \<Rightarrow> u32 \<Rightarrow> 'h \<Rightarrow> 'h" where
  "copy_boot io [] p1 p2 h = h"
| "copy_boot io (w # ws) p1 p2 h = copy_boot io ws (p1 + 4) (p2 + 4) (wr io p2 w (wr io p1 w h))"

definition HDVICP_Reset :: "'h mmio \<Rightarrow> 'h \<Rightarrow> (u32 \<times> 'h) option" where
  "HDVICP_Reset io h0 = do {
     let h = rmw io CM_IVAHD_CLKSTCTRL (\<lambda>v. v OR 0x00000003) h0;
     h \<leftarrow> poll io (\<lambda>v. v AND 0x00040000 \<noteq> 0) CM_IVAHD_CLKCTRL h;
     let h = wr io CM_IVAHD_CLKCTRL 0x00000000 h;
     let h = wr io CM_IVAHD_SL2_CLKCTRL 0x00000000 h;
     h \<leftarrow> poll io (\<lambda>v. v AND 0x00030000 \<noteq> 0) CM_IVAHD_CLKCTRL h;
     h \<leftarrow> poll io (\<lambda>v. v AND 0x00030000 \<noteq> 0) CM_IVAHD_SL2_CLKCTRL h;
     let h = rmw io RM_IVAHD_RSTCTRL (\<lambda>v. v OR 0x00000007) h;
     let h = rmw io RM_IVAHD_RSTST (\<lambda>v. v OR 0x00000007) h;
     let h = copy_boot io icont_boot ICONT1_ITCM_BASE ICONT2_ITCM_BASE h;
     let h = rmw io CM_IVAHD_CLKSTCTRL (\<lambda>v. v AND 0x00000002) h;
     let h = wr io CM_IVAHD_CLKCTRL 0x00000001 h;
     let h = wr io CM_IVAHD_SL2_CLKCTRL 0x00000001 h;
     let h = rmw io RM_IVAHD_RSTCTRL (\<lambda>v. v AND 0xFFFFFFFB) h;
     h \<leftarrow> poll io (\<lambda>v. v AND 0x00030000 = 0) CM_IVAHD_CLKCTRL h;
     h \<leftarrow> poll io (\<lambda>v. v AND 0x00030000 = 0) CM_IVAHD_SL2_CLKCTRL h;
     Some (1, h) }"

text \<open>The operating points of \<open>set_ivahd_opp\<close>; any other is traced as an error and ignored.\<close>

definition opp_val :: "int \<Rightarrow> u32 option" where
  "opp_val opp =
     (if opp = 0 then Some 0x010e else if opp = 50 then Some 0x000e
      else if opp = 100 then Some 0x0007 else None)"

definition set_ivahd_opp :: "'h mmio \<Rightarrow> int \<Rightarrow> 'h \<Rightarrow> 'h" where
  "set_ivahd_opp io opp h =
     (case opp_val opp of
        None \<Rightarrow> h
      | Some val \<Rightarrow> rmw io CM_DIV_M5_DPLL_IVA (\<lambda>v. (v AND NOT 0x0000011f) OR val) h)"

text \<open>
  The use count with the hardware. \<open>Hwi_disable\<close> and \<open>Hwi_restore\<close> make each of the two
  functions one indivisible step.
\<close>

record 'h power =
  use_cnt :: u32
  hw :: 'h

definition ivahd_acquire :: "'h mmio \<Rightarrow> 'h power \<Rightarrow> 'h power" where
  "ivahd_acquire io s =
     (let s1 = s\<lparr>use_cnt := use_cnt s + 1\<rparr>
      in if use_cnt s1 = 1 then s1\<lparr>hw := set_ivahd_opp io 100 (hw s1)\<rparr> else s1)"

definition ivahd_release :: "'h mmio \<Rightarrow> 'h power \<Rightarrow> 'h power" where
  "ivahd_release io s =
     (let s1 = s\<lparr>use_cnt := use_cnt s - 1\<rparr>
      in if use_cnt s = 1 then s1\<lparr>hw := set_ivahd_opp io 0 (hw s1)\<rparr> else s1)"

subsection \<open>Polling\<close>

text \<open>The hardware after \<open>n\<close> reads of a register; a status bit that is seen within finitely many.\<close>

fun after_reads :: "'h mmio \<Rightarrow> u32 \<Rightarrow> nat \<Rightarrow> 'h \<Rightarrow> 'h" where
  "after_reads io a 0 h = h"
| "after_reads io a (Suc n) h = after_reads io a n (snd (rd io a h))"

definition settles :: "'h mmio \<Rightarrow> (u32 \<Rightarrow> bool) \<Rightarrow> u32 \<Rightarrow> 'h \<Rightarrow> bool" where
  "settles io stop a h \<longleftrightarrow> (\<exists>n. stop (fst (rd io a (after_reads io a n h))))"

lemma poll_step:
  "poll io stop a h =
     (if stop (fst (rd io a h)) then Some (snd (rd io a h)) else poll io stop a (snd (rd io a h)))"
  by (subst poll.simps) (simp add: case_prod_beta)

lemma poll_stop:
  "stop (fst (rd io a h)) \<Longrightarrow> poll io stop a h = Some (after_reads io a 1 h)"
  by (subst poll_step) simp

lemma poll_next:
  "\<not> stop (fst (rd io a h)) \<Longrightarrow> poll io stop a h = poll io stop a (snd (rd io a h))"
  by (subst poll_step) simp

lemma poll_terminates:
  "stop (fst (rd io a (after_reads io a n h))) \<Longrightarrow>
     \<exists>k. poll io stop a h = Some (after_reads io a k h)"
proof (induction n arbitrary: h)
  case 0
  then have "poll io stop a h = Some (after_reads io a 1 h)" by (intro poll_stop) simp
  then show ?case ..
next
  case (Suc n)
  then obtain k where k: "poll io stop a (snd (rd io a h)) = Some (after_reads io a (Suc k) h)"
    by auto
  show ?case
  proof (cases "stop (fst (rd io a h))")
    case True
    then have "poll io stop a h = Some (after_reads io a 1 h)" by (rule poll_stop)
    then show ?thesis ..
  next
    case False
    then have "poll io stop a h = poll io stop a (snd (rd io a h))" by (rule poll_next)
    also note k
    finally have "poll io stop a h = Some (after_reads io a (Suc k) h)" .
    then show ?thesis ..
  qed
qed

lemma settles_poll:
  "settles io stop a h \<Longrightarrow> \<exists>k. poll io stop a h = Some (after_reads io a k h)"
  unfolding settles_def by (elim exE) (rule poll_terminates)

text \<open>What a loop that returns has seen, by induction over the computation.\<close>

lemma poll_sound:
  assumes "poll io stop a h = Some h'"
  shows "\<exists>g. stop (fst (rd io a g)) \<and> h' = snd (rd io a g)"
proof (rule poll.raw_induct [OF _ assms])
  fix f io stop a and h h' :: 'a
  assume IH: "\<And>io stop a h h'. f io stop a h = Some h' \<Longrightarrow>
      \<exists>g. stop (fst (rd io a g)) \<and> h' = snd (rd io a g)"
    and body: "(case rd io a h of (v, h1) \<Rightarrow> if stop v then Some h1 else f io stop a h1) = Some h'"
  show "\<exists>g. stop (fst (rd io a g)) \<and> h' = snd (rd io a g)"
  proof (cases "stop (fst (rd io a h))")
    case True
    with body show ?thesis by (intro exI [of _ h]) (auto simp: case_prod_beta)
  next
    case False
    with body show ?thesis by (intro IH) (simp add: case_prod_beta)
  qed
qed

subsection \<open>The reset sequence\<close>

text \<open>
  What the accelerator has to do for the five loops to end: report standby after a write of the
  clock state register, report its two modules disabled after they were switched off, and
  enabled after they were switched on, each within finitely many reads and however often the
  other module was polled before.
\<close>

definition ivahd_responds :: "'h mmio \<Rightarrow> bool" where
  "ivahd_responds io \<longleftrightarrow>
     (\<forall>h v. settles io (\<lambda>v. v AND 0x00040000 \<noteq> 0) CM_IVAHD_CLKCTRL (wr io CM_IVAHD_CLKSTCTRL v h)) \<and>
     (\<forall>h. settles io (\<lambda>v. v AND 0x00030000 \<noteq> 0) CM_IVAHD_CLKCTRL
        (wr io CM_IVAHD_SL2_CLKCTRL 0 (wr io CM_IVAHD_CLKCTRL 0 h))) \<and>
     (\<forall>h k. settles io (\<lambda>v. v AND 0x00030000 \<noteq> 0) CM_IVAHD_SL2_CLKCTRL
        (after_reads io CM_IVAHD_CLKCTRL k (wr io CM_IVAHD_SL2_CLKCTRL 0 h))) \<and>
     (\<forall>h f. settles io (\<lambda>v. v AND 0x00030000 = 0) CM_IVAHD_CLKCTRL
        (rmw io RM_IVAHD_RSTCTRL f (wr io CM_IVAHD_SL2_CLKCTRL 1 (wr io CM_IVAHD_CLKCTRL 1 h)))) \<and>
     (\<forall>h f k. settles io (\<lambda>v. v AND 0x00030000 = 0) CM_IVAHD_SL2_CLKCTRL
        (after_reads io CM_IVAHD_CLKCTRL k
          (rmw io RM_IVAHD_RSTCTRL f (wr io CM_IVAHD_SL2_CLKCTRL 1 h))))"

text \<open>The same bus with a log of the writes.\<close>

definition logged :: "'h mmio \<Rightarrow> ('h \<times> (u32 \<times> u32) list) mmio" where
  "logged io = \<lparr>rd = (\<lambda>a (h, l). case rd io a h of (v, h1) \<Rightarrow> (v, h1, l)),
     wr = (\<lambda>a v (h, l). (wr io a v h, l @ [(a, v)]))\<rparr>"

lemma logged_wr [simp]: "wr (logged io) a v (h, l) = (wr io a v h, l @ [(a, v)])"
  by (simp add: logged_def)

lemma logged_rd: "rd (logged io) a (h, l) = (fst (rd io a h), snd (rd io a h), l)"
  by (simp add: logged_def case_prod_beta)

lemma logged_rmw [simp]:
  "rmw (logged io) a f (h, l) = (rmw io a f h, l @ [(a, f (fst (rd io a h)))])"
  by (simp add: rmw_def logged_rd case_prod_beta)

lemma logged_after_reads [simp]:
  "after_reads (logged io) a n (h, l) = (after_reads io a n h, l)"
  by (induction n arbitrary: h) (simp_all add: logged_rd)

lemma logged_settles: "settles (logged io) c a (h, l) \<longleftrightarrow> settles io c a h"
  by (simp add: settles_def logged_rd)

lemma logged_poll:
  assumes "settles io c a h"
  shows "\<exists>k. poll (logged io) c a (h, l) = Some (after_reads io a k h, l)"
  using settles_poll [of "logged io" c a "(h, l)"] assms by (simp add: logged_settles)

text \<open>The writes that copy the boot code, word by word to both processors.\<close>

fun boot_writes :: "u32 list \<Rightarrow> u32 \<Rightarrow> u32 \<Rightarrow> (u32 \<times> u32) list" where
  "boot_writes [] p1 p2 = []"
| "boot_writes (w # ws) p1 p2 = (p1, w) # (p2, w) # boot_writes ws (p1 + 4) (p2 + 4)"

lemma logged_copy_boot [simp]:
  "copy_boot (logged io) ws p1 p2 (h, l) = (copy_boot io ws p1 p2 h, l @ boot_writes ws p1 p2)"
  by (induction ws arbitrary: p1 p2 h l) simp_all

lemma boot_writes_eq:
  "boot_writes ws p1 p2 =
     concat (map (\<lambda>i. [(p1 + 4 * of_nat i, ws ! i), (p2 + 4 * of_nat i, ws ! i)]) [0..<length ws])"
proof (induction ws arbitrary: p1 p2)
  case Nil
  then show ?case by simp
next
  case (Cons w ws)
  have "[0..<length (w # ws)] = 0 # map Suc [0..<length ws]"
    by (simp add: map_Suc_upt upt_conv_Cons del: upt_Suc)
  then show ?case by (simp add: Cons.IH o_def algebra_simps)
qed

definition boot_image :: "(u32 \<times> u32) list" where
  "boot_image = concat (map (\<lambda>i. [(ICONT1_ITCM_BASE + 4 * of_nat i, icont_boot ! i),
     (ICONT2_ITCM_BASE + 4 * of_nat i, icont_boot ! i)]) [0..<14])"

lemma length_boot_image: "length boot_image = 28"
  by (simp add: boot_image_def length_concat comp_def sum_list_triv)

lemma boot_writes_image: "boot_writes icont_boot ICONT1_ITCM_BASE ICONT2_ITCM_BASE = boot_image"
proof -
  have "length icont_boot = 14" by (simp add: icont_boot_def)
  then show ?thesis by (simp only: boot_writes_eq boot_image_def)
qed


lemma poll_logged:
  "stop (fst (rd io a (after_reads io a n h))) \<Longrightarrow>
     poll (logged io) stop a (h, l) = map_option (\<lambda>g. (g, l)) (poll io stop a h)"
proof (induction n arbitrary: h)
  case 0
  then have "stop (fst (rd io a h))" "stop (fst (rd (logged io) a (h, l)))"
    by (simp_all add: logged_rd)
  then show ?case by (simp add: poll_stop logged_rd)
next
  case (Suc n)
  show ?case
  proof (cases "stop (fst (rd io a h))")
    case True
    then have "stop (fst (rd (logged io) a (h, l)))" by (simp add: logged_rd)
    with True show ?thesis by (simp add: poll_stop logged_rd)
  next
    case False
    then have F: "\<not> stop (fst (rd (logged io) a (h, l)))" by (simp add: logged_rd)
    from Suc show ?thesis by (simp add: poll_next [of stop io a h, OF False]
        poll_next [of stop "logged io" a "(h, l)", OF F] logged_rd)
  qed
qed

text \<open>One poll of a sequence: the state it ends in does not depend on the log.\<close>

lemma poll_obtain:
  assumes "settles io c a h"
  obtains k h' where "h' = after_reads io a k h" "\<And>l. poll (logged io) c a (h, l) = Some (h', l)"
proof -
  from settles_poll [OF assms] obtain k where k: "poll io c a h = Some (after_reads io a k h)" ..
  from assms obtain n where "c (fst (rd io a (after_reads io a n h)))"
    by (auto simp: settles_def)
  from poll_logged [of c io a n h, OF this] k
  have "poll (logged io) c a (h, l) = Some (after_reads io a k h, l)" for l by simp
  with that show ?thesis by blast
qed

text \<open>
  C12: on hardware that responds, \<open>HDVICP_Reset\<close> returns \<open>TRUE\<close>, whatever state the accelerator
  was in, and the registers it has written are exactly these, in this order: hardware auto mode,
  both modules off, all resets asserted, reset status cleared, fourteen words of boot code to
  each of the two processors while they are in reset, software wake-up, both modules on, and the
  SL2 reset deasserted last.
\<close>

theorem HDVICP_Reset_sequence:
  assumes "ivahd_responds io"
  shows "\<exists>h' v1 v2 v3 v4 v5. HDVICP_Reset (logged io) (h, []) = Some (1, h',
     [(CM_IVAHD_CLKSTCTRL, v1 OR 3), (CM_IVAHD_CLKCTRL, 0), (CM_IVAHD_SL2_CLKCTRL, 0),
      (RM_IVAHD_RSTCTRL, v2 OR 7), (RM_IVAHD_RSTST, v3 OR 7)] @ boot_image @
     [(CM_IVAHD_CLKSTCTRL, v4 AND 2), (CM_IVAHD_CLKCTRL, 1), (CM_IVAHD_SL2_CLKCTRL, 1),
      (RM_IVAHD_RSTCTRL, v5 AND 0xFFFFFFFB)])"
proof -
  note resp = assms [unfolded ivahd_responds_def]
  let ?h1 = "rmw io CM_IVAHD_CLKSTCTRL (\<lambda>v. v OR 3) h"
  have "settles io (\<lambda>v. v AND 0x00040000 \<noteq> 0) CM_IVAHD_CLKCTRL ?h1"
    using resp by (simp add: rmw_def case_prod_beta)
  then obtain h2 where h2: "\<And>l. poll (logged io) (\<lambda>v. v AND 0x00040000 \<noteq> 0) CM_IVAHD_CLKCTRL
      (?h1, l) = Some (h2, l)" by (rule poll_obtain) blast
  let ?h3 = "wr io CM_IVAHD_SL2_CLKCTRL 0 (wr io CM_IVAHD_CLKCTRL 0 h2)"
  obtain k h4 where k: "h4 = after_reads io CM_IVAHD_CLKCTRL k ?h3"
    and h4: "\<And>l. poll (logged io) (\<lambda>v. v AND 0x00030000 \<noteq> 0) CM_IVAHD_CLKCTRL (?h3, l) = Some (h4, l)"
    by (rule poll_obtain [of io "\<lambda>v. v AND 0x00030000 \<noteq> 0" CM_IVAHD_CLKCTRL ?h3])
       (use resp in blast)+
  obtain h5 where h5: "\<And>l. poll (logged io) (\<lambda>v. v AND 0x00030000 \<noteq> 0) CM_IVAHD_SL2_CLKCTRL (h4, l)
      = Some (h5, l)"
    by (rule poll_obtain [of io "\<lambda>v. v AND 0x00030000 \<noteq> 0" CM_IVAHD_SL2_CLKCTRL h4])
       (use resp k in blast)+
  let ?h6 = "copy_boot io icont_boot ICONT1_ITCM_BASE ICONT2_ITCM_BASE
    (rmw io RM_IVAHD_RSTST (\<lambda>v. v OR 7) (rmw io RM_IVAHD_RSTCTRL (\<lambda>v. v OR 7) h5))"
  let ?h7 = "rmw io RM_IVAHD_RSTCTRL (\<lambda>v. v AND 0xFFFFFFFB) (wr io CM_IVAHD_SL2_CLKCTRL 1
    (wr io CM_IVAHD_CLKCTRL 1 (rmw io CM_IVAHD_CLKSTCTRL (\<lambda>v. v AND 2) ?h6)))"
  obtain k' h8 where k': "h8 = after_reads io CM_IVAHD_CLKCTRL k' ?h7"
    and h8: "\<And>l. poll (logged io) (\<lambda>v. v AND 0x00030000 = 0) CM_IVAHD_CLKCTRL (?h7, l) = Some (h8, l)"
    by (rule poll_obtain [of io "\<lambda>v. v AND 0x00030000 = 0" CM_IVAHD_CLKCTRL ?h7])
       (use resp in blast)+
  obtain h9 where h9: "\<And>l. poll (logged io) (\<lambda>v. v AND 0x00030000 = 0) CM_IVAHD_SL2_CLKCTRL (h8, l)
      = Some (h9, l)"
    by (rule poll_obtain [of io "\<lambda>v. v AND 0x00030000 = 0" CM_IVAHD_SL2_CLKCTRL h8])
       (use resp k' in blast)+
  show ?thesis
    unfolding HDVICP_Reset_def
    by (simp add: h2 h4 h5 h8 h9 Let_def boot_writes_image) blast
qed

text \<open>
  A device that responds at once: a memory of registers in which the module status bits follow
  the last value written to the module's control register.
\<close>

definition sample_io :: "(u32 \<Rightarrow> u32) mmio" where
  "sample_io = \<lparr>rd = (\<lambda>a h. (if a = CM_IVAHD_CLKCTRL \<or> a = CM_IVAHD_SL2_CLKCTRL
       then (if h a = 0 then 0x70000 else 0x40000) else h a, h)), wr = (\<lambda>a v h. h(a := v))\<rparr>"

lemma sample_io_reads: "after_reads sample_io a n h = h"
  by (induction n arbitrary: h) (simp_all add: sample_io_def)

lemma sample_io_settles: "settles sample_io c a h \<longleftrightarrow> c (fst (rd sample_io a h))"
  by (simp add: settles_def sample_io_reads)

lemma sample_io_responds: "ivahd_responds sample_io"
  by (simp add: ivahd_responds_def sample_io_settles sample_io_reads)
     (simp add: sample_io_def ivahd_regs rmw_def)

lemma HDVICP_Reset_sequence_witness:
  "\<exists>h' log. HDVICP_Reset (logged sample_io) (\<lambda>_. 0, []) = Some (1, h', log) \<and> length log = 37"
  using HDVICP_Reset_sequence [OF sample_io_responds, of "\<lambda>_. 0"]
  by (auto simp: length_boot_image)

text \<open>
  Hardware that never reports standby keeps \<open>HDVICP_Reset\<close> in its first loop: there is no
  timeout.
\<close>

lemma HDVICP_Reset_hangs:
  assumes "\<And>h. fst (rd io CM_IVAHD_CLKCTRL h) AND 0x00040000 = 0"
  shows "HDVICP_Reset io h = None"
proof -
  have "poll io (\<lambda>v. v AND 0x00040000 \<noteq> 0) CM_IVAHD_CLKCTRL g = None" for g
    using poll_sound [of io "\<lambda>v. v AND 0x00040000 \<noteq> 0" CM_IVAHD_CLKCTRL g] assms
    by (cases "poll io (\<lambda>v. v AND 0x00040000 \<noteq> 0) CM_IVAHD_CLKCTRL g") auto
  then show ?thesis by (simp add: HDVICP_Reset_def)
qed

lemma HDVICP_Reset_hangs_witness:
  "HDVICP_Reset \<lparr>rd = (\<lambda>a h. (0, h)), wr = (\<lambda>a v h. h)\<rparr> () = None"
  by (rule HDVICP_Reset_hangs) simp

subsection \<open>The clock divider and the use count\<close>

text \<open>
  A plain register: reading returns the last value written. The divider field is the bits
  \<open>0x11f\<close> of \<open>CM_DIV_M5_DPLL_IVA\<close>.
\<close>

definition plain_reg :: "'h mmio \<Rightarrow> u32 \<Rightarrow> bool" where
  "plain_reg io a \<longleftrightarrow> (\<forall>h v. fst (rd io a (wr io a v h)) = v)"

definition divider :: "'h mmio \<Rightarrow> 'h \<Rightarrow> u32" where
  "divider io h = fst (rd io CM_DIV_M5_DPLL_IVA h) AND 0x0000011f"

definition other_bits :: "'h mmio \<Rightarrow> 'h \<Rightarrow> u32" where
  "other_bits io h = fst (rd io CM_DIV_M5_DPLL_IVA h) AND NOT 0x0000011f"

lemma masked_update:
  fixes v val :: u32
  assumes "val AND NOT 0x11f = 0"
  shows "((v AND NOT 0x11f) OR val) AND 0x11f = val"
    and "((v AND NOT 0x11f) OR val) AND NOT 0x11f = v AND NOT 0x11f"
proof -
  have "val AND 0x11f = val"
    using assms by (metis (no_types) bit.conj_disj_distrib bit.disj_cancel_right bit.disj_zero_right
        bit.conj_one_right)
  then show "((v AND NOT 0x11f) OR val) AND 0x11f = val"
    by (simp add: bit.conj_disj_distrib2 and.assoc)
  show "((v AND NOT 0x11f) OR val) AND NOT 0x11f = v AND NOT 0x11f"
    using assms by (simp add: bit.conj_disj_distrib2 and.assoc)
qed

lemma set_ivahd_opp_divider:
  assumes "plain_reg io CM_DIV_M5_DPLL_IVA" "opp_val opp = Some val"
  shows "divider io (set_ivahd_opp io opp h) = val"
    and "other_bits io (set_ivahd_opp io opp h) = other_bits io h"
proof -
  have "val AND NOT 0x11f = 0"
    using assms(2) by (auto simp: opp_val_def split: if_splits)
  note mask = masked_update [OF this]
  show "divider io (set_ivahd_opp io opp h) = val"
    "other_bits io (set_ivahd_opp io opp h) = other_bits io h"
    using assms mask
    by (simp_all add: set_ivahd_opp_def rmw_def case_prod_beta plain_reg_def divider_def other_bits_def)
qed

text \<open>
  The threads that run \<open>VIDDEC3_process\<close> on the server: each takes the accelerator before the
  codec's call and releases it after. Between these, the codecs may do what they like to the
  hardware except to the divider. \<open>busy\<close> is the set of threads between acquire and release;
  the pool has three workers.
\<close>

type_synonym 'h sharing = "'h power \<times> nat set"

inductive sharing_step :: "'h mmio \<Rightarrow> 'h sharing \<Rightarrow> 'h sharing \<Rightarrow> bool" for io where
  enter: "t < 3 \<Longrightarrow> t \<notin> busy \<Longrightarrow> sharing_step io (s, busy) (ivahd_acquire io s, insert t busy)"
| leave: "t \<in> busy \<Longrightarrow> sharing_step io (s, busy) (ivahd_release io s, busy - {t})"
| other: "fst (rd io CM_DIV_M5_DPLL_IVA h) = fst (rd io CM_DIV_M5_DPLL_IVA (hw s)) \<Longrightarrow>
     sharing_step io (s, busy) (s\<lparr>hw := h\<rparr>, busy)"

inductive_cases sharing_stepE: "sharing_step io (s, busy) c"

inductive sharing_reach :: "'h mmio \<Rightarrow> 'h \<Rightarrow> 'h sharing \<Rightarrow> bool" for io h0 where
  start: "sharing_reach io h0 (\<lparr>use_cnt = 0, hw = set_ivahd_opp io 0 h0\<rparr>, {})"
| step: "sharing_reach io h0 c \<Longrightarrow> sharing_step io c c' \<Longrightarrow> sharing_reach io h0 c'"

definition sharing_inv :: "'h mmio \<Rightarrow> 'h \<Rightarrow> 'h sharing \<Rightarrow> bool" where
  "sharing_inv io h0 = (\<lambda>(s, busy).
     busy \<subseteq> {..<3} \<and> use_cnt s = of_nat (card busy) \<and>
     divider io (hw s) = (if busy = {} then 0x010e else 0x0007) \<and>
     other_bits io (hw s) = other_bits io h0)"

lemma small_card:
  fixes busy :: "nat set"
  assumes "busy \<subseteq> {..<3}"
  shows "finite busy" "card busy \<le> 3"
  using assms finite_subset card_mono [of "{..<3::nat}" busy] by auto

lemma of_nat_card_eq_0:
  fixes busy :: "nat set"
  assumes "busy \<subseteq> {..<3}"
  shows "of_nat (card busy) = (0 :: u32) \<longleftrightarrow> busy = {}"
proof -
  have "unat (of_nat (card busy) :: u32) = card busy"
    using small_card(2) [OF assms] by (simp add: unsigned_of_nat take_bit_nat_eq_self)
  then show ?thesis using small_card(1) [OF assms] by (auto simp: word_unat_eq_iff)
qed

lemma acquire_cases:
  "use_cnt (ivahd_acquire io s) = use_cnt s + 1"
  "hw (ivahd_acquire io s) = (if use_cnt s = 0 then set_ivahd_opp io 100 (hw s) else hw s)"
  by (simp_all add: ivahd_acquire_def Let_def)

lemma release_cases:
  "use_cnt (ivahd_release io s) = use_cnt s - 1"
  "hw (ivahd_release io s) = (if use_cnt s = 1 then set_ivahd_opp io 0 (hw s) else hw s)"
  by (simp_all add: ivahd_release_def Let_def)

lemma opp_dividers:
  assumes "plain_reg io CM_DIV_M5_DPLL_IVA"
  shows "divider io (set_ivahd_opp io 100 h) = 7" "divider io (set_ivahd_opp io 0 h) = 0x10e"
    "other_bits io (set_ivahd_opp io 100 h) = other_bits io h"
    "other_bits io (set_ivahd_opp io 0 h) = other_bits io h"
  using assms by (simp_all add: set_ivahd_opp_divider opp_val_def)

lemma enter_inv:
  assumes "plain_reg io CM_DIV_M5_DPLL_IVA" "sharing_inv io h0 (s, busy)" "t < 3" "t \<notin> busy"
  shows "sharing_inv io h0 (ivahd_acquire io s, insert t busy)"
proof -
  have b: "busy \<subseteq> {..<3}" and u: "use_cnt s = of_nat (card busy)"
    using assms(2) by (auto simp: sharing_inv_def)
  then have "use_cnt s = 0 \<longleftrightarrow> busy = {}" using of_nat_card_eq_0 [OF b] by simp
  with assms u small_card(1) [OF b] show ?thesis
    by (simp add: sharing_inv_def acquire_cases opp_dividers)
qed

lemma leave_inv:
  assumes "plain_reg io CM_DIV_M5_DPLL_IVA" "sharing_inv io h0 (s, busy)" "t \<in> busy"
  shows "sharing_inv io h0 (ivahd_release io s, busy - {t})"
proof -
  have b: "busy \<subseteq> {..<3}" and u: "use_cnt s = of_nat (card busy)" and ne: "busy \<noteq> {}"
    using assms(2,3) by (auto simp: sharing_inv_def)
  have c: "of_nat (card busy) = (of_nat (card (busy - {t})) + 1 :: u32)"
    using assms(3) small_card(1) [OF b] by (simp add: card.remove del: card_Diff_insert)
  have "busy - {t} \<subseteq> {..<3}" using b by auto
  from of_nat_card_eq_0 [OF this] c u have "use_cnt s = 1 \<longleftrightarrow> busy - {t} = {}" by simp
  with assms(1,2) b u c ne show ?thesis
    by (auto simp: sharing_inv_def release_cases opp_dividers)
qed

lemma sharing_reach_inv:
  assumes "sharing_reach io h0 c" "plain_reg io CM_DIV_M5_DPLL_IVA"
  shows "sharing_inv io h0 c"
  using assms(1)
proof induction
  case start
  then show ?case by (simp add: sharing_inv_def opp_dividers [OF assms(2)])
next
  case (step c c')
  obtain s busy where c: "c = (s, busy)" by (cases c)
  show ?case
    using step.hyps(2) step.IH unfolding c
  proof (elim sharing_stepE)
    fix h
    assume "c' = (s\<lparr>hw := h\<rparr>, busy)"
      and "fst (rd io CM_DIV_M5_DPLL_IVA h) = fst (rd io CM_DIV_M5_DPLL_IVA (hw s))"
      and "sharing_inv io h0 (s, busy)"
    then show "sharing_inv io h0 c'" by (simp add: sharing_inv_def divider_def other_bits_def)
  qed (auto simp: enter_inv leave_inv assms(2))
qed

text \<open>
  In every interleaving of the three server threads, the use count is the number of threads
  that are processing, and the clock divider is at the full-speed setting exactly while there is
  one and at the off setting otherwise; the other bits of the register are never changed.
\<close>

lemma ivahd_clock_follows_use:
  assumes "sharing_reach io h0 (s, busy)" "plain_reg io CM_DIV_M5_DPLL_IVA"
  shows "use_cnt s = of_nat (card busy) \<and> card busy \<le> 3 \<and>
     divider io (hw s) = (if busy = {} then 0x010e else 0x0007) \<and>
     other_bits io (hw s) = other_bits io h0"
  using sharing_reach_inv [OF assms] small_card(2) by (auto simp: sharing_inv_def)

lemma sample_io_plain: "plain_reg sample_io CM_DIV_M5_DPLL_IVA"
  by (simp add: plain_reg_def sample_io_def ivahd_regs)

lemma two_threads_reach:
  "sharing_reach sample_io h0 (ivahd_acquire sample_io (ivahd_acquire sample_io
     \<lparr>use_cnt = 0, hw = set_ivahd_opp sample_io 0 h0\<rparr>), {1, 0})"
proof -
  let ?s = "\<lparr>use_cnt = 0, hw = set_ivahd_opp sample_io 0 h0\<rparr>"
  have 1: "sharing_reach sample_io h0 (ivahd_acquire sample_io ?s, {0})"
    by (rule sharing_reach.step [OF sharing_reach.start sharing_step.enter]) simp_all
  show ?thesis
    by (rule sharing_reach.step [OF 1 sharing_step.enter]) simp_all
qed

lemma ivahd_clock_follows_use_witness:
  "divider sample_io (hw (ivahd_acquire sample_io (ivahd_acquire sample_io
     \<lparr>use_cnt = 0, hw = set_ivahd_opp sample_io 0 (\<lambda>_. 0xFFFFFFFF)\<rparr>))) = 0x0007"
  using ivahd_clock_follows_use [OF two_threads_reach sample_io_plain] by simp

end
