(* ===== verification/Rpc_Server.thy ===== *)
theory Rpc_Server
  imports Rpc_Args Mem_Header Client_Table Ivahd
begin

text \<open>
  The server side of \<^verbatim>\<open>dce.c\<close> (the parts under \<open>SERVER\<close>): the six \<open>rpc_\<close> functions that unpack a
  message, call the codec engine and pack its result, the cleanup of a client that died, and
  \<open>dce_init\<close> and \<open>dce_deinit\<close>. The codec engine, the cache, the task environment, the RCM server
  and the power management library are not under \<^verbatim>\<open>src/\<close>; their functions are the fields of a
  record. Everything they keep, the registers of the accelerator included, is one world \<open>'w\<close>.
  A state of the server is the client table, the memory it sees and the world with the use
  count of the accelerator. \<open>None\<close> is an access to memory that is not mapped.
\<close>

record 'w ce_api =
  set_env :: "u32 \<Rightarrow> 'w \<Rightarrow> 'w"
  ce_open :: "cstr \<Rightarrow> mem \<times> 'w \<Rightarrow> (u32 \<times> u32) \<times> mem \<times> 'w"
  ce_close :: "u32 \<Rightarrow> mem \<times> 'w \<Rightarrow> mem \<times> 'w"
  ce_create :: "u32 \<Rightarrow> cstr \<Rightarrow> u32 \<Rightarrow> mem \<times> 'w \<Rightarrow> u32 \<times> mem \<times> 'w"
  ce_control :: "u32 \<Rightarrow> u32 \<Rightarrow> u32 \<Rightarrow> u32 \<Rightarrow> mem \<times> 'w \<Rightarrow> u32 \<times> mem \<times> 'w"
  ce_process :: "u32 \<Rightarrow> u32 \<Rightarrow> u32 \<Rightarrow> u32 \<Rightarrow> u32 \<Rightarrow> mem \<times> 'w \<Rightarrow> u32 \<times> mem \<times> 'w"
  ce_delete :: "u32 \<Rightarrow> mem \<times> 'w \<Rightarrow> mem \<times> 'w"
  cache_wbinv :: "u32 \<Rightarrow> u32 \<Rightarrow> mem \<times> 'w \<Rightarrow> mem \<times> 'w"
  bus :: "'w mmio"

record 'w server =
  clients :: table
  smem :: mem
  power :: "'w power"

definition world :: "'w server \<Rightarrow> mem \<times> 'w" where
  "world s = (smem s, hw (power s))"

definition with_world :: "mem \<times> 'w \<Rightarrow> 'w server \<Rightarrow> 'w server" where
  "with_world w s = s\<lparr>smem := fst w, power := (power s)\<lparr>hw := snd w\<rparr>\<rparr>"

text \<open>A call of the engine that returns a value, and one that does not.\<close>

definition call :: "(mem \<times> 'w \<Rightarrow> 'a \<times> mem \<times> 'w) \<Rightarrow> 'w server \<Rightarrow> 'a \<times> 'w server" where
  "call f s = (case f (world s) of (x, w) \<Rightarrow> (x, with_world w s))"

definition run :: "(mem \<times> 'w \<Rightarrow> mem \<times> 'w) \<Rightarrow> 'w server \<Rightarrow> 'w server" where
  "run f s = with_world (f (world s)) s"

definition task_set_env :: "'w ce_api \<Rightarrow> u32 \<Rightarrow> 'w server \<Rightarrow> 'w server" where
  "task_set_env A pid = run (\<lambda>(m, w). (m, set_env A pid w))"

text \<open>\<open>dce_clean\<close> on the server's memory.\<close>

definition clean :: "'w ce_api \<Rightarrow> u32 \<Rightarrow> 'w server \<Rightarrow> 'w server option" where
  "clean A p s = (case dce_clean (smem s) p of
     None \<Rightarrow> None | Some (q, sz) \<Rightarrow> Some (run (cache_wbinv A q sz) s))"

type_synonym 'w rpc = "bytes \<Rightarrow> 'w server \<Rightarrow> (u32 \<times> bytes \<times> 'w server) option"

definition rpc_Engine_open :: "'w ce_api \<Rightarrow> 'w rpc" where
  "rpc_Engine_open A data s = do {
     let pid = getf Engine_open_args [''in'', ''pid''] data;
     let s = task_set_env A (getf Engine_open_args [''in'', ''pid''] data) s;
     name \<leftarrow> name_at Engine_open_args [''in'', ''name''] data;
     let ((engine, ec), s) = call (ce_open A name) s;
     let data = putf Engine_open_args [''out'', ''engine''] engine data;
     let data = putf Engine_open_args [''out'', ''ec''] ec data;
     let engine = getf Engine_open_args [''out'', ''engine''] data;
     let s = (if engine \<noteq> 0 then s\<lparr>clients := dce_register_engine (clients s) pid engine\<rparr> else s);
     Some (0, data, s) }"

definition rpc_Engine_close :: "'w ce_api \<Rightarrow> 'w rpc" where
  "rpc_Engine_close A data s = (
     let pid = getf Engine_close_args [''in'', ''pid''] data;
         engine = getf Engine_close_args [''in'', ''engine''] data;
         s = s\<lparr>clients := dce_unregister_engine (clients s) pid engine\<rparr>;
         s = task_set_env A pid s;
         s = run (ce_close A engine) s
     in Some (0, data, s))"

definition rpc_VIDDEC3_create :: "'w ce_api \<Rightarrow> 'w rpc" where
  "rpc_VIDDEC3_create A data s = do {
     let params = getf VIDDEC3_create_args [''in'', ''params''] data;
     let pid = getf VIDDEC3_create_args [''in'', ''pid''] data;
     let s = task_set_env A pid s;
     name \<leftarrow> name_at VIDDEC3_create_args [''in'', ''name''] data;
     let (codec, s) =
       call (ce_create A (getf VIDDEC3_create_args [''in'', ''engine''] data) name params) s;
     let data = putf VIDDEC3_create_args [''out'', ''codec''] codec data;
     s \<leftarrow> clean A params s;
     let codec = getf VIDDEC3_create_args [''out'', ''codec''] data;
     let s = (if codec \<noteq> 0 then s\<lparr>clients := dce_register_codec (clients s) pid codec\<rparr> else s);
     Some (0, data, s) }"

definition rpc_VIDDEC3_control :: "'w ce_api \<Rightarrow> 'w rpc" where
  "rpc_VIDDEC3_control A data s = do {
     let dynParams = getf VIDDEC3_control_args [''in'', ''dynParams''] data;
     let status = getf VIDDEC3_control_args [''in'', ''status''] data;
     let s = task_set_env A (getf VIDDEC3_control_args [''in'', ''pid''] data) s;
     let (ret, s) =
       call (ce_control A (getf VIDDEC3_control_args [''in'', ''codec''] data)
         (getf VIDDEC3_control_args [''in'', ''id''] data) dynParams status) s;
     let data = putf VIDDEC3_control_args [''out'', ''ret''] ret data;
     s \<leftarrow> clean A dynParams s;
     s \<leftarrow> clean A status s;
     Some (0, data, s) }"

definition rpc_VIDDEC3_process :: "'w ce_api \<Rightarrow> 'w rpc" where
  "rpc_VIDDEC3_process A data s = do {
     let inBufs = getf VIDDEC3_process_args [''in'', ''inBufs''] data;
     let outBufs = getf VIDDEC3_process_args [''in'', ''outBufs''] data;
     let inArgs = getf VIDDEC3_process_args [''in'', ''inArgs''] data;
     let outArgs = getf VIDDEC3_process_args [''in'', ''outArgs''] data;
     let s = task_set_env A (getf VIDDEC3_process_args [''in'', ''pid''] data) s;
     let s = s\<lparr>power := ivahd_acquire (bus A) (power s)\<rparr>;
     let (ret, s) =
       call (ce_process A (getf VIDDEC3_process_args [''in'', ''codec''] data)
         inBufs outBufs inArgs outArgs) s;
     let data = putf VIDDEC3_process_args [''out'', ''ret''] ret data;
     let s = s\<lparr>power := ivahd_release (bus A) (power s)\<rparr>;
     s \<leftarrow> clean A inBufs s;
     s \<leftarrow> clean A outBufs s;
     s \<leftarrow> clean A inArgs s;
     s \<leftarrow> clean A outArgs s;
     Some (0, data, s) }"

definition rpc_VIDDEC3_delete :: "'w ce_api \<Rightarrow> 'w rpc" where
  "rpc_VIDDEC3_delete A data s = (
     let pid = getf VIDDEC3_delete_args [''in'', ''pid''] data;
         codec = getf VIDDEC3_delete_args [''in'', ''codec''] data;
         s = s\<lparr>clients := dce_unregister_codec (clients s) pid codec\<rparr>;
         s = task_set_env A pid s;
         s = run (ce_delete A codec) s
     in Some (0, data, s))"

text \<open>
  The two loops of \<open>dce_cleanup_cb\<close> over the arrays of the entry \<open>c\<close>, which the calls in the
  loop change. The local \<open>args\<close> is a fresh block of the size of the union.
\<close>

fun cleanup_codecs :: "'w ce_api \<Rightarrow> u32 \<Rightarrow> nat \<Rightarrow> nat list \<Rightarrow> 'w server \<Rightarrow> 'w server option" where
  "cleanup_codecs A pid c [] s = Some s"
| "cleanup_codecs A pid c (i # is) s =
     (let h = c_codecs (clients s ! c) ! i in
      if h \<noteq> 0 then do {
        (_, _, s) \<leftarrow> rpc_VIDDEC3_delete A (fill_VIDDEC3_delete pid h (replicate 8 0)) s;
        cleanup_codecs A pid c is s }
      else cleanup_codecs A pid c is s)"

fun cleanup_engines :: "'w ce_api \<Rightarrow> u32 \<Rightarrow> nat \<Rightarrow> nat list \<Rightarrow> 'w server \<Rightarrow> 'w server option" where
  "cleanup_engines A pid c [] s = Some s"
| "cleanup_engines A pid c (i # is) s =
     (let h = c_engines (clients s ! c) ! i in
      if h \<noteq> 0 then do {
        (_, _, s) \<leftarrow> rpc_Engine_close A (fill_Engine_close pid h (replicate 8 0)) s;
        cleanup_engines A pid c is s }
      else cleanup_engines A pid c is s)"

text \<open>The event is \<open>slpm_PROC_OBIT\<close> or another.\<close>

definition dce_cleanup_cb :: "'w ce_api \<Rightarrow> bool \<Rightarrow> u32 \<Rightarrow> 'w server \<Rightarrow> 'w server option" where
  "dce_cleanup_cb A obit pid s =
     (if \<not> obit then Some s
      else case get_client (clients s) pid of
        None \<Rightarrow> Some s
      | Some c \<Rightarrow> do {
          s \<leftarrow> cleanup_codecs A pid c [0..<10] s;
          cleanup_engines A pid c [0..<10] s })"

end
