(* ===== verification/Server_Cleanup.thy ===== *)
theory Server_Cleanup
  imports Rpc_Server Client_History
begin

text \<open>
  What the server's handlers do to the client table, and the cleanup of a client that died
  (\<^verbatim>\<open>dce_cleanup_cb\<close> in \<^verbatim>\<open>dce.c\<close>): the loops over the arrays that their own calls change
  visit every recorded handle exactly once, codecs before engines.
\<close>

subsection \<open>The handlers and the table\<close>

lemma clients_run [simp]: "clients (run f s) = clients s"
  by (simp add: run_def with_world_def)

lemma clients_task_set_env [simp]: "clients (task_set_env A pid s) = clients s"
  by (simp add: task_set_env_def)

lemma clients_call: "call f s = (x, s') \<Longrightarrow> clients s' = clients s"
  by (auto simp: call_def with_world_def split: prod.splits)

lemma clients_clean: "clean A p s = Some s' \<Longrightarrow> clients s' = clients s"
  by (auto simp: clean_def split: option.splits)

text \<open>The effect of one \<open>rpc_VIDDEC3_delete\<close>, and of one \<open>rpc_Engine_close\<close>.\<close>

definition delete_step :: "'w ce_api \<Rightarrow> u32 \<Rightarrow> u32 \<Rightarrow> 'w server \<Rightarrow> 'w server" where
  "delete_step A pid h s =
     run (ce_delete A h) (task_set_env A pid
       (s\<lparr>clients := dce_unregister_codec (clients s) pid h\<rparr>))"

definition close_step :: "'w ce_api \<Rightarrow> u32 \<Rightarrow> u32 \<Rightarrow> 'w server \<Rightarrow> 'w server" where
  "close_step A pid h s =
     run (ce_close A h) (task_set_env A pid
       (s\<lparr>clients := dce_unregister_engine (clients s) pid h\<rparr>))"

lemma delete_step_clients [simp]:
  "clients (delete_step A pid h s) = dce_unregister_codec (clients s) pid h"
  by (simp add: delete_step_def)

lemma close_step_clients [simp]:
  "clients (close_step A pid h s) = dce_unregister_engine (clients s) pid h"
  by (simp add: close_step_def)

lemma rpc_VIDDEC3_delete_fill:
  "8 \<le> length d \<Longrightarrow> rpc_VIDDEC3_delete A (fill_VIDDEC3_delete pid h d) s =
     Some (0, fill_VIDDEC3_delete pid h d, delete_step A pid h s)"
  by (simp add: rpc_VIDDEC3_delete_def read_VIDDEC3_delete delete_step_def Let_def)

lemma rpc_Engine_close_fill:
  "8 \<le> length d \<Longrightarrow> rpc_Engine_close A (fill_Engine_close pid h d) s =
     Some (0, fill_Engine_close pid h d, close_step A pid h s)"
  by (simp add: rpc_Engine_close_def read_Engine_close close_step_def Let_def)

subsection \<open>The table under a sequence of deletes and closes\<close>

lemma registry_pid_nonzero: "registry_of cl pid = Some x \<Longrightarrow> pid \<noteq> 0"
  by (auto simp: registry_of_def split: if_splits)

lemma delete_step_table:
  assumes "table_inv (clients s)" "registry_of (clients s) pid = Some (E, add_mset h C)"
  shows "table_inv (clients (delete_step A pid h s))"
    and "registry_of (clients (delete_step A pid h s)) = (registry_of (clients s))(pid \<mapsto> (E, C))"
proof -
  note pid = registry_pid_nonzero [OF assms(2)]
  have "has_codec (clients s) pid h"
    using limits_simps(4) [OF pid, where cl = "clients s" and h = h] assms(2) by simp
  then show "table_inv (clients (delete_step A pid h s))"
    "registry_of (clients (delete_step A pid h s)) = (registry_of (clients s))(pid \<mapsto> (E, C))"
    using assms pid
    by (simp_all add: unregister_codec_inv spec_unregister_codec_refines spec_unregister_codec_def)
qed

lemma close_step_table:
  assumes "table_inv (clients s)" "registry_of (clients s) pid = Some (add_mset h E, C)"
  shows "table_inv (clients (close_step A pid h s))"
    and "registry_of (clients (close_step A pid h s)) = (registry_of (clients s))
       (pid := if E = {#} \<and> C = {#} then None else Some (E, C))"
proof -
  note pid = registry_pid_nonzero [OF assms(2)]
  have "has_engine (clients s) pid h"
    using limits_simps(3) [OF pid, where cl = "clients s" and h = h] assms(2) by simp
  then show "table_inv (clients (close_step A pid h s))"
    "registry_of (clients (close_step A pid h s)) = (registry_of (clients s))
       (pid := if E = {#} \<and> C = {#} then None else Some (E, C))"
    using assms pid
    by (simp_all add: unregister_engine_inv spec_unregister_engine_refines spec_unregister_engine_def)
qed

lemma fold_delete_table:
  assumes "table_inv (clients s)" "registry_of (clients s) pid = Some (E, mset hs + C)"
  shows "table_inv (clients (fold (delete_step A pid) hs s)) \<and>
     registry_of (clients (fold (delete_step A pid) hs s)) = (registry_of (clients s))(pid \<mapsto> (E, C))"
  using assms
proof (induction hs arbitrary: s)
  case Nil
  then show ?case by (simp add: fun_upd_idem)
next
  case (Cons h hs)
  then have "registry_of (clients s) pid = Some (E, add_mset h (mset hs + C))" by simp
  note step = delete_step_table [OF Cons.prems(1) this, of A]
  have "registry_of (clients (delete_step A pid h s)) pid = Some (E, mset hs + C)"
    by (simp only: step(2) fun_upd_same)
  from Cons.IH [OF step(1) this] show ?case
    by (simp only: step(2) fun_upd_upd fold.simps o_apply simp_thms)
qed

lemma fold_close_table:
  assumes "table_inv (clients s)" "registry_of (clients s) pid = Some (mset hs, {#})"
  shows "table_inv (clients (fold (close_step A pid) hs s)) \<and>
     registry_of (clients (fold (close_step A pid) hs s)) =
       (if hs = [] then registry_of (clients s) else (registry_of (clients s))(pid := None))"
  using assms
proof (induction hs arbitrary: s)
  case Nil
  then show ?case by simp
next
  case (Cons h hs)
  then have "registry_of (clients s) pid = Some (add_mset h (mset hs), {#})" by simp
  note step = close_step_table [OF Cons.prems(1) this, of A]
  show ?case
  proof (cases "hs = []")
    case True
    with step show ?thesis by (simp del: close_step_clients)
  next
    case False
    with Cons.IH [OF step(1)] step(2) show ?thesis by (simp del: close_step_clients)
  qed
qed

subsection \<open>The loops\<close>

lemma set_first_at_front:
  "h \<noteq> 0 \<Longrightarrow> set_first (\<lambda>e. e = h) 0 (replicate i 0 @ h # xs) = replicate (Suc i) (0 :: u32) @ xs"
  by (induction i) auto

lemma get_client_cong: "map c_pid cl = map c_pid cl' \<Longrightarrow> get_client cl pid = get_client cl' pid"
proof (induction cl arbitrary: cl')
  case (Cons c cl)
  then show ?case by (cases cl') (auto simp: get_client_Cons)
qed (simp add: get_client_def)

lemma cleanup_codecs_fold:
  assumes "get_client (clients s) pid = Some c"
    and "c_codecs (clients s ! c) = replicate i 0 @ hs"
  shows "cleanup_codecs A pid c [i..<i + length hs] s =
     Some (fold (delete_step A pid) (filter (\<lambda>h. h \<noteq> 0) hs) s)"
  using assms
proof (induction hs arbitrary: i s)
  case Nil
  then show ?case by simp
next
  case (Cons h hs)
  have range: "[i..<i + length (h # hs)] = i # [Suc i..<Suc i + length hs]"
    by (subst upt_conv_Cons) simp_all
  have at: "c_codecs (clients s ! c) ! i = h" using Cons.prems(2) by (simp add: nth_append)
  show ?case
  proof (cases "h = 0")
    case True
    with Cons.prems have "c_codecs (clients s ! c) = replicate (Suc i) 0 @ hs"
      by (simp add: replicate_app_Cons_same)
    with True at Cons.IH [OF Cons.prems(1) this] show ?thesis unfolding range by simp
  next
    case False
    let ?s = "delete_step A pid h s"
    have c: "c < length (clients s)" using Cons.prems(1) by (auto dest: get_client_SomeD)
    have g: "get_client (clients ?s) pid = Some c"
      using Cons.prems(1) get_client_cong [OF unregister_codec_pids] by simp
    have "c_codecs (clients ?s ! c) = replicate (Suc i) 0 @ hs"
      using Cons.prems c False set_first_at_front [OF False, of i hs]
      by (simp add: dce_unregister_codec_def)
    with False at Cons.IH [OF g this] show ?thesis
      unfolding range by (simp add: rpc_VIDDEC3_delete_fill)
  qed
qed

lemma cleanup_engines_none:
  "\<forall>i\<in>set is. c_engines (clients s ! c) ! i = 0 \<Longrightarrow> cleanup_engines A pid c is s = Some s"
  by (induction "is") (simp_all add: Let_def)

lemma registry_entry:
  assumes "get_client (clients s) pid = Some c" "registry_of (clients s) pid = Some x"
  shows "x = (engines_of (clients s ! c), codecs_of (clients s ! c))"
  using registry_at [OF assms(1)] registry_pid_nonzero [OF assms(2)] assms(2) by simp

lemma owned_filter: "owned xs = mset (filter (\<lambda>h. h \<noteq> 0) xs)"
  by (simp add: owned_def)

text \<open>
  The loop over the engines: releasing the last one frees the entry, so that the next call would
  not find it, but then nothing is left to close.
\<close>

lemma cleanup_engines_fold:
  assumes "table_inv (clients s)" "get_client (clients s) pid = Some c" "pid \<noteq> 0"
    and "c_engines (clients s ! c) = replicate i 0 @ hs" "codecs_of (clients s ! c) = {#}"
  shows "cleanup_engines A pid c [i..<i + length hs] s =
     Some (fold (close_step A pid) (filter (\<lambda>h. h \<noteq> 0) hs) s)"
  using assms
proof (induction hs arbitrary: i s)
  case Nil
  then show ?case by simp
next
  case (Cons h hs)
  have range: "[i..<i + length (h # hs)] = i # [Suc i..<Suc i + length hs]"
    by (subst upt_conv_Cons) simp_all
  have at: "c_engines (clients s ! c) ! i = h" using Cons.prems(4) by (simp add: nth_append)
  show ?case
  proof (cases "h = 0")
    case True
    with Cons.prems have "c_engines (clients s ! c) = replicate (Suc i) 0 @ hs"
      by (simp add: replicate_app_Cons_same)
    with True at Cons.IH [OF Cons.prems(1-3) this Cons.prems(5)] show ?thesis
      unfolding range by simp
  next
    case False
    let ?s = "close_step A pid h s"
    note c = client_at [OF Cons.prems(1,2)]
    have es: "c_engines (clients ?s ! c) = replicate (Suc i) 0 @ hs"
      and cs: "codecs_of (clients ?s ! c) = {#}"
      using Cons.prems c(3) False set_first_at_front [OF False, of i hs]
      by (simp_all add: dce_unregister_engine_def)
    have reg: "registry_of (clients s) pid = Some (add_mset h (owned hs), {#})"
      using registry_at [OF Cons.prems(2,3)] Cons.prems(4,5) False by (simp add: owned_filter)
    note step = close_step_table [OF Cons.prems(1) reg, of A]
    show ?thesis
    proof (cases "owned hs = {#}")
      case True
      then have none: "filter (\<lambda>h. h \<noteq> 0) hs = []"
        and "\<forall>x\<in>set (c_engines (clients ?s ! c)). x = 0"
        unfolding es by (auto simp: owned_filter filter_empty_conv)
      moreover have "length (c_engines (clients ?s ! c)) = Suc i + length hs" unfolding es by simp
      ultimately have "\<forall>k\<in>set [Suc i..<Suc i + length hs]. c_engines (clients ?s ! c) ! k = 0"
        by (metis atLeastLessThan_iff nth_mem set_upt)
      with none False at show ?thesis
        unfolding range by (simp add: rpc_Engine_close_fill cleanup_engines_none del: close_step_clients)
    next
      case ne: False
      have "h \<in># engines_of (clients s ! c)" using Cons.prems(4) False by simp
      from drop_engine_last [OF c(1) _ this] ne c(2) Cons.prems(3,4,5) False
      have "c_pid (drop_engine h (clients s ! c)) \<noteq> 0" by (simp add: owned_filter)
      then have "c_pid (clients ?s ! c) = pid"
        using Cons.prems(2) c by (simp add: dce_unregister_engine_def drop_engine_pid split: if_splits)
      then have g: "get_client (clients ?s) pid = Some c"
        using get_client_iff [OF table_inv_distinct [OF step(1)] Cons.prems(3)] Cons.prems(1,2) c(3)
        by (simp add: dce_unregister_engine_def)
      from Cons.IH [OF step(1) g Cons.prems(3) es cs] False at show ?thesis
        unfolding range by (simp add: rpc_Engine_close_fill del: close_step_clients)
    qed
  qed
qed

subsection \<open>The cleanup of a client\<close>

lemma fold_delete_entry:
  assumes "get_client (clients s) pid = Some c"
  shows "get_client (clients (fold (delete_step A pid) hs s)) pid = Some c \<and>
     c_engines (clients (fold (delete_step A pid) hs s) ! c) = c_engines (clients s ! c)"
  using assms
proof (induction hs arbitrary: s)
  case Nil
  then show ?case by simp
next
  case (Cons h hs)
  have c: "c < length (clients s)" using Cons.prems by (auto dest: get_client_SomeD)
  have "get_client (clients (delete_step A pid h s)) pid = Some c"
    using Cons.prems get_client_cong [OF unregister_codec_pids] by simp
  from Cons.IH [OF this] c Cons.prems show ?case by (simp add: dce_unregister_codec_def)
qed

definition recorded :: "u32 list \<Rightarrow> u32 list" where
  "recorded = filter (\<lambda>h. h \<noteq> 0)"

lemma mset_recorded: "mset (recorded xs) = owned xs"
  by (simp add: recorded_def owned_def)

lemma cleanup_eq:
  assumes "table_inv (clients s)" "get_client (clients s) pid = Some c" "pid \<noteq> 0"
  shows "dce_cleanup_cb A True pid s =
     Some (fold (close_step A pid) (recorded (c_engines (clients s ! c)))
       (fold (delete_step A pid) (recorded (c_codecs (clients s ! c))) s))"
proof -
  let ?s = "fold (delete_step A pid) (recorded (c_codecs (clients s ! c))) s"
  note entry = fold_delete_entry [OF assms(2), of A "recorded (c_codecs (clients s ! c))"]
  have len: "length (c_codecs (clients s ! c)) = 10" "length (c_engines (clients s ! c)) = 10"
    using client_at(1) [OF assms(1,2)] by (simp_all add: client_inv_def client_ok_def)
  have codecs: "cleanup_codecs A pid c [0..<10] s = Some ?s"
    using cleanup_codecs_fold [OF assms(2), of 0 "c_codecs (clients s ! c)" A] len
    by (simp add: recorded_def)
  have reg: "registry_of (clients s) pid =
      Some (engines_of (clients s ! c), mset (recorded (c_codecs (clients s ! c))) + {#})"
    using registry_at [OF assms(2,3)] by (simp add: mset_recorded)
  note tab = fold_delete_table [OF assms(1) reg, of A]
  have "codecs_of (clients ?s ! c) = {#}"
    using registry_entry [of ?s pid c] entry tab by simp
  then have "cleanup_engines A pid c [0..<10] ?s =
      Some (fold (close_step A pid) (recorded (c_engines (clients s ! c))) ?s)"
    using cleanup_engines_fold [of ?s pid c 0 "c_engines (clients s ! c)" A] tab entry assms(3) len
    by (simp add: recorded_def)
  with codecs assms(2) show ?thesis by (simp add: dce_cleanup_cb_def)
qed

lemma cleanup_result:
  assumes "table_inv (clients s)" "get_client (clients s) pid = Some c" "pid \<noteq> 0"
  shows "\<exists>s'. dce_cleanup_cb A True pid s = Some s' \<and>
     s' = fold (close_step A pid) (recorded (c_engines (clients s ! c)))
       (fold (delete_step A pid) (recorded (c_codecs (clients s ! c))) s) \<and>
     table_inv (clients s') \<and>
     registry_of (clients s') = (registry_of (clients s))
       (pid := if engines_of (clients s ! c) = {#} then Some ({#}, {#}) else None)"
proof -
  let ?es = "recorded (c_engines (clients s ! c))" and ?cs = "recorded (c_codecs (clients s ! c))"
  let ?s = "fold (delete_step A pid) ?cs s"
  have reg: "registry_of (clients s) pid = Some (engines_of (clients s ! c), mset ?cs + {#})"
    using registry_at [OF assms(2,3)] by (simp add: mset_recorded)
  note del = fold_delete_table [OF assms(1) reg, of A]
  then have "registry_of (clients ?s) pid = Some (mset ?es, {#})" by (simp add: mset_recorded)
  from fold_close_table [OF _ this, of A] del
  have "table_inv (clients (fold (close_step A pid) ?es ?s))"
    and "registry_of (clients (fold (close_step A pid) ?es ?s)) =
      (if ?es = [] then registry_of (clients ?s) else (registry_of (clients ?s))(pid := None))"
    by simp_all
  moreover have "?es = [] \<longleftrightarrow> engines_of (clients s ! c) = {#}"
    using mset_recorded [of "c_engines (clients s ! c)"] by (metis mset_zero_iff)
  ultimately show ?thesis using del cleanup_eq [OF assms, of A] by auto
qed

text \<open>
  C8: when a client dies, the server deletes every codec the client has recorded, in the order of
  the array, and then closes every engine, each exactly once and through the same calls the
  client would have made; the table keeps its invariant, nothing recorded for other processes
  changes, and the dead process is forgotten, except that a process that had only codecs keeps
  an entry with nothing in it.
\<close>

theorem cleanup_closes_everything:
  assumes "table_inv (clients s)" "get_client (clients s) pid = Some c" "pid \<noteq> 0"
  shows "\<exists>s'. dce_cleanup_cb A True pid s = Some s' \<and>
     s' = fold (close_step A pid) (recorded (c_engines (clients s ! c)))
       (fold (delete_step A pid) (recorded (c_codecs (clients s ! c))) s) \<and>
     table_inv (clients s') \<and>
     registry_of (clients s') = (registry_of (clients s))
       (pid := if engines_of (clients s ! c) = {#} then Some ({#}, {#}) else None)"
  using assms by (rule cleanup_result)

text \<open>A server with one client, on an engine that does nothing.\<close>

definition idle_api :: "unit ce_api" where
  "idle_api = \<lparr>set_env = (\<lambda>p w. w), ce_open = (\<lambda>n w. ((1, 0), w)), ce_close = (\<lambda>e w. w),
     ce_create = (\<lambda>e n p w. (1, w)), ce_control = (\<lambda>c i d s w. (0, w)),
     ce_process = (\<lambda>c ib ob ia oa w. (0, w)), ce_delete = (\<lambda>c w. w), cache_wbinv = (\<lambda>p n w. w),
     bus = \<lparr>rd = (\<lambda>a h. (0, h)), wr = (\<lambda>a v h. h)\<rparr>\<rparr>"

definition one_client :: "unit server" where
  "one_client = \<lparr>clients = fold table_step [Register_Engine 7 100, Register_Codec 7 101] init_clients,
     smem = (\<lambda>a. None), power = \<lparr>use_cnt = 0, hw = ()\<rparr>\<rparr>"

lemma one_client_table:
  "table_inv (clients one_client)" "registry_of (clients one_client) = [7 \<mapsto> ({#100#}, {#101#})]"
proof -
  have "history_ok [Register_Engine 7 100, Register_Codec 7 101] Map.empty"
    by (simp add: spec_register_engine_def)
  then have "history_ok [Register_Engine 7 100, Register_Codec 7 101] (registry_of init_clients)"
    by simp
  from history_refines_from [OF init_clients_inv this]
  show "table_inv (clients one_client)"
    "registry_of (clients one_client) = [7 \<mapsto> ({#100#}, {#101#})]"
    by (simp_all add: one_client_def spec_register_engine_def spec_register_codec_def)
qed

lemma cleanup_closes_everything_witness:
  "\<exists>s'. dce_cleanup_cb idle_api True 7 one_client = Some s' \<and> registry_of (clients s') 7 = None"
proof -
  obtain c where c: "get_client (clients one_client) 7 = Some c"
    using registry_None_iff [of 7 "clients one_client"] one_client_table(2) by fastforce
  have "engines_of (clients one_client ! c) = {#100#}"
    using registry_at [OF c] one_client_table(2) by simp
  with cleanup_closes_everything [OF one_client_table(1) c, of idle_api] show ?thesis by auto
qed

end
