(* ===== verification/Handler_Threads.thy ===== *)
theory Handler_Threads
  imports Table_Threads Server_Cleanup
begin

text \<open>
  The handlers and the cleanup callback of \<^verbatim>\<open>dce.c\<close> as concurrent threads. The pool of the server runs
  three workers and the callback is called by the power manager ("should be synchronized, but
  re-entrant", says its comment); a handler works on the table one access at a time, as in
  \<^verbatim>\<open>Table_Threads\<close>, and calls the codec engine before or after. The lemmas: the callback that runs
  alone does what \<open>dce_cleanup_cb\<close> does; the cleanup of a dead process and the handlers of other
  processes do not disturb each other in any interleaving; the cleanup and a delete request of the
  same process that is still being served do, and nothing protects a codec that is at work.
\<close>

subsection \<open>The threads\<close>

text \<open>
  What a thread serves: a request, with the handle that the engine answers or that the request names,
  or the death of a process. The requests \<open>control\<close> and \<open>process\<close> do not touch the table; the call of
  the codec takes its time, so that other threads take steps before it returns. The calls of
  \<open>dce_clean\<close> are left out of the steps of all three requests that make them: \<open>create\<close> cleans \<open>params\<close>
  between the call of the engine and the registration, \<open>control\<close> and \<open>process\<close> clean their blocks after
  the call; the caches concern neither the table nor the handles. (They are in \<open>Rpc_Server\<close>, and as
  stages of their own in \<open>Concurrent_Serving\<close>.)
\<close>

datatype task =
    Serve_Open u32 u32
  | Serve_Close u32 u32
  | Serve_Create u32 u32
  | Serve_Control u32 u32
  | Serve_Process u32 u32
  | Serve_Delete u32 u32
  | Serve_Obituary u32

fun task_pid :: "task \<Rightarrow> u32" where
  "task_pid (Serve_Open pid h) = pid"
| "task_pid (Serve_Close pid h) = pid"
| "task_pid (Serve_Create pid h) = pid"
| "task_pid (Serve_Control pid h) = pid"
| "task_pid (Serve_Process pid h) = pid"
| "task_pid (Serve_Delete pid h) = pid"
| "task_pid (Serve_Obituary pid) = pid"

text \<open>The calls a handler makes that do not concern the table.\<close>

datatype ce_call =
    Set_Env u32
  | Call_Open u32
  | Call_Close u32
  | Call_Create u32
  | Call_Delete u32
  | Enter_Codec u32
  | Leave_Codec u32
  | Acquire
  | Release

text \<open>
  The place of a thread: in a function of the table, at the call of the engine, or in
  \<open>dce_cleanup_cb\<close> with its locals \<open>c\<close> and \<open>i\<close> and the handle passed on, there also in a function
  of the table or at the call of the engine.
\<close>

datatype stage =
    In_Table place
  | At_Call
  | In_Codec
  | Get nat                        \<comment> \<open>test of \<open>clients[i].pid == pid\<close> in \<open>get_client(pid)\<close>\<close>
  | Test_Codec nat nat             \<comment> \<open>\<open>if (c->codecs[i])\<close>\<close>
  | Load_Codec nat nat             \<comment> \<open>\<open>args.in.codec = c->codecs[i]\<close>\<close>
  | Drop_Codec nat nat u32 place   \<comment> \<open>in \<open>rpc_VIDDEC3_delete\<close>: \<open>dce_unregister_codec\<close>\<close>
  | Delete_Codec nat nat u32       \<comment> \<open>the same, behind it\<close>
  | Test_Engine nat nat
  | Load_Engine nat nat
  | Drop_Engine nat nat u32 place
  | Close_Engine nat nat u32
  | End

type_synonym thread = "stage \<times> ce_call list"

definition in_call :: "(place \<Rightarrow> stage) \<Rightarrow> stage \<Rightarrow> table_op \<Rightarrow> place \<Rightarrow> ce_call list \<times> table \<Rightarrow> thread \<times> table" where
  "in_call here after op q = (\<lambda>(log, cl).
     if q = Done then ((after, log), cl)
     else case thread_step op (q, cl) of (q', cl') \<Rightarrow> ((here q', log), cl'))"

fun rpc_open_step :: "u32 \<Rightarrow> u32 \<Rightarrow> thread \<times> table \<Rightarrow> thread \<times> table" where
  "rpc_open_step pid h ((At_Call, log), cl) =
     ((if h \<noteq> 0 then In_Table (Find 0) else End, log @ [Set_Env pid, Call_Open h]), cl)"
| "rpc_open_step pid h ((In_Table q, log), cl) = in_call In_Table End (Register_Engine pid h) q (log, cl)"
| "rpc_open_step pid h x = x"

fun rpc_close_step :: "u32 \<Rightarrow> u32 \<Rightarrow> thread \<times> table \<Rightarrow> thread \<times> table" where
  "rpc_close_step pid h ((In_Table q, log), cl) = in_call In_Table At_Call (Unregister_Engine pid h) q (log, cl)"
| "rpc_close_step pid h ((At_Call, log), cl) = ((End, log @ [Set_Env pid, Call_Close h]), cl)"
| "rpc_close_step pid h x = x"

fun rpc_create_step :: "u32 \<Rightarrow> u32 \<Rightarrow> thread \<times> table \<Rightarrow> thread \<times> table" where
  "rpc_create_step pid h ((At_Call, log), cl) =
     ((if h \<noteq> 0 then In_Table (Find 0) else End, log @ [Set_Env pid, Call_Create h]), cl)"
| "rpc_create_step pid h ((In_Table q, log), cl) = in_call In_Table End (Register_Codec pid h) q (log, cl)"
| "rpc_create_step pid h x = x"

fun rpc_control_step :: "u32 \<Rightarrow> u32 \<Rightarrow> thread \<times> table \<Rightarrow> thread \<times> table" where
  "rpc_control_step pid h ((At_Call, log), cl) = ((In_Codec, log @ [Set_Env pid, Enter_Codec h]), cl)"
| "rpc_control_step pid h ((In_Codec, log), cl) = ((End, log @ [Leave_Codec h]), cl)"
| "rpc_control_step pid h x = x"

fun rpc_process_step :: "u32 \<Rightarrow> u32 \<Rightarrow> thread \<times> table \<Rightarrow> thread \<times> table" where
  "rpc_process_step pid h ((At_Call, log), cl) = ((In_Codec, log @ [Set_Env pid, Acquire, Enter_Codec h]), cl)"
| "rpc_process_step pid h ((In_Codec, log), cl) = ((End, log @ [Leave_Codec h, Release]), cl)"
| "rpc_process_step pid h x = x"

fun rpc_delete_step :: "u32 \<Rightarrow> u32 \<Rightarrow> thread \<times> table \<Rightarrow> thread \<times> table" where
  "rpc_delete_step pid h ((In_Table q, log), cl) = in_call In_Table At_Call (Unregister_Codec pid h) q (log, cl)"
| "rpc_delete_step pid h ((At_Call, log), cl) = ((End, log @ [Set_Env pid, Call_Delete h]), cl)"
| "rpc_delete_step pid h x = x"

fun cleanup_step :: "u32 \<Rightarrow> thread \<times> table \<Rightarrow> thread \<times> table" where
  "cleanup_step pid ((Get i, log), cl) =
     ((if i < length cl then if c_pid (cl ! i) = pid then Test_Codec i 0 else Get (Suc i) else End, log), cl)"
| "cleanup_step pid ((Test_Codec c i, log), cl) =
     ((if i < length (c_codecs (cl ! c))
       then if c_codecs (cl ! c) ! i \<noteq> 0 then Load_Codec c i else Test_Codec c (Suc i)
       else Test_Engine c 0, log), cl)"
| "cleanup_step pid ((Load_Codec c i, log), cl) = ((Drop_Codec c i (c_codecs (cl ! c) ! i) (Find 0), log), cl)"
| "cleanup_step pid ((Drop_Codec c i h q, log), cl) =
     in_call (Drop_Codec c i h) (Delete_Codec c i h) (Unregister_Codec pid h) q (log, cl)"
| "cleanup_step pid ((Delete_Codec c i h, log), cl) =
     ((Test_Codec c (Suc i), log @ [Set_Env pid, Call_Delete h]), cl)"
| "cleanup_step pid ((Test_Engine c i, log), cl) =
     ((if i < length (c_engines (cl ! c))
       then if c_engines (cl ! c) ! i \<noteq> 0 then Load_Engine c i else Test_Engine c (Suc i)
       else End, log), cl)"
| "cleanup_step pid ((Load_Engine c i, log), cl) = ((Drop_Engine c i (c_engines (cl ! c) ! i) (Find 0), log), cl)"
| "cleanup_step pid ((Drop_Engine c i h q, log), cl) =
     in_call (Drop_Engine c i h) (Close_Engine c i h) (Unregister_Engine pid h) q (log, cl)"
| "cleanup_step pid ((Close_Engine c i h, log), cl) =
     ((Test_Engine c (Suc i), log @ [Set_Env pid, Call_Close h]), cl)"
| "cleanup_step pid x = x"

fun task_step :: "task \<Rightarrow> thread \<times> table \<Rightarrow> thread \<times> table" where
  "task_step (Serve_Open pid h) x = rpc_open_step pid h x"
| "task_step (Serve_Close pid h) x = rpc_close_step pid h x"
| "task_step (Serve_Create pid h) x = rpc_create_step pid h x"
| "task_step (Serve_Control pid h) x = rpc_control_step pid h x"
| "task_step (Serve_Process pid h) x = rpc_process_step pid h x"
| "task_step (Serve_Delete pid h) x = rpc_delete_step pid h x"
| "task_step (Serve_Obituary pid) x = cleanup_step pid x"

fun first_stage :: "task \<Rightarrow> stage" where
  "first_stage (Serve_Open pid h) = At_Call"
| "first_stage (Serve_Close pid h) = In_Table (Find 0)"
| "first_stage (Serve_Create pid h) = At_Call"
| "first_stage (Serve_Control pid h) = At_Call"
| "first_stage (Serve_Process pid h) = At_Call"
| "first_stage (Serve_Delete pid h) = In_Table (Find 0)"
| "first_stage (Serve_Obituary pid) = Get 0"

lemma End_final: "final_at task_step k (End, log)"
  by (cases k) (simp_all add: final_at_def)

subsection \<open>A task as a whole\<close>

text \<open>The loops of the cleanup over the table, and the calls they make.\<close>

fun drop_codecs :: "u32 \<Rightarrow> nat \<Rightarrow> nat list \<Rightarrow> table \<Rightarrow> table \<times> ce_call list" where
  "drop_codecs pid c [] cl = (cl, [])"
| "drop_codecs pid c (i # is) cl =
     (let h = c_codecs (cl ! c) ! i in
      if h \<noteq> 0 then
        (case drop_codecs pid c is (dce_unregister_codec cl pid h) of
           (cl', log) \<Rightarrow> (cl', [Set_Env pid, Call_Delete h] @ log))
      else drop_codecs pid c is cl)"

fun drop_engines :: "u32 \<Rightarrow> nat \<Rightarrow> nat list \<Rightarrow> table \<Rightarrow> table \<times> ce_call list" where
  "drop_engines pid c [] cl = (cl, [])"
| "drop_engines pid c (i # is) cl =
     (let h = c_engines (cl ! c) ! i in
      if h \<noteq> 0 then
        (case drop_engines pid c is (dce_unregister_engine cl pid h) of
           (cl', log) \<Rightarrow> (cl', [Set_Env pid, Call_Close h] @ log))
      else drop_engines pid c is cl)"

fun task_result :: "task \<Rightarrow> table \<Rightarrow> table \<times> ce_call list" where
  "task_result (Serve_Open pid h) cl =
     (if h \<noteq> 0 then dce_register_engine cl pid h else cl, [Set_Env pid, Call_Open h])"
| "task_result (Serve_Close pid h) cl = (dce_unregister_engine cl pid h, [Set_Env pid, Call_Close h])"
| "task_result (Serve_Create pid h) cl =
     (if h \<noteq> 0 then dce_register_codec cl pid h else cl, [Set_Env pid, Call_Create h])"
| "task_result (Serve_Control pid h) cl = (cl, [Set_Env pid, Enter_Codec h, Leave_Codec h])"
| "task_result (Serve_Process pid h) cl = (cl, [Set_Env pid, Acquire, Enter_Codec h, Leave_Codec h, Release])"
| "task_result (Serve_Delete pid h) cl = (dce_unregister_codec cl pid h, [Set_Env pid, Call_Delete h])"
| "task_result (Serve_Obituary pid) cl =
     (case get_client cl pid of
        None \<Rightarrow> (cl, [])
      | Some c \<Rightarrow>
          (case drop_codecs pid c [0..<10] cl of (cl1, log1) \<Rightarrow>
             (case drop_engines pid c [0..<10] cl1 of (cl2, log2) \<Rightarrow> (cl2, log1 @ log2))))"

text \<open>The calls of the cleanup, performed on the world of the server; it makes no others.\<close>

fun perform :: "'w ce_api \<Rightarrow> ce_call \<Rightarrow> 'w server \<Rightarrow> 'w server" where
  "perform A (Set_Env pid) s = task_set_env A pid s"
| "perform A (Call_Close h) s = run (ce_close A h) s"
| "perform A (Call_Delete h) s = run (ce_delete A h) s"
| "perform A _ s = s"

definition with_table :: "table \<Rightarrow> 'w server \<Rightarrow> 'w server" where
  "with_table cl s = s\<lparr>clients := cl\<rparr>"

lemma with_table_simps [simp]:
  "clients (with_table cl s) = cl" "with_table cl (with_table cl' s) = with_table cl s"
  "with_table (clients s) s = s"
  by (simp_all add: with_table_def)

lemma with_table_run: "run f (with_table cl s) = with_table cl (run f s)"
  by (simp add: with_table_def run_def with_world_def world_def)

lemma perform_table: "perform A x (with_table cl s) = with_table cl (perform A x s)"
  by (cases x) (simp_all add: with_table_run task_set_env_def)

lemma fold_perform_table: "fold (perform A) xs (with_table cl s) = with_table cl (fold (perform A) xs s)"
  by (induction xs arbitrary: s) (simp_all add: perform_table)

lemma cleanup_codecs_result:
  "cleanup_codecs A pid c is s =
     (case drop_codecs pid c is (clients s) of (cl, log) \<Rightarrow> Some (with_table cl (fold (perform A) log s)))"
proof (induction "is" arbitrary: s)
  case (Cons i "is")
  let ?h = "c_codecs (clients s ! c) ! i"
  have "delete_step A pid ?h s =
      with_table (dce_unregister_codec (clients s) pid ?h) (fold (perform A) [Set_Env pid, Call_Delete ?h] s)"
    by (simp add: delete_step_def with_table_def task_set_env_def run_def with_world_def world_def)
  with Cons [of s] Cons [of "delete_step A pid ?h s"] show ?case
    by (simp add: Let_def rpc_VIDDEC3_delete_fill fold_perform_table split: prod.splits)
qed simp

lemma cleanup_engines_result:
  "cleanup_engines A pid c is s =
     (case drop_engines pid c is (clients s) of (cl, log) \<Rightarrow> Some (with_table cl (fold (perform A) log s)))"
proof (induction "is" arbitrary: s)
  case (Cons i "is")
  let ?h = "c_engines (clients s ! c) ! i"
  have "close_step A pid ?h s =
      with_table (dce_unregister_engine (clients s) pid ?h) (fold (perform A) [Set_Env pid, Call_Close ?h] s)"
    by (simp add: close_step_def with_table_def task_set_env_def run_def with_world_def world_def)
  with Cons [of s] Cons [of "close_step A pid ?h s"] show ?case
    by (simp add: Let_def rpc_Engine_close_fill fold_perform_table split: prod.splits)
qed simp

lemma cleanup_task_result:
  "dce_cleanup_cb A True pid s =
     (case task_result (Serve_Obituary pid) (clients s) of (cl, log) \<Rightarrow> Some (with_table cl (fold (perform A) log s)))"
  by (simp add: dce_cleanup_cb_def cleanup_codecs_result cleanup_engines_result fold_perform_table
      split: option.split prod.split)

subsection \<open>A thread that runs alone\<close>

text \<open>A function of the table inside a thread takes its accesses and a step to return.\<close>

lemma in_call_reaches:
  assumes "table_shape cl"
    and step: "\<And>q cl. task_step k ((here q, log), cl) = in_call here after op q (log, cl)"
  shows "reaches (task_step k) 28 ((here (Find 0), log), cl) ((after, log), table_step op cl)"
proof -
  let ?e = "\<lambda>(q, cl). ((here q, log), cl)"
  have "task_step k (?e z) = ?e (thread_step op z)" if "thread_step op z \<noteq> z" for z
  proof -
    obtain q cl where z: "z = (q, cl)" by (cases z)
    with that have "q \<noteq> Done" by auto
    then show ?thesis by (simp add: z step in_call_def split: prod.split)
  qed
  from reaches_embed [of _ 27 _ _ "task_step k" ?e, OF call_reaches [OF assms(1), of op] this]
  have "reaches (task_step k) 27 ((here (Find 0), log), cl) ((here Done, log), table_step op cl)" by simp
  moreover have "reaches (task_step k) 1 ((here Done, log), table_step op cl) ((after, log), table_step op cl)"
    using reaches_step [of "task_step k" 0 "((here Done, log), table_step op cl)"]
    by (simp add: step in_call_def reaches_refl)
  ultimately show ?thesis using reaches_trans by fastforce
qed

lemma unregister_shape:
  "table_shape cl \<Longrightarrow> table_shape (dce_unregister_codec cl pid h)"
  "table_shape cl \<Longrightarrow> table_shape (dce_unregister_engine cl pid h)"
  using table_step_shape [of cl "Unregister_Codec pid h"] table_step_shape [of cl "Unregister_Engine pid h"]
  by simp_all

lemma table_shapeD: "table_shape cl \<Longrightarrow> c < 10 \<Longrightarrow> length (c_codecs (cl ! c)) = 10 \<and> length (c_engines (cl ! c)) = 10"
  by (auto simp: table_shape_def list_all_length client_ok_def)

lemma concat_replicate_single: "concat (replicate n [x]) = replicate n x"
  by (induction n) simp_all

text \<open>Either loop of the cleanup, with the places of its body and the functions it calls as parameters.\<close>

lemma loop_reaches:
  assumes test: "\<And>i log cl. task_step k ((T i, log), cl) =
       ((if i < length (arr cl) then if arr cl ! i \<noteq> 0 then L i else T (Suc i) else after, log), cl)"
    and load: "\<And>i log cl. task_step k ((L i, log), cl) = ((D i (arr cl ! i) (Find 0), log), cl)"
    and drop: "\<And>i h q log cl. task_step k ((D i h q, log), cl) = in_call (D i h) (C i h) (op h) q (log, cl)"
    and call: "\<And>i h log cl. task_step k ((C i h, log), cl) = ((T (Suc i), log @ ev h), cl)"
    and res: "\<And>cl. R [] cl = (cl, [])"
      "\<And>i is cl. R (i # is) cl = (if arr cl ! i \<noteq> 0
         then (case R is (table_step (op (arr cl ! i)) cl) of (cl', log) \<Rightarrow> (cl', ev (arr cl ! i) @ log))
         else R is cl)"
    and arr: "\<And>cl. table_shape cl \<Longrightarrow> length (arr cl) = 10"
  shows "table_shape cl \<Longrightarrow> i \<le> 10 \<Longrightarrow> table_shape (fst (R [i..<10] cl)) \<and>
     reaches (task_step k) (31 * (10 - i) + 1) ((T i, log), cl)
       ((after, log @ snd (R [i..<10] cl)), fst (R [i..<10] cl))"
proof (induction "10 - i" arbitrary: i cl log)
  case 0
  then have i: "i = 10" by simp
  have "reaches (task_step k) (Suc 0) ((T i, log), cl) ((after, log), cl)"
    by (rule reaches_step) (simp add: test i arr [OF 0(2)] reaches_refl)
  with i 0(2) show ?case by (simp add: res)
next
  case (Suc n)
  let ?h = "arr cl ! i" and ?to = "\<lambda>cl log. ((after, log @ snd (R [Suc i..<10] cl)), fst (R [Suc i..<10] cl))"
  have i: "i < 10" "[i..<10] = i # [Suc i..<10]" using Suc by (simp_all add: upt_conv_Cons)
  have "n = 10 - Suc i" "Suc i \<le> 10" using Suc.hyps(2) i(1) by simp_all
  note IH = Suc.hyps(1) [OF this(1) _ this(2)]
  have bound: "31 * (10 - i) + 1 = Suc (Suc (28 + Suc (31 * (10 - Suc i) + 1)))" using i(1) by simp
  show ?case
  proof (cases "?h = 0")
    case True
    have "reaches (task_step k) (31 * (10 - Suc i) + 1) (task_step k ((T i, log), cl)) (?to cl log)"
      using IH [OF Suc.prems(1)] True i(1) by (simp add: test arr [OF Suc.prems(1)])
    from reaches_mono [OF reaches_step [OF this]] have "reaches (task_step k) (31 * (10 - i) + 1) ((T i, log), cl) (?to cl log)"
      unfolding bound by simp
    with IH [OF Suc.prems(1)] True i(2) show ?thesis by (simp add: res)
  next
    case False
    let ?cl = "table_step (op ?h) cl" and ?log = "log @ ev ?h"
    note IH' = IH [OF table_step_shape [OF Suc.prems(1)], of "op ?h" ?log]
    have "reaches (task_step k) 28 ((D i ?h (Find 0), log), cl) ((C i ?h, log), ?cl)"
      using Suc.prems(1) by (rule in_call_reaches) (rule drop)
    moreover have "reaches (task_step k) (Suc (31 * (10 - Suc i) + 1)) ((C i ?h, log), ?cl) (?to ?cl ?log)"
      using IH' by (intro reaches_step) (simp add: call)
    ultimately have "reaches (task_step k) (28 + Suc (31 * (10 - Suc i) + 1)) ((D i ?h (Find 0), log), cl) (?to ?cl ?log)"
      by (rule reaches_trans)
    then have "reaches (task_step k) (31 * (10 - i) + 1) ((T i, log), cl) (?to ?cl ?log)"
      unfolding bound using False i(1) by (intro reaches_step) (simp add: test load arr [OF Suc.prems(1)])
    with IH' False i(2) show ?thesis by (simp add: res case_prod_beta)
  qed
qed

text \<open>No task takes more than 640 steps alone.\<close>

lemma get_loop_reaches:
  "i \<le> length cl \<Longrightarrow> \<forall>j<i. c_pid (cl ! j) \<noteq> pid \<Longrightarrow>
     reaches (task_step (Serve_Obituary pid)) (length cl - i + 1) ((Get i, log), cl)
       ((case get_client cl pid of Some c \<Rightarrow> Test_Codec c 0 | None \<Rightarrow> End, log), cl)"
proof (induction "length cl - i" arbitrary: i)
  case 0
  then have i: "i = length cl" by simp
  with 0(3) have "get_client cl pid = None" by (simp add: get_client_def find_index_None_nth)
  then show ?case by (simp add: i) (rule reaches_step, simp add: reaches_refl)
next
  case (Suc n)
  then have lt: "i < length cl" by simp
  show ?case
  proof (cases "c_pid (cl ! i) = pid")
    case True
    then have "get_client cl pid = Some i"
      using lt Suc.prems(2) by (simp add: get_client_def find_index_first)
    then show ?thesis using True lt by simp (rule reaches_step, simp add: reaches_refl)
  next
    case False
    have "reaches (task_step (Serve_Obituary pid)) (length cl - Suc i + 1) ((Get (Suc i), log), cl)
       ((case get_client cl pid of Some c \<Rightarrow> Test_Codec c 0 | None \<Rightarrow> End, log), cl)"
      using Suc False by (intro Suc.hyps(1)) (auto simp: less_Suc_eq)
    then have "reaches (task_step (Serve_Obituary pid)) (Suc (length cl - Suc i + 1)) ((Get i, log), cl)
       ((case get_client cl pid of Some c \<Rightarrow> Test_Codec c 0 | None \<Rightarrow> End, log), cl)"
      using False lt by (intro reaches_step) simp
    moreover have "Suc (length cl - Suc i + 1) = length cl - i + 1" using lt by simp
    ultimately show ?thesis by simp
  qed
qed

lemma cleanup_reaches:
  assumes "table_shape cl"
  shows "reaches (task_step (Serve_Obituary pid)) 640 ((Get 0, []), cl)
     ((End, snd (task_result (Serve_Obituary pid) cl)), fst (task_result (Serve_Obituary pid) cl))"
proof -
  let ?k = "Serve_Obituary pid"
  have get: "reaches (task_step ?k) 11 ((Get 0, []), cl)
      ((case get_client cl pid of Some c \<Rightarrow> Test_Codec c 0 | None \<Rightarrow> End, []), cl)"
    using get_loop_reaches [of 0 cl pid "[]"] assms by (simp add: table_shape_def)
  show ?thesis
  proof (cases "get_client cl pid")
    case None
    with get show ?thesis by (auto intro: reaches_mono)
  next
    case (Some c)
    have c: "c < 10" using get_client_SomeD [OF Some] assms by (auto simp: table_shape_def)
    let ?r = "drop_codecs pid c [0..<10] cl"
    let ?q = "drop_engines pid c [0..<10] (fst ?r)"
    have 1: "table_shape (fst ?r) \<and> reaches (task_step ?k) (31 * (10 - 0) + 1) ((Test_Codec c 0, []), cl)
        ((Test_Engine c 0, [] @ snd ?r), fst ?r)"
      by (rule loop_reaches [where L = "Load_Codec c" and D = "Drop_Codec c" and C = "Delete_Codec c" and
          op = "Unregister_Codec pid" and ev = "\<lambda>h. [Set_Env pid, Call_Delete h]" and arr = "\<lambda>cl. c_codecs (cl ! c)"])
        (use assms table_shapeD [OF _ c] in \<open>simp_all add: Let_def\<close>)
    have 2: "table_shape (fst ?q) \<and> reaches (task_step ?k) (31 * (10 - 0) + 1) ((Test_Engine c 0, snd ?r), fst ?r)
        ((End, snd ?r @ snd ?q), fst ?q)"
      by (rule loop_reaches [where L = "Load_Engine c" and D = "Drop_Engine c" and C = "Close_Engine c" and
          op = "Unregister_Engine pid" and ev = "\<lambda>h. [Set_Env pid, Call_Close h]" and arr = "\<lambda>cl. c_engines (cl ! c)"])
        (use 1 table_shapeD [OF _ c] in \<open>simp_all add: Let_def\<close>)
    from get Some have "reaches (task_step ?k) 11 ((Get 0, []), cl) ((Test_Codec c 0, []), cl)" by simp
    note all = reaches_trans [OF reaches_trans [OF this conjunct2 [OF 1, simplified append_Nil]] conjunct2 [OF 2]]
    from reaches_mono [OF all, of 640] show ?thesis by (simp add: Some case_prod_beta)
  qed
qed

lemma task_reaches:
  assumes "table_shape cl"
  shows "reaches (task_step k) 640 ((first_stage k, []), cl) ((End, snd (task_result k cl)), fst (task_result k cl))"
proof (cases k)
  case (Serve_Obituary pid)
  with cleanup_reaches [OF assms] show ?thesis by simp
next
  case (Serve_Close pid h)
  have "reaches (task_step k) 28 ((In_Table (Find 0), []), cl) ((At_Call, []), table_step (Unregister_Engine pid h) cl)"
    using assms by (rule in_call_reaches) (simp add: Serve_Close)
  moreover have "reaches (task_step k) (Suc 0) ((At_Call, []), table_step (Unregister_Engine pid h) cl)
      ((End, snd (task_result k cl)), fst (task_result k cl))"
    by (rule reaches_step) (simp add: Serve_Close reaches_refl)
  ultimately show ?thesis using reaches_mono [OF reaches_trans] by (fastforce simp: Serve_Close)
next
  case (Serve_Delete pid h)
  have "reaches (task_step k) 28 ((In_Table (Find 0), []), cl) ((At_Call, []), table_step (Unregister_Codec pid h) cl)"
    using assms by (rule in_call_reaches) (simp add: Serve_Delete)
  moreover have "reaches (task_step k) (Suc 0) ((At_Call, []), table_step (Unregister_Codec pid h) cl)
      ((End, snd (task_result k cl)), fst (task_result k cl))"
    by (rule reaches_step) (simp add: Serve_Delete reaches_refl)
  ultimately show ?thesis using reaches_mono [OF reaches_trans] by (fastforce simp: Serve_Delete)
next
  case (Serve_Open pid h)
  let ?log = "[Set_Env pid, Call_Open h]"
  have "reaches (task_step k) 28 ((In_Table (Find 0), ?log), cl) ((End, ?log), table_step (Register_Engine pid h) cl)"
    using assms by (rule in_call_reaches) (simp add: Serve_Open)
  then have "reaches (task_step k) 28 (task_step k ((At_Call, []), cl)) ((End, snd (task_result k cl)), fst (task_result k cl))"
    by (simp add: Serve_Open reaches_refl)
  from reaches_mono [OF reaches_step [OF this], of 640] show ?thesis by (simp add: Serve_Open)
next
  case (Serve_Create pid h)
  let ?log = "[Set_Env pid, Call_Create h]"
  have "reaches (task_step k) 28 ((In_Table (Find 0), ?log), cl) ((End, ?log), table_step (Register_Codec pid h) cl)"
    using assms by (rule in_call_reaches) (simp add: Serve_Create)
  then have "reaches (task_step k) 28 (task_step k ((At_Call, []), cl)) ((End, snd (task_result k cl)), fst (task_result k cl))"
    by (simp add: Serve_Create reaches_refl)
  from reaches_mono [OF reaches_step [OF this], of 640] show ?thesis by (simp add: Serve_Create)
next
  case (Serve_Control pid h)
  have "reaches (task_step k) (Suc (Suc 0)) ((At_Call, []), cl) ((End, snd (task_result k cl)), fst (task_result k cl))"
    by (intro reaches_step) (simp add: Serve_Control reaches_refl)
  from reaches_mono [OF this, of 640] show ?thesis by (simp add: Serve_Control)
next
  case (Serve_Process pid h)
  have "reaches (task_step k) (Suc (Suc 0)) ((At_Call, []), cl) ((End, snd (task_result k cl)), fst (task_result k cl))"
    by (intro reaches_step) (simp add: Serve_Process reaches_refl)
  from reaches_mono [OF this, of 640] show ?thesis by (simp add: Serve_Process)
qed

text \<open>
  C7: the cleanup callback that runs without others, one access to the table at a time, is done after at
  most 640 steps, and has done what \<open>dce_cleanup_cb\<close> as a whole does: the same table, and the same
  calls of the codec engine in the same order.
\<close>

theorem cleanup_alone_is_callback:
  assumes "table_shape (clients s)" "640 \<le> count_list sched 0"
  shows "\<exists>cl log. run_sched task_step sched ([(Serve_Obituary pid, (Get 0, []))], clients s) =
       ([(Serve_Obituary pid, (End, log))], cl) \<and>
     dce_cleanup_cb A True pid s = Some (with_table cl (fold (perform A) log s))"
proof -
  let ?k = "Serve_Obituary pid"
  let ?r = "task_result ?k (clients s)"
  obtain n where "n \<le> 640" "(task_step ?k ^^ n) ((Get 0, []), clients s) = ((End, snd ?r), fst ?r)"
    using task_reaches [OF assms(1), of ?k] by (auto simp: reaches_def)
  from final_reached [OF this(2) End_final] this(1) assms(2)
  have "(task_step ?k ^^ count_list sched 0) ((Get 0, []), clients s) = ((End, snd ?r), fst ?r)" by (meson le_trans)
  then have "run_sched task_step sched ([(?k, (Get 0, []))], clients s) = ([(?k, (End, snd ?r))], fst ?r)"
    by (simp add: run_sched_single)
  moreover have "dce_cleanup_cb A True pid s = Some (with_table (fst ?r) (fold (perform A) (snd ?r) s))"
    by (simp only: cleanup_task_result case_prod_beta)
  ultimately show ?thesis by blast
qed

lemma cleanup_alone_is_callback_witness:
  "\<exists>cl log. run_sched task_step (replicate 640 0) ([(Serve_Obituary 1, (Get 0, []))], two_clients) =
     ([(Serve_Obituary 1, (End, log))], cl) \<and>
     dce_cleanup_cb idle_api True 1 (one_client\<lparr>clients := two_clients\<rparr>) =
       Some (with_table cl (fold (perform idle_api) log (one_client\<lparr>clients := two_clients\<rparr>)))"
proof -
  let ?s = "one_client\<lparr>clients := two_clients\<rparr>"
  have "table_shape (clients ?s)" using table_inv_shape [OF two_clients_inv] by simp
  from cleanup_alone_is_callback [OF this, of "replicate 640 0" 1 idle_api]
  show ?thesis using count_rounds [of 640 "[0 :: nat]" 0] by (simp add: concat_replicate_single del: run_sched_simps)
qed

subsection \<open>Processes that are in the table\<close>

text \<open>The places of a task of the process of entry \<open>i\<close>.\<close>

fun table_call :: "task \<Rightarrow> table_op" where
  "table_call (Serve_Open pid h) = Register_Engine pid h"
| "table_call (Serve_Close pid h) = Unregister_Engine pid h"
| "table_call (Serve_Create pid h) = Register_Codec pid h"
| "table_call (Serve_Delete pid h) = Unregister_Codec pid h"
| "table_call k = Unregister_Codec (task_pid k) 0"

fun inside_task :: "task \<Rightarrow> nat \<Rightarrow> thread \<Rightarrow> client \<Rightarrow> bool" where
  "inside_task k i (In_Table q, log) c = inside_call (table_call k) i q c"
| "inside_task k i (At_Call, log) c = (case k of Serve_Open pid h \<Rightarrow> c_pid c = pid | _ \<Rightarrow> True)"
| "inside_task k i (In_Codec, log) c = True"
| "inside_task k i (Get j, log) c = (j \<le> i \<and> c_pid c = task_pid k)"
| "inside_task k i (Test_Codec j n, log) c = (j = i)"
| "inside_task k i (Load_Codec j n, log) c = (j = i)"
| "inside_task k i (Drop_Codec j n h q, log) c = (j = i \<and> inside_call (Unregister_Codec (task_pid k) h) i q c)"
| "inside_task k i (Delete_Codec j n h, log) c = (j = i)"
| "inside_task k i (Test_Engine j n, log) c = (j = i)"
| "inside_task k i (Load_Engine j n, log) c = (j = i)"
| "inside_task k i (Drop_Engine j n h q, log) c = (j = i \<and> inside_call (Unregister_Engine (task_pid k) h) i q c)"
| "inside_task k i (Close_Engine j n h, log) c = (j = i)"
| "inside_task k i (End, log) c = True"

text \<open>A step that depends on the entry only, as \<open>entry_threads\<close> asks for.\<close>

definition local_to :: "(table \<Rightarrow> thread \<times> table) \<Rightarrow> nat \<Rightarrow> (thread \<Rightarrow> client \<Rightarrow> bool) \<Rightarrow> table \<Rightarrow> table \<Rightarrow> bool" where
  "local_to f i ok cl cl' \<longleftrightarrow> (\<exists>p c. f cl = (p, cl[i := c]) \<and> f cl' = (p, cl'[i := c]) \<and> ok p c \<and>
     (c_pid c = c_pid (cl ! i) \<or> c_pid c = 0))"

lemma in_call_local:
  assumes "inside_call op i q (cl ! i)" "i < length cl" "length cl' = length cl" "cl' ! i = cl ! i"
    and "sole (op_pid op) i cl" "sole (op_pid op) i cl'"
    and "\<And>q c. inside_call op i q c \<Longrightarrow> ok (here q, log) c" "\<And>c. ok (after, log) c"
  shows "local_to (\<lambda>cl. in_call here after op q (log, cl)) i ok cl cl'"
proof (cases "q = Done")
  case True
  have "cl'[i := cl ! i] = cl'" using assms(4) by (metis list_update_id)
  with True assms(8) show ?thesis unfolding local_to_def
    by (intro exI [of _ "(after, log)"] exI [of _ "cl ! i"]) (simp add: in_call_def)
next
  case False
  obtain q' c where "thread_step op (q, cl) = (q', cl[i := c])" "thread_step op (q, cl') = (q', cl'[i := c])"
    "inside_call op i q' c" "c_pid c = c_pid (cl ! i) \<or> c_pid c = 0"
    using thread_step_local [OF assms(1-6)] by blast
  with False assms(7) show ?thesis unfolding local_to_def
    by (intro exI [of _ "(here q', log)"] exI [of _ c]) (simp add: in_call_def)
qed

lemma stay_local:
  assumes "cl' ! i = cl ! i" "f cl = (p, cl)" "f cl' = (p, cl')" "ok p (cl ! i)"
  shows "local_to f i ok cl cl'"
proof -
  have "cl'[i := cl ! i] = cl'" using assms(1) by (metis list_update_id)
  with assms show ?thesis unfolding local_to_def by (intro exI [of _ p] exI [of _ "cl ! i"]) simp
qed

lemma task_step_local:
  assumes "inside_task k i p (cl ! i)" "i < length cl" "length cl' = length cl" "cl' ! i = cl ! i"
    and "sole (task_pid k) i cl" "sole (task_pid k) i cl'"
  shows "local_to (\<lambda>cl. task_step k (p, cl)) i (inside_task k i) cl cl'"
proof -
  obtain st log where p: "p = (st, log)" by (cases p)
  note call = in_call_local [OF _ assms(2-4)]
  show ?thesis
  proof (cases "\<exists>q. st = In_Table q")
    case True
    then obtain q where q: "st = In_Table q" by blast
    show ?thesis
    proof (cases k)
      case (Serve_Obituary pid)
      with assms(1,4) q show ?thesis by (intro stay_local [where p = p]) (simp_all add: p)
    next
      case (Serve_Control pid h)
      with assms(1,4) q show ?thesis by (intro stay_local [where p = p]) (simp_all add: p)
    next
      case (Serve_Process pid h)
      with assms(1,4) q show ?thesis by (intro stay_local [where p = p]) (simp_all add: p)
    qed (use assms q in \<open>auto simp: p intro!: call\<close>)
  next
    case False
    note not_in = this
    show ?thesis
    proof (cases "\<exists>pid. k = Serve_Obituary pid")
      case True
      then obtain pid where k: "k = Serve_Obituary pid" by blast
      show ?thesis
      proof (cases st)
        case (Get j)
        have "j < length cl \<Longrightarrow> c_pid (cl ! j) = pid \<longleftrightarrow> j = i" "j < length cl \<Longrightarrow> c_pid (cl' ! j) = pid \<longleftrightarrow> j = i"
          using assms k Get p by (auto simp: sole_def)
        with assms k Get p show ?thesis
          by (intro stay_local [where p = "if j = i then (Test_Codec i 0, log) else (Get (Suc j), log)"]) auto
      next
        case (Drop_Codec j n h q)
        with assms k p show ?thesis by (auto intro!: call)
      next
        case (Drop_Engine j n h q)
        with assms k p show ?thesis by (auto intro!: call)
      qed (use assms k p not_in in \<open>auto intro!: stay_local\<close>)
    next
      case False
      with assms p not_in show ?thesis
        by (cases k; cases st) (auto intro!: stay_local)
    qed
  qed
qed

interpretation tasks: entry_threads task_step "\<lambda>k. (first_stage k, [])" task_pid inside_task
proof unfold_locales
  show "inside_task k i (first_stage k, []) (cl ! i)" if "get_client cl (task_pid k) = Some i" for cl k i
    using get_client_SomeD [OF that] by (cases k) simp_all
qed (use task_step_local in \<open>unfold local_to_def, blast\<close>)

definition serve_all_at_once :: "task list \<Rightarrow> (task \<times> thread) list" where
  "serve_all_at_once ks = map (\<lambda>k. (k, (first_stage k, []))) ks"

lemma tasks_begin: "tasks.begin_all = serve_all_at_once"
  by (simp add: fun_eq_iff tasks.begin_all_def serve_all_at_once_def)

text \<open>
  C6: handlers and cleanups of different processes that are in the table do not disturb each other: in
  every interleaving in which each has 640 turns, each is done, has made exactly the calls of the codec
  engine that it makes alone, and has left the entry of its process as it leaves it alone; the
  entries of other processes are as they were.
\<close>

theorem cleanup_and_handlers_do_not_interfere:
  assumes inv: "table_inv cl" and pids: "distinct (map task_pid ks)"
    and known: "\<And>k. k \<in> set ks \<Longrightarrow> task_pid k \<noteq> 0 \<and> get_client cl (task_pid k) \<noteq> None"
    and fair: "\<And>t. t < length ks \<Longrightarrow> 640 \<le> count_list sched t"
  shows "\<exists>cl'. run_sched task_step sched (serve_all_at_once ks, cl) =
       (map (\<lambda>k. (k, (End, snd (task_result k cl)))) ks, cl') \<and> length cl' = length cl \<and>
     (\<forall>k\<in>set ks. \<forall>i. get_client cl (task_pid k) = Some i \<longrightarrow> cl' ! i = fst (task_result k cl) ! i) \<and>
     (\<forall>i<length cl. (\<forall>k\<in>set ks. get_client cl (task_pid k) \<noteq> Some i) \<longrightarrow> cl' ! i = cl ! i)"
proof -
  let ?ix = "map (\<lambda>k. the (get_client cl (task_pid k))) ks"
  have on: "tasks.entries cl ks ?ix" using inv pids known by (rule tasks.entries_known)
  obtain cl' where run: "run_sched task_step sched (serve_all_at_once ks, cl) =
       (map (\<lambda>k. (k, (End, snd (task_result k cl)))) ks, cl')" "length cl' = length cl"
    "\<forall>t<length ks. fst (task_result (ks ! t) cl) = cl[?ix ! t := cl' ! (?ix ! t)]"
    "\<forall>j<length cl. j \<notin> set ?ix \<longrightarrow> cl' ! j = cl ! j"
    using tasks.all_reach [OF on, where fin = "\<lambda>k. (End, snd (task_result k cl))" and res = "\<lambda>k. fst (task_result k cl)",
        OF task_reaches [OF table_inv_shape [OF inv]] End_final fair]
    by (auto simp: tasks_begin)
  have "cl' ! i = fst (task_result k cl) ! i" if k: "k \<in> set ks" "get_client cl (task_pid k) = Some i" for k i
  proof -
    obtain t where t: "t < length ks" "k = ks ! t" using k(1) by (auto simp: in_set_conv_nth)
    then have "fst (task_result k cl) = cl[i := cl' ! i]" using run(3) k(2) by simp
    then show ?thesis using get_client_SomeD [OF k(2)] by simp
  qed
  moreover have "cl' ! i = cl ! i" if i: "i < length cl" "\<forall>k\<in>set ks. get_client cl (task_pid k) \<noteq> Some i" for i
  proof -
    have "i \<noteq> the (get_client cl (task_pid k))" if "k \<in> set ks" for k
      using i(2) known [OF that] that by (metis option.collapse)
    then have "i \<notin> set ?ix" by auto
    with run(4) i(1) show ?thesis by blast
  qed
  ultimately show ?thesis using run(1,2) by blast
qed

lemma cleanup_and_handlers_do_not_interfere_witness:
  "\<exists>cl'. run_sched task_step (concat (replicate 640 [1, 0]))
       (serve_all_at_once [Serve_Obituary 1, Serve_Create 2 22], two_clients) =
     ([(Serve_Obituary 1, (End, [Set_Env 1, Call_Close 10])),
       (Serve_Create 2 22, (End, [Set_Env 2, Call_Create 22]))], cl') \<and> c_codecs (cl' ! 1) ! 0 = 22"
proof -
  let ?ks = "[Serve_Obituary 1, Serve_Create 2 22]" and ?sched = "concat (replicate 640 [1, 0])"
  have 1: "task_pid k \<noteq> 0 \<and> get_client two_clients (task_pid k) \<noteq> None" if "k \<in> set ?ks" for k
    using that by (auto simp: two_clients_eq get_client_Cons new_client_def)
  have 2: "640 \<le> count_list ?sched t" if "t < length ?ks" for t
    using that unfolding count_rounds by (auto simp: less_Suc_eq)
  have at: "get_client two_clients 2 = Some 1" by (simp add: two_clients_eq get_client_Cons new_client_def)
  have r: "snd (task_result (Serve_Obituary 1) two_clients) = [Set_Env 1, Call_Close 10]"
    "snd (task_result (Serve_Create 2 22) two_clients) = [Set_Env 2, Call_Create 22]"
    "c_codecs (fst (task_result (Serve_Create 2 22) two_clients) ! 1) ! 0 = 22"
    unfolding two_clients_def by code_simp+
  from cleanup_and_handlers_do_not_interfere [of two_clients ?ks ?sched, OF two_clients_inv _ 1 2]
  obtain cl' where "run_sched task_step ?sched (serve_all_at_once ?ks, two_clients) =
      (map (\<lambda>k. (k, (End, snd (task_result k two_clients)))) ?ks, cl')"
    "\<forall>k\<in>set ?ks. \<forall>i. get_client two_clients (task_pid k) = Some i \<longrightarrow>
       cl' ! i = fst (task_result k two_clients) ! i" by auto
  with r at show ?thesis by (simp del: run_sched_simps task_result.simps)
qed

subsection \<open>The cleanup and a request of the same process\<close>

text \<open>
  A worker is serving \<open>VIDDEC3_delete\<close> when its process dies: the callback has seen the codec in the
  table and loaded its handle when the worker takes it out.
\<close>

definition loads_before_delete :: "nat list" where
  "loads_before_delete = replicate 3 1 @ replicate 7 0 @ replicate 60 1"

definition one_codec :: "u32 \<Rightarrow> u32 \<Rightarrow> u32 \<Rightarrow> table" where
  "one_codec p e h = fold table_step [Register_Engine p e, Register_Codec p h] init_clients"

lemma one_codec_eq:
  assumes "p \<noteq> 0"
  shows "one_codec p e h = \<lparr>c_pid = p, c_refs = 2, c_engines = [e, 0, 0, 0, 0, 0, 0, 0, 0, 0],
     c_codecs = [h, 0, 0, 0, 0, 0, 0, 0, 0, 0]\<rparr> # replicate 9 free_client"
  using assms by (simp add: one_codec_def dce_register_engine_def dce_register_codec_def init_clients_def free_client_def
      new_client_def add_codec_def get_client_def numeral_eq_Suc)

lemma race_a:
  assumes "p \<noteq> 0" "e \<noteq> 0" "h \<noteq> 0"
  shows "run_sched task_step (replicate 3 1) (serve_all_at_once [Serve_Delete p h, Serve_Obituary p], one_codec p e h) =
    ([(Serve_Delete p h, (In_Table (Find 0), [])), (Serve_Obituary p, (Drop_Codec 0 0 h (Find 0), []))], one_codec p e h)"
  using assms by (simp add: serve_all_at_once_def one_codec_eq step_at_def numeral_eq_Suc)

lemma race_b:
  assumes "p \<noteq> 0" "e \<noteq> 0" "h \<noteq> 0"
  shows "run_sched task_step (replicate 7 0)
     ([(Serve_Delete p h, (In_Table (Find 0), [])), (Serve_Obituary p, x)], one_codec p e h) =
    ([(Serve_Delete p h, (End, [Set_Env p, Call_Delete h])), (Serve_Obituary p, x)],
     \<lparr>c_pid = p, c_refs = 1, c_engines = [e, 0, 0, 0, 0, 0, 0, 0, 0, 0],
     c_codecs = [0, 0, 0, 0, 0, 0, 0, 0, 0, 0]\<rparr> # replicate 9 free_client)"
  using assms by (simp add: one_codec_eq step_at_def in_call_def numeral_eq_Suc)

lemma race_c:
  assumes "p \<noteq> 0" "e \<noteq> 0" "h \<noteq> 0"
  shows "run_sched task_step (replicate 60 1)
     ([(Serve_Delete p h, x), (Serve_Obituary p, (Drop_Codec 0 0 h (Find 0), []))],
     \<lparr>c_pid = p, c_refs = 1, c_engines = [e, 0, 0, 0, 0, 0, 0, 0, 0, 0],
     c_codecs = [0, 0, 0, 0, 0, 0, 0, 0, 0, 0]\<rparr> # replicate 9 free_client) =
    ([(Serve_Delete p h, x), (Serve_Obituary p, (End, [Set_Env p, Call_Delete h, Set_Env p, Call_Close e]))],
     \<lparr>c_pid = p, c_refs = - 1, c_engines = [0, 0, 0, 0, 0, 0, 0, 0, 0, 0],
     c_codecs = [0, 0, 0, 0, 0, 0, 0, 0, 0, 0]\<rparr> # replicate 9 free_client)"
  using assms by (simp add: step_at_def in_call_def numeral_eq_Suc)

lemma run_sched_append: "run_sched step (a @ b) s = run_sched step b (run_sched step a s)"
  by (simp add: run_sched_def)

text \<open>
  C29: when the cleanup of a process overlaps with a request of it to delete its codec, it can happen that
  the codec is deleted twice, and that the count of the entry goes below zero, so that the entry stays
  taken by the dead process for good with nothing recorded in it. When the request is served before the
  process dies, the cleanup closes the engine only, and the table is empty.
\<close>

theorem cleanup_races_with_delete:
  assumes "p \<noteq> 0" "e \<noteq> 0" "h \<noteq> 0"
  shows "(\<exists>cl. run_sched task_step loads_before_delete
         (serve_all_at_once [Serve_Delete p h, Serve_Obituary p], one_codec p e h) =
       ([(Serve_Delete p h, (End, [Set_Env p, Call_Delete h])),
         (Serve_Obituary p, (End, [Set_Env p, Call_Delete h, Set_Env p, Call_Close e]))], cl) \<and>
       get_client cl p = Some 0 \<and> c_refs (cl ! 0) = - 1 \<and>
       c_engines (cl ! 0) = replicate 10 0 \<and> c_codecs (cl ! 0) = replicate 10 0) \<and>
     (let (cl1, log1) = task_result (Serve_Delete p h) (one_codec p e h);
          (cl2, log2) = task_result (Serve_Obituary p) cl1
      in log1 @ log2 = [Set_Env p, Call_Delete h, Set_Env p, Call_Close e] \<and> cl2 = init_clients)"
proof -
  have "task_result (Serve_Delete p h) (one_codec p e h) =
      (\<lparr>c_pid = p, c_refs = 1, c_engines = [e, 0, 0, 0, 0, 0, 0, 0, 0, 0],
        c_codecs = [0, 0, 0, 0, 0, 0, 0, 0, 0, 0]\<rparr> # replicate 9 free_client, [Set_Env p, Call_Delete h])"
    using assms by (simp add: one_codec_eq dce_unregister_codec_def drop_codec_def get_client_Cons)
  moreover have "task_result (Serve_Obituary p)
      (\<lparr>c_pid = p, c_refs = 1, c_engines = [e, 0, 0, 0, 0, 0, 0, 0, 0, 0],
        c_codecs = [0, 0, 0, 0, 0, 0, 0, 0, 0, 0]\<rparr> # replicate 9 free_client) =
      (init_clients, [Set_Env p, Call_Close e])"
    using assms by (simp add: upt_rec dce_unregister_engine_def drop_engine_def get_client_Cons init_clients_def
        free_client_def numeral_eq_Suc)
  moreover note run = race_a [OF assms] race_b [OF assms] race_c [OF assms]
  ultimately show ?thesis unfolding loads_before_delete_def run_sched_append run
    by (simp add: get_client_Cons eval_nat_numeral)
qed

lemma cleanup_races_with_delete_witness:
  "\<exists>cl. run_sched task_step loads_before_delete
      (serve_all_at_once [Serve_Delete 7 200, Serve_Obituary 7], one_codec 7 100 200) =
    ([(Serve_Delete 7 200, (End, [Set_Env 7, Call_Delete 200])),
      (Serve_Obituary 7, (End, [Set_Env 7, Call_Delete 200, Set_Env 7, Call_Close 100]))], cl) \<and>
    get_client cl 7 = Some 0 \<and> c_refs (cl ! 0) = - 1"
proof -
  have "(7 :: u32) \<noteq> 0" "(100 :: u32) \<noteq> 0" "(200 :: u32) \<noteq> 0" by simp_all
  from cleanup_races_with_delete [OF this] show ?thesis by blast
qed

subsection \<open>The cleanup and a codec at work\<close>

lemma cleanup_of_one_codec:
  assumes "p \<noteq> 0" "e \<noteq> 0" "h \<noteq> 0"
  shows "run_sched task_step (replicate 70 1)
      ([(Serve_Process p h, x), (Serve_Obituary p, (Get 0, []))], one_codec p e h) =
    ([(Serve_Process p h, x), (Serve_Obituary p, (End, [Set_Env p, Call_Delete h, Set_Env p, Call_Close e]))],
     init_clients)"
  using assms by (simp add: one_codec_eq step_at_def in_call_def init_clients_def free_client_def numeral_eq_Suc)

text \<open>
  C30: when a process dies while a worker is in the codec for it, nothing keeps the cleanup from running to
  its end before the codec returns: the codec is deleted and its engine closed while the codec is
  at work, and the worker goes on in it.
\<close>

theorem cleanup_deletes_codec_at_work:
  assumes "p \<noteq> 0" "e \<noteq> 0" "h \<noteq> 0"
  shows "run_sched task_step (0 # replicate 70 1)
      (serve_all_at_once [Serve_Process p h, Serve_Obituary p], one_codec p e h) =
    ([(Serve_Process p h, (In_Codec, [Set_Env p, Acquire, Enter_Codec h])),
      (Serve_Obituary p, (End, [Set_Env p, Call_Delete h, Set_Env p, Call_Close e]))], init_clients) \<and>
    run_sched task_step (0 # replicate 70 1 @ [0])
      (serve_all_at_once [Serve_Process p h, Serve_Obituary p], one_codec p e h) =
    ([(Serve_Process p h, (End, [Set_Env p, Acquire, Enter_Codec h, Leave_Codec h, Release])),
      (Serve_Obituary p, (End, [Set_Env p, Call_Delete h, Set_Env p, Call_Close e]))], init_clients)"
proof -
  have "step_at task_step 0 (serve_all_at_once [Serve_Process p h, Serve_Obituary p], one_codec p e h) =
      ([(Serve_Process p h, (In_Codec, [Set_Env p, Acquire, Enter_Codec h])), (Serve_Obituary p, (Get 0, []))],
       one_codec p e h)"
    by (simp add: serve_all_at_once_def step_at_def)
  with cleanup_of_one_codec [OF assms] show ?thesis
    by (simp only: run_sched_simps run_sched_append) (simp add: step_at_def)
qed

lemma cleanup_deletes_codec_at_work_witness:
  "run_sched task_step (0 # replicate 70 1)
      (serve_all_at_once [Serve_Process 7 200, Serve_Obituary 7], one_codec 7 100 200) =
    ([(Serve_Process 7 200, (In_Codec, [Set_Env 7, Acquire, Enter_Codec 200])),
      (Serve_Obituary 7, (End, [Set_Env 7, Call_Delete 200, Set_Env 7, Call_Close 100]))], init_clients)"
proof -
  have "(7 :: u32) \<noteq> 0" "(100 :: u32) \<noteq> 0" "(200 :: u32) \<noteq> 0" by simp_all
  from cleanup_deletes_codec_at_work [OF this] show ?thesis by blast
qed

end
