(* ===== verification/Server_Calls.thy ===== *)
theory Server_Calls
  imports Server_Cleanup
begin

text \<open>
  The functional behaviour of the server's handlers in \<^verbatim>\<open>dce.c\<close> on the messages of the client:
  what they call the codec engine with, what they answer, what they record, and what happens
  when the client passed \<open>NULL\<close> for a structure.
\<close>

lemma world_parts [simp]:
  "smem (with_world w s) = fst w" "hw (power (with_world w s)) = snd w"
  "use_cnt (power (with_world w s)) = use_cnt (power s)" "clients (with_world w s) = clients s"
  by (simp_all add: with_world_def)

lemma world_clients_update [simp]: "world (s\<lparr>clients := cl\<rparr>) = world s"
  by (simp add: world_def)

lemma world_with_world [simp]: "world (with_world w s) = w"
  by (simp add: world_def)

lemma task_set_env_parts [simp]:
  "smem (task_set_env A pid s) = smem s"
  "power (task_set_env A pid s) = (power s)\<lparr>hw := set_env A pid (hw (power s))\<rparr>"
  by (simp_all add: task_set_env_def run_def world_def with_world_def)

lemma getf_putf_same:
  "fld t p + 4 \<le> length d \<Longrightarrow> getf t p (putf t p v d) = v"
  by (simp add: getf_def putf_def get32_put32_same)

lemma getf_putf_other:
  "fld t p + 4 \<le> length d \<Longrightarrow> fld t p + 4 \<le> fld t q \<or> fld t q + 4 \<le> fld t p \<Longrightarrow>
     getf t p (putf t q v d) = getf t p d"
  by (simp add: getf_def putf_def get32_put32_other)

lemma rpc_Engine_open_result:
  assumes "32 \<le> length d" "cstr_ok name" "length name < 24"
    and "ce_open A name (smem s, set_env A pid (hw (power s))) = ((engine, ec), w)"
  shows "\<exists>d' s'. rpc_Engine_open A (fill_Engine_open pid name d) s = Some (0, d', s') \<and>
     getf Engine_open_args [''out'', ''engine''] d' = engine \<and>
     getf Engine_open_args [''out'', ''ec''] d' = ec \<and>
     clients s' = (if engine \<noteq> 0 then dce_register_engine (clients s) pid engine else clients s) \<and>
     world s' = w \<and> use_cnt (power s') = use_cnt (power s)"
proof -
  have "call (ce_open A name) (task_set_env A pid s) =
      ((engine, ec), with_world w (task_set_env A pid s))"
    using assms(4) by (simp add: call_def world_def)
  then show ?thesis using assms(1-3)
    by (simp add: rpc_Engine_open_def read_Engine_open read_name_Engine_open getf_putf_same
        getf_putf_other)
qed

lemma clean_ok:
  assumes "\<And>p n m w. fst (cache_wbinv A p n (m, w)) = m" "load32 (smem s) (p - 8) \<noteq> None"
  shows "\<exists>s'. clean A p s = Some s' \<and> smem s' = smem s \<and> clients s' = clients s \<and>
     use_cnt (power s') = use_cnt (power s)"
  using assms by (auto simp: clean_def dce_clean_def P2H_eq run_def world_def)

lemma rpc_VIDDEC3_create_result:
  assumes "40 \<le> length d" "cstr_ok name" "length name < 24"
    and "\<And>p n m w. fst (cache_wbinv A p n (m, w)) = m" "load32 m (params - 8) \<noteq> None"
    and "ce_create A e name params (smem s, set_env A pid (hw (power s))) = (codec, m, w)"
  shows "\<exists>d' s'. rpc_VIDDEC3_create A (fill_VIDDEC3_create pid e name params d) s = Some (0, d', s') \<and>
     getf VIDDEC3_create_args [''out'', ''codec''] d' = codec \<and> smem s' = m \<and>
     clients s' = (if codec \<noteq> 0 then dce_register_codec (clients s) pid codec else clients s)"
proof -
  let ?s = "with_world (m, w) (task_set_env A pid s)"
  have call: "call (ce_create A e name params) (task_set_env A pid s) = (codec, ?s)"
    using assms(6) by (simp add: call_def world_def)
  obtain s1 where "clean A params ?s = Some s1" "smem s1 = m" "clients s1 = clients s"
    using clean_ok [of A ?s params] assms(4,5) by auto
  with call show ?thesis using assms(1-3)
    by (simp add: rpc_VIDDEC3_create_def read_VIDDEC3_create read_name_VIDDEC3_create getf_putf_same)
qed

text \<open>
  \<open>rpc_Engine_open\<close> opens the engine under the name the client sent, in the environment of
  the client's process, answers with the engine and the error code, and records the engine for
  that process exactly when it is not \<open>NULL\<close>.
\<close>

lemma rpc_Engine_open_answers:
  assumes "32 \<le> length d" "cstr_ok name" "length name < 24"
    and "ce_open A name (smem s, set_env A pid (hw (power s))) = ((engine, ec), w)"
  shows "\<exists>d' s'. rpc_Engine_open A (fill_Engine_open pid name d) s = Some (0, d', s') \<and>
     getf Engine_open_args [''out'', ''engine''] d' = engine \<and>
     getf Engine_open_args [''out'', ''ec''] d' = ec \<and>
     clients s' = (if engine \<noteq> 0 then dce_register_engine (clients s) pid engine else clients s) \<and>
     world s' = w \<and> use_cnt (power s') = use_cnt (power s)"
  using assms by (rule rpc_Engine_open_result)

lemma rpc_Engine_open_answers_witness:
  "\<exists>d' s'. rpc_Engine_open idle_api (fill_Engine_open 8 sample_name (replicate 32 255)) one_client =
     Some (0, d', s') \<and> getf Engine_open_args [''out'', ''engine''] d' = 1 \<and>
     clients s' = dce_register_engine (clients one_client) 8 1"
  using rpc_Engine_open_answers [where A = idle_api and s = one_client and pid = 8 and
      d = "replicate 32 255" and name = sample_name]
  by (auto simp: sample_name_def cstr_ok_def idle_api_def)

text \<open>
  \<open>rpc_VIDDEC3_create\<close>, given a block of parameters with a readable header, creates the codec on
  the client's engine under the name sent, answers with its handle, and records the codec for the
  client's process exactly when it is not \<open>NULL\<close>.
\<close>

lemma rpc_VIDDEC3_create_answers:
  assumes "40 \<le> length d" "cstr_ok name" "length name < 24"
    and "\<And>p n m w. fst (cache_wbinv A p n (m, w)) = m" "load32 m (params - 8) \<noteq> None"
    and "ce_create A e name params (smem s, set_env A pid (hw (power s))) = (codec, m, w)"
  shows "\<exists>d' s'. rpc_VIDDEC3_create A (fill_VIDDEC3_create pid e name params d) s = Some (0, d', s') \<and>
     getf VIDDEC3_create_args [''out'', ''codec''] d' = codec \<and> smem s' = m \<and>
     clients s' = (if codec \<noteq> 0 then dce_register_codec (clients s) pid codec else clients s)"
  using assms by (rule rpc_VIDDEC3_create_result)

lemma rpc_VIDDEC3_create_answers_witness:
  "\<exists>d' s'. rpc_VIDDEC3_create idle_api (fill_VIDDEC3_create 7 100 sample_name 0x1000 (replicate 40 255))
     (one_client\<lparr>smem := \<lambda>a. Some 0\<rparr>) = Some (0, d', s') \<and>
     clients s' = dce_register_codec (clients one_client) 7 1"
  using rpc_VIDDEC3_create_answers [of "replicate 40 255" sample_name idle_api "\<lambda>a. Some 0" "0x1000" 100
      "one_client\<lparr>smem := \<lambda>a. Some 0\<rparr>" 7 1 "()"]
  by (auto simp: sample_name_def cstr_ok_def idle_api_def load32_def)

subsection \<open>Structures the client did not pass\<close>

lemma clean_null:
  "load32 (smem s) (- 8) = None \<Longrightarrow> clean A 0 s = None"
  by (simp add: clean_def dce_clean_def P2H_eq)

text \<open>
  C33: \<^verbatim>\<open>viddec3.h\<close> calls the creation parameters optional. When the client passes none, the stub
  sends 0, and \<open>rpc_VIDDEC3_create\<close>, after creating the codec, reads the header of a block at
  address zero: a fault unless the eight bytes below zero happen to be mapped. The codec is not
  recorded by then.
\<close>

theorem create_without_params_faults:
  assumes "40 \<le> length d" "cstr_ok name" "length name < 24"
    and "ce_create A e name 0 (smem s, set_env A pid (hw (power s))) = (codec, m, w)"
    and "load32 m (- 8) = None"
  shows "rpc_VIDDEC3_create A (fill_VIDDEC3_create pid e name 0 d) s = None"
proof -
  have "call (ce_create A e name 0) (task_set_env A pid s) =
      (codec, with_world (m, w) (task_set_env A pid s))"
    using assms(4) by (simp add: call_def world_def)
  then show ?thesis using assms
    by (simp add: rpc_VIDDEC3_create_def read_VIDDEC3_create read_name_VIDDEC3_create clean_null)
qed

lemma create_without_params_faults_witness:
  "rpc_VIDDEC3_create idle_api (fill_VIDDEC3_create 7 100 sample_name 0 (replicate 40 255)) one_client
     = None"
  by (rule create_without_params_faults [where codec = 1 and m = "\<lambda>a. None" and w = "()"])
     (simp_all add: sample_name_def cstr_ok_def idle_api_def one_client_def load32_unmapped)

subsection \<open>Processing\<close>

text \<open>The cache is transparent to memory: writing back and invalidating changes no value.\<close>

definition cache_keeps :: "'w ce_api \<Rightarrow> bool" where
  "cache_keeps A \<longleftrightarrow> (\<forall>p n m w. fst (cache_wbinv A p n (m, w)) = m)"

lemma clean_transparent:
  assumes "cache_keeps A"
  shows "case clean A p s of
     None \<Rightarrow> load32 (smem s) (p - 8) = None
   | Some s' \<Rightarrow> load32 (smem s) (p - 8) \<noteq> None \<and> smem s' = smem s \<and> clients s' = clients s \<and>
       use_cnt (power s') = use_cnt (power s)"
proof (cases "load32 (smem s) (p - 8)")
  case (Some n)
  have "fst (cache_wbinv A p n (world s)) = smem s"
    using assms by (simp add: cache_keeps_def world_def)
  with Some show ?thesis by (simp add: clean_def dce_clean_def P2H_eq run_def)
qed (simp add: clean_def dce_clean_def P2H_eq)

definition has_header :: "mem \<Rightarrow> u32 \<Rightarrow> bool" where
  "has_header m p \<longleftrightarrow> load32 m (p - 8) \<noteq> None"

lemma clean_Some:
  assumes "cache_keeps A" "has_header (smem s) p"
  obtains s' where "clean A p s = Some s'" "smem s' = smem s" "clients s' = clients s"
    "use_cnt (power s') = use_cnt (power s)"
  using clean_transparent [OF assms(1), of s p] assms(2)
  by (cases "clean A p s") (auto simp: has_header_def)

lemma clean_None: "\<not> has_header (smem s) p \<Longrightarrow> clean A p s = None"
  by (simp add: clean_def dce_clean_def P2H_eq has_header_def)

lemma rpc_VIDDEC3_control_result:
  assumes "20 \<le> length d" "cache_keeps A" "has_header m dp" "has_header m st"
    and "ce_control A c i dp st (smem s, set_env A pid (hw (power s))) = (r, m, w)"
  shows "\<exists>d' s'. rpc_VIDDEC3_control A (fill_VIDDEC3_control pid c i dp st d) s = Some (0, d', s') \<and>
     getf VIDDEC3_control_args [''out'', ''ret''] d' = r \<and> smem s' = m \<and> clients s' = clients s"
proof -
  let ?s = "with_world (m, w) (task_set_env A pid s)"
  have call: "call (ce_control A c i dp st) (task_set_env A pid s) = (r, ?s)"
    using assms(5) by (simp add: call_def world_def)
  obtain s1 where s1: "clean A dp ?s = Some s1" "smem s1 = m" "clients s1 = clients s"
    using clean_Some [OF assms(2), of ?s dp] assms(3) by auto
  obtain s2 where "clean A st s1 = Some s2" "smem s2 = m" "clients s2 = clients s"
    using clean_Some [OF assms(2), of s1 st] assms(4) s1 by auto
  with call s1 show ?thesis using assms(1)
    by (simp add: rpc_VIDDEC3_control_def read_VIDDEC3_control getf_putf_same)
qed

text \<open>Cleaning several blocks one after the other.\<close>

fun clean_all :: "'w ce_api \<Rightarrow> u32 list \<Rightarrow> 'w server \<Rightarrow> 'w server option" where
  "clean_all A [] s = Some s"
| "clean_all A (p # ps) s = do { s \<leftarrow> clean A p s; clean_all A ps s }"

lemma clean_all_result:
  assumes "cache_keeps A"
  shows "if list_all (has_header (smem s)) ps
     then \<exists>s'. clean_all A ps s = Some s' \<and> clients s' = clients s \<and>
            use_cnt (power s') = use_cnt (power s) \<and> smem s' = smem s
     else clean_all A ps s = None"
proof (induction ps arbitrary: s)
  case Nil
  then show ?case by simp
next
  case (Cons p ps)
  show ?case
  proof (cases "has_header (smem s) p")
    case True
    from clean_Some [OF assms True] obtain s1 where s1: "clean A p s = Some s1" "smem s1 = smem s"
      "clients s1 = clients s" "use_cnt (power s1) = use_cnt (power s)" by blast
    from Cons.IH [of s1] s1 True show ?thesis by auto
  qed (simp add: clean_None)
qed

text \<open>The server just before the codec is called, and the state of the accelerator then.\<close>

definition processing :: "'w ce_api \<Rightarrow> u32 \<Rightarrow> 'w server \<Rightarrow> 'w server" where
  "processing A pid s =
     (task_set_env A pid s)\<lparr>power := ivahd_acquire (bus A) (power (task_set_env A pid s))\<rparr>"

lemma rpc_VIDDEC3_process_result:
  assumes "24 \<le> length d" "cache_keeps A"
    and "ce_process A codec ib ob ia oa (world (processing A pid s)) = (ret, m, w)"
  shows "if list_all (has_header m) [ib, ob, ia, oa]
     then \<exists>d' s'. rpc_VIDDEC3_process A (fill_VIDDEC3_process pid codec ib ob ia oa d) s =
            Some (0, d', s') \<and> getf VIDDEC3_process_args [''out'', ''ret''] d' = ret \<and>
            clients s' = clients s \<and> use_cnt (power s') = use_cnt (power s) \<and> smem s' = m
     else rpc_VIDDEC3_process A (fill_VIDDEC3_process pid codec ib ob ia oa d) s = None"
proof -
  let ?s1 = "with_world (m, w) (processing A pid s)"
  let ?s2 = "?s1\<lparr>power := ivahd_release (bus A) (power ?s1)\<rparr>"
  have call: "call (ce_process A codec ib ob ia oa) (processing A pid s) = (ret, ?s1)"
    using assms(3) by (simp add: call_def)
  let ?d = "putf VIDDEC3_process_args [''out'', ''ret''] ret
    (fill_VIDDEC3_process pid codec ib ob ia oa d)"
  have rpc: "rpc_VIDDEC3_process A (fill_VIDDEC3_process pid codec ib ob ia oa d) s =
      map_option (\<lambda>s'. (0, ?d, s')) (clean_all A [ib, ob, ia, oa] ?s2)"
    using assms(1) call unfolding processing_def
    by (simp add: rpc_VIDDEC3_process_def read_VIDDEC3_process Let_def)
       (auto split: Option.bind_splits)
  have "smem ?s2 = m" "clients ?s2 = clients s" "use_cnt (power ?s2) = use_cnt (power s)"
    by (simp_all add: processing_def release_cases acquire_cases)
  with clean_all_result [OF assms(2), of ?s2 "[ib, ob, ia, oa]"] assms(1) show ?thesis
    by (auto simp: rpc getf_putf_same simp del: clean_all.simps)
qed

text \<open>
  C21: \<open>rpc_VIDDEC3_process\<close> calls the codec with the client's handle and blocks while it holds the
  accelerator; it answers with the codec's result, releases the accelerator so that the use
  count is what it was, and leaves the client table alone. It completes exactly when all four
  blocks have a readable header after the call, a \<open>NULL\<close> among them being a fault.
\<close>

theorem rpc_VIDDEC3_process_answers:
  assumes "24 \<le> length d" "cache_keeps A"
    and "ce_process A codec ib ob ia oa (world (processing A pid s)) = (ret, m, w)"
  shows "if list_all (has_header m) [ib, ob, ia, oa]
     then \<exists>d' s'. rpc_VIDDEC3_process A (fill_VIDDEC3_process pid codec ib ob ia oa d) s =
            Some (0, d', s') \<and> getf VIDDEC3_process_args [''out'', ''ret''] d' = ret \<and>
            clients s' = clients s \<and> use_cnt (power s') = use_cnt (power s)
     else rpc_VIDDEC3_process A (fill_VIDDEC3_process pid codec ib ob ia oa d) s = None"
  using rpc_VIDDEC3_process_result [OF assms] by (auto split: if_splits)

definition mapped_client :: "unit server" where
  "mapped_client = one_client\<lparr>smem := \<lambda>a. Some 0\<rparr>"

lemma mapped_client_headers: "has_header (\<lambda>a. Some 0) p"
  by (simp add: has_header_def load32_def)

lemma rpc_VIDDEC3_process_answers_witness:
  "\<exists>d' s'. rpc_VIDDEC3_process idle_api (fill_VIDDEC3_process 7 101 0x1000 0x2000 0x3000 0x4000
     (replicate 24 255)) mapped_client = Some (0, d', s') \<and>
     getf VIDDEC3_process_args [''out'', ''ret''] d' = 0 \<and> use_cnt (power s') = 0"
proof -
  have "cache_keeps idle_api" by (simp add: cache_keeps_def idle_api_def)
  moreover have "ce_process idle_api 101 0x1000 0x2000 0x3000 0x4000
      (world (processing idle_api 7 mapped_client)) = (0, \<lambda>a. Some 0, ())"
    by (simp add: idle_api_def world_def processing_def mapped_client_def)
  moreover have "use_cnt (power mapped_client) = 0"
    by (simp add: mapped_client_def one_client_def)
  ultimately show ?thesis
    using rpc_VIDDEC3_process_answers [of "replicate 24 255" idle_api 101 "0x1000" "0x2000" "0x3000"
        "0x4000" 7 mapped_client 0 "\<lambda>a. Some 0" "()"]
    by (auto simp: mapped_client_headers)
qed

end
