(* ===== verification/Rpc_Client.thy ===== *)
theory Rpc_Client
  imports Rpc_Args Mem_Header
begin

text \<open>
  The client side of \<^verbatim>\<open>dce.c\<close> (the parts not under \<open>SERVER\<close>): the six stubs that application
  code calls in place of the codec engine, and the setup of the connection on the first
  \<open>Engine_open\<close> and its teardown in \<open>Engine_close\<close>. The RCM client, the IPC library and
  \<open>getpid\<close> are not under \<^verbatim>\<open>src/\<close>: they are the fields of a record over a world \<open>'w\<close>; an
  exchange may change the memory shared with the server. The mutex makes \<open>init\<close> and \<open>deinit\<close>
  one step each. A message is its address, its function index and its data; a \<open>NULL\<close> message is
  \<open>None\<close>. A result of a stub that the code leaves uninitialised is \<open>Indeterminate\<close>.
\<close>

record message =
  msg_ptr :: u32
  fxnIdx :: u32
  msg_data :: bytes

record 'w rcm_api =
  rcm_init :: "'w \<Rightarrow> 'w"
  rcm_create :: "string \<Rightarrow> u32 \<Rightarrow> 'w \<Rightarrow> (u32 \<times> u32) \<times> 'w"
  rcm_symbol :: "u32 \<Rightarrow> fxn \<Rightarrow> 'w \<Rightarrow> (u32 \<times> u32) \<times> 'w"
  rcm_delete :: "u32 \<Rightarrow> 'w \<Rightarrow> u32 \<times> 'w"
  rcm_exit :: "'w \<Rightarrow> 'w"
  rcm_alloc :: "u32 \<Rightarrow> nat \<Rightarrow> 'w \<Rightarrow> (u32 \<times> message option) \<times> 'w"
  rcm_exec :: "u32 \<Rightarrow> message \<Rightarrow> mem \<times> 'w \<Rightarrow> (u32 \<times> message option) \<times> mem \<times> 'w"
  rcm_free :: "u32 \<Rightarrow> message \<Rightarrow> 'w \<Rightarrow> 'w"
  ipc_setup :: "'w \<Rightarrow> u32 \<times> 'w"
  ipc_destroy :: "'w \<Rightarrow> u32 \<times> 'w"
  getpid :: "'w \<Rightarrow> u32 \<times> 'w"

record 'w proc =
  handle :: u32
  pid :: u32
  use_count :: u32
  idx :: "fxn \<Rightarrow> u32"
  pmem :: mem
  pw :: 'w

definition init_proc :: "mem \<Rightarrow> 'w \<Rightarrow> 'w proc" where
  "init_proc m w = \<lparr>handle = 0, pid = 0, use_count = 0, idx = (\<lambda>_. 0), pmem = m, pw = w\<rparr>"

datatype ret = Value u32 | Indeterminate

subsection \<open>Setup and teardown\<close>

text \<open>\<open>SETUP_FXN\<close> for the six functions, in order, stopping at the first error.\<close>

fun setup_fxns :: "'w rcm_api \<Rightarrow> fxn list \<Rightarrow> 'w proc \<Rightarrow> u32 option \<times> 'w proc" where
  "setup_fxns R [] s = (None, s)"
| "setup_fxns R (f # fs) s =
     (case rcm_symbol R (handle s) f (pw s) of ((e, i), w) \<Rightarrow>
        let s = s\<lparr>idx := (idx s)(f := i), pw := w\<rparr>
        in if cneg e then (Some e, s) else setup_fxns R fs s)"

text \<open>\<open>SERVER_NAME\<close> is "dCE", the heap 1.\<close>

definition dce_init :: "'w rcm_api \<Rightarrow> 'w proc \<Rightarrow> u32 \<times> 'w proc" where
  "dce_init R s =
     (case rcm_create R ''dCE'' 1 (rcm_init R (pw s)) of ((err, h), w) \<Rightarrow>
        let s = s\<lparr>handle := h, pw := w\<rparr>
        in if cneg err then (err, s)
           else case setup_fxns R all_fxns s of
             (Some e, s) \<Rightarrow> (e, s)
           | (None, s) \<Rightarrow> (err, s))"

definition dce_deinit :: "'w rcm_api \<Rightarrow> 'w proc \<Rightarrow> u32 \<times> 'w proc" where
  "dce_deinit R s =
     (case (if handle s \<noteq> 0
            then (case rcm_delete R (handle s) (pw s) of (e, w) \<Rightarrow> (e, s\<lparr>handle := 0, pw := w\<rparr>))
            else (0, s)) of
       (err, s) \<Rightarrow> (err, s\<lparr>pw := rcm_exit R (pw s)\<rparr>))"

definition cpos :: "u32 \<Rightarrow> bool" where
  "cpos c \<longleftrightarrow> 0 < sint c"

definition init :: "'w rcm_api \<Rightarrow> 'w proc \<Rightarrow> 'w proc" where
  "init R s =
     (if cpos (use_count s) then s
      else
        let s = s\<lparr>use_count := use_count s + 1\<rparr>;
            (_, w) = ipc_setup R (pw s);
            (p, w) = getpid R w;
            s = s\<lparr>pid := p, pw := w\<rparr>;
            (_, s) = dce_init R s
        in s)"

definition deinit :: "'w rcm_api \<Rightarrow> 'w proc \<Rightarrow> 'w proc" where
  "deinit R s =
     (let s = s\<lparr>use_count := use_count s - 1\<rparr>
      in if cpos (use_count s) then s
         else
           let (_, s) = dce_deinit R s;
               (_, w) = ipc_destroy R (pw s)
           in s\<lparr>pw := w\<rparr>)"

subsection \<open>The stubs\<close>

text \<open>The label \<open>out\<close>: \<open>if (msg) RcmClient_free (handle, msg)\<close>.\<close>

definition out_free :: "'w rcm_api \<Rightarrow> message option \<Rightarrow> 'w proc \<Rightarrow> 'w proc" where
  "out_free R msg s =
     (case msg of None \<Rightarrow> s | Some m \<Rightarrow> s\<lparr>pw := rcm_free R (handle s) m (pw s)\<rparr>)"

text \<open>
  What the six stubs do in common: allocate a message, set its function index, fill its
  arguments, execute it, hand the answer to the stub, free the message on every path. The result
  is the data of the answer, or \<open>None\<close> when an error made the stub jump to \<open>out\<close>. Filling reads
  memory and may fault; so does a \<open>NULL\<close> message that is reported as a success.
\<close>

definition exchange ::
  "'w rcm_api \<Rightarrow> fxn \<Rightarrow> nat \<Rightarrow> (mem \<Rightarrow> bytes \<Rightarrow> bytes option) \<Rightarrow> 'w proc \<Rightarrow>
     (bytes option \<times> 'w proc) option" where
  "exchange R f sz fill s =
     (case rcm_alloc R (handle s) sz (pw s) of ((err, msg), w) \<Rightarrow>
        let s = s\<lparr>pw := w\<rparr>
        in if cneg err then Some (None, out_free R msg s)
           else (case msg of
             None \<Rightarrow> None
           | Some m \<Rightarrow> do {
               d \<leftarrow> fill (pmem s) (msg_data m);
               let m = m\<lparr>fxnIdx := idx s f, msg_data := d\<rparr>;
               let ((err, msg), mm, w) = rcm_exec R (handle s) m (pmem s, pw s);
               let s = s\<lparr>pmem := mm, pw := w\<rparr>;
               (if cneg err then Some (None, out_free R msg s)
                else (case msg of
                  None \<Rightarrow> None
                | Some m \<Rightarrow> Some (Some (msg_data m), out_free R (Some m) s))) }))"

text \<open>\<open>Engine_open\<close> returns the handle and, when there was an answer, stores the error code.\<close>

definition Engine_open :: "'w rcm_api \<Rightarrow> cstr \<Rightarrow> 'w proc \<Rightarrow> ((u32 \<times> u32 option) \<times> 'w proc) option" where
  "Engine_open R name s = (
     let s = init R s in do {
       (r, s) \<leftarrow> exchange R F_Engine_open (csize Engine_open_args)
         (\<lambda>m d. Some (fill_Engine_open (pid s) name d)) s;
       Some (case r of
           None \<Rightarrow> (0, None)
         | Some d \<Rightarrow> (getf Engine_open_args [''out'', ''engine''] d,
             Some (getf Engine_open_args [''out'', ''ec''] d)), s) })"

definition Engine_close :: "'w rcm_api \<Rightarrow> u32 \<Rightarrow> 'w proc \<Rightarrow> 'w proc option" where
  "Engine_close R engine s = do {
     (_, s) \<leftarrow> exchange R F_Engine_close (csize Engine_close_args)
       (\<lambda>m d. Some (fill_Engine_close (pid s) engine d)) s;
     Some (deinit R s) }"

definition VIDDEC3_create ::
  "'w rcm_api \<Rightarrow> u32 \<Rightarrow> cstr \<Rightarrow> u32 \<Rightarrow> 'w proc \<Rightarrow> (ret \<times> 'w proc) option" where
  "VIDDEC3_create R engine name params s = do {
     (r, s) \<leftarrow> exchange R F_VIDDEC3_create (csize VIDDEC3_create_args)
       (\<lambda>m d. do { p \<leftarrow> virt2ducati m params;
          Some (fill_VIDDEC3_create (pid s) engine name p d) }) s;
     Some (case r of
         None \<Rightarrow> Indeterminate
       | Some d \<Rightarrow> Value (getf VIDDEC3_create_args [''out'', ''codec''] d), s) }"

definition VIDDEC3_control ::
  "'w rcm_api \<Rightarrow> u32 \<Rightarrow> u32 \<Rightarrow> u32 \<Rightarrow> u32 \<Rightarrow> 'w proc \<Rightarrow> (ret \<times> 'w proc) option" where
  "VIDDEC3_control R codec cmd dynParams status s = do {
     (r, s) \<leftarrow> exchange R F_VIDDEC3_control (csize VIDDEC3_control_args)
       (\<lambda>m d. do { dp \<leftarrow> virt2ducati m dynParams; st \<leftarrow> virt2ducati m status;
          Some (fill_VIDDEC3_control (pid s) codec cmd dp st d) }) s;
     Some (case r of
         None \<Rightarrow> Indeterminate
       | Some d \<Rightarrow> Value (getf VIDDEC3_control_args [''out'', ''ret''] d), s) }"

definition VIDDEC3_process ::
  "'w rcm_api \<Rightarrow> u32 \<Rightarrow> u32 \<Rightarrow> u32 \<Rightarrow> u32 \<Rightarrow> u32 \<Rightarrow> 'w proc \<Rightarrow> (ret \<times> 'w proc) option" where
  "VIDDEC3_process R codec inBufs outBufs inArgs outArgs s = do {
     (r, s) \<leftarrow> exchange R F_VIDDEC3_process (csize VIDDEC3_process_args)
       (\<lambda>m d. do { ib \<leftarrow> virt2ducati m inBufs; ob \<leftarrow> virt2ducati m outBufs;
          ia \<leftarrow> virt2ducati m inArgs; oa \<leftarrow> virt2ducati m outArgs;
          Some (fill_VIDDEC3_process (pid s) codec ib ob ia oa d) }) s;
     Some (case r of
         None \<Rightarrow> Indeterminate
       | Some d \<Rightarrow> Value (getf VIDDEC3_process_args [''out'', ''ret''] d), s) }"

definition VIDDEC3_delete :: "'w rcm_api \<Rightarrow> u32 \<Rightarrow> 'w proc \<Rightarrow> 'w proc option" where
  "VIDDEC3_delete R codec s = do {
     (_, s) \<leftarrow> exchange R F_VIDDEC3_delete (csize VIDDEC3_delete_args)
       (\<lambda>m d. Some (fill_VIDDEC3_delete (pid s) codec d)) s;
     Some s }"

end
