(* ===== verification/Client_Stubs.thy ===== *)
theory Client_Stubs
  imports Rpc_Client
begin

text \<open>
  Properties of the client's stubs in \<^verbatim>\<open>dce.c\<close>: the handling of messages on every path, the
  results on errors, and the life of the connection under several engines. The handling of
  messages is stated over a log of the RCM calls that concern messages.
\<close>

subsection \<open>A log of message events\<close>

datatype msg_event = E_alloc "u32 option" | E_exec u32 "u32 option" | E_free u32

type_synonym 'w logged = "'w \<times> msg_event list"

abbreviation ptr_of :: "message option \<Rightarrow> u32 option" where
  "ptr_of \<equiv> map_option msg_ptr"

definition on_fst :: "('w \<Rightarrow> 'a \<times> 'w) \<Rightarrow> 'w logged \<Rightarrow> 'a \<times> 'w logged" where
  "on_fst f = (\<lambda>(w, l). case f w of (x, w1) \<Rightarrow> (x, w1, l))"

definition logged_rcm :: "'w rcm_api \<Rightarrow> 'w logged rcm_api" where
  "logged_rcm R = \<lparr>
     rcm_init = (\<lambda>(w, l). (rcm_init R w, l)),
     rcm_create = (\<lambda>n p. on_fst (rcm_create R n p)),
     rcm_symbol = (\<lambda>h f. on_fst (rcm_symbol R h f)),
     rcm_delete = (\<lambda>h. on_fst (rcm_delete R h)),
     rcm_exit = (\<lambda>(w, l). (rcm_exit R w, l)),
     rcm_alloc = (\<lambda>h n (w, l). case rcm_alloc R h n w of
        ((e, m), w1) \<Rightarrow> ((e, m), w1, l @ [E_alloc (ptr_of m)])),
     rcm_exec = (\<lambda>h m (mm, w, l). case rcm_exec R h m (mm, w) of
        ((e, m1), mm1, w1) \<Rightarrow> ((e, m1), mm1, w1, l @ [E_exec (msg_ptr m) (ptr_of m1)])),
     rcm_free = (\<lambda>h m (w, l). (rcm_free R h m w, l @ [E_free (msg_ptr m)])),
     ipc_setup = on_fst (ipc_setup R),
     ipc_destroy = on_fst (ipc_destroy R),
     getpid = on_fst (getpid R)\<rparr>"

text \<open>
  The messages a client holds after a sequence of events: an allocation and an answer give it
  one, execution and release take one away; using a message that is not held is an error.
\<close>

fun give :: "u32 option \<Rightarrow> u32 multiset \<Rightarrow> u32 multiset" where
  "give None M = M"
| "give (Some p) M = add_mset p M"

fun held :: "msg_event list \<Rightarrow> u32 multiset \<Rightarrow> u32 multiset option" where
  "held [] M = Some M"
| "held (E_alloc p # l) M = held l (give p M)"
| "held (E_exec p q # l) M = (if p \<in># M then held l (give q (M - {#p#})) else None)"
| "held (E_free p # l) M = (if p \<in># M then held l (M - {#p#}) else None)"

lemma held_append:
  "held (xs @ ys) M = Option.bind (held xs M) (held ys)"
  by (induction xs M rule: held.induct) auto

definition messages_balanced :: "msg_event list \<Rightarrow> bool" where
  "messages_balanced l \<longleftrightarrow> held l {#} = Some {#}"

lemma messages_balanced_append:
  "messages_balanced xs \<Longrightarrow> messages_balanced ys \<Longrightarrow> messages_balanced (xs @ ys)"
  by (simp add: messages_balanced_def held_append)

text \<open>Steps that append a balanced piece to the log.\<close>

definition log_of :: "'w logged proc \<Rightarrow> msg_event list" where
  "log_of s = snd (pw s)"

definition extends_balanced :: "'w logged proc \<Rightarrow> 'w logged proc \<Rightarrow> bool" where
  "extends_balanced s s' \<longleftrightarrow> (\<exists>l. log_of s' = log_of s @ l \<and> messages_balanced l)"

lemma extends_balanced_refl: "log_of s' = log_of s \<Longrightarrow> extends_balanced s s'"
  by (auto simp: extends_balanced_def messages_balanced_def intro: exI [of _ "[]"])

lemma extends_balanced_trans:
  "extends_balanced s s' \<Longrightarrow> extends_balanced s' s'' \<Longrightarrow> extends_balanced s s''"
  unfolding extends_balanced_def using messages_balanced_append by (metis append.assoc)

lemma log_of_on_fst: "on_fst f w = (x, w1) \<Longrightarrow> snd w1 = snd w"
  by (auto simp: on_fst_def split: prod.splits)

lemma log_of_parts [simp]:
  "log_of (s\<lparr>idx := i\<rparr>) = log_of s" "log_of (s\<lparr>handle := h\<rparr>) = log_of s"
  "log_of (s\<lparr>pid := p\<rparr>) = log_of s" "log_of (s\<lparr>use_count := c\<rparr>) = log_of s"
  "log_of (s\<lparr>pmem := m\<rparr>) = log_of s" "log_of (s\<lparr>pw := w\<rparr>) = snd w"
  by (simp_all add: log_of_def)

subsection \<open>Setup and teardown allocate no message\<close>

lemma setup_fxns_log: "log_of (snd (setup_fxns (logged_rcm R) fs s)) = log_of s"
proof (induction fs arbitrary: s)
  case Nil
  then show ?case by simp
next
  case (Cons f fs)
  obtain e i w where sym: "rcm_symbol (logged_rcm R) (handle s) f (pw s) = ((e, i), w)"
    by (metis surj_pair)
  then have "snd w = snd (pw s)" by (auto simp: logged_rcm_def dest: log_of_on_fst)
  with Cons.IH sym show ?case by (simp add: Let_def log_of_def)
qed

lemma dce_init_log: "log_of (snd (dce_init (logged_rcm R) s)) = log_of s"
proof -
  obtain e h w where c: "rcm_create (logged_rcm R) ''dCE'' 1 (rcm_init (logged_rcm R) (pw s)) = ((e, h), w)"
    by (metis surj_pair)
  then have "snd w = snd (pw s)"
    by (auto simp: logged_rcm_def split: prod.splits dest: log_of_on_fst)
  with c setup_fxns_log [of R all_fxns "s\<lparr>handle := h, pw := w\<rparr>"] show ?thesis
    by (auto simp: dce_init_def Let_def log_of_def split: prod.splits option.splits)
qed

lemma dce_deinit_log: "log_of (snd (dce_deinit (logged_rcm R) s)) = log_of s"
  by (auto simp: dce_deinit_def log_of_def logged_rcm_def split: prod.splits if_splits dest: log_of_on_fst)

lemma init_log: "log_of (init (logged_rcm R) s) = log_of s"
proof (cases "cpos (use_count s)")
  case False
  obtain x w where s1: "ipc_setup (logged_rcm R) (pw s) = (x, w)" by (metis surj_pair)
  obtain p w2 where s2: "getpid (logged_rcm R) w = (p, w2)" by (metis surj_pair)
  have "snd w2 = snd (pw s)" using s1 s2 by (auto simp: logged_rcm_def dest!: log_of_on_fst)
  then show ?thesis
    using False s1 s2 dce_init_log [of R "s\<lparr>use_count := use_count s + 1, pid := p, pw := w2\<rparr>"]
    by (simp add: init_def Let_def log_of_def case_prod_beta)
qed (simp add: init_def)

lemma deinit_log: "log_of (deinit (logged_rcm R) s) = log_of s"
  using dce_deinit_log [of R "s\<lparr>use_count := use_count s - 1\<rparr>"]
  by (auto simp: deinit_def Let_def case_prod_beta log_of_def)
     (auto simp: logged_rcm_def on_fst_def split: prod.splits)

subsection \<open>One exchange\<close>

lemma out_free_log:
  "log_of (out_free (logged_rcm R) msg s) =
     log_of s @ (case msg of None \<Rightarrow> [] | Some m \<Rightarrow> [E_free (msg_ptr m)])"
  by (auto simp: out_free_def log_of_def logged_rcm_def split: option.splits prod.splits)

lemma exchange_balanced:
  assumes "exchange (logged_rcm R) f sz fill s = Some (r, s')"
  shows "extends_balanced s s'"
proof -
  obtain e msg w where a: "rcm_alloc (logged_rcm R) (handle s) sz (pw s) = ((e, msg), w)"
    by (metis surj_pair)
  then have w: "snd w = log_of s @ [E_alloc (ptr_of msg)]"
    by (auto simp: logged_rcm_def log_of_def split: prod.splits)
  show ?thesis
  proof (cases "cneg e")
    case True
    with assms a have "s' = out_free (logged_rcm R) msg (s\<lparr>pw := w\<rparr>)"
      by (simp add: exchange_def Let_def)
    with w show ?thesis
      by (auto simp: extends_balanced_def messages_balanced_def out_free_log split: option.splits)
  next
    case False
    with assms a obtain m d where m: "msg = Some m" and d: "fill (pmem s) (msg_data m) = Some d"
      by (auto simp: exchange_def Let_def split: option.splits Option.bind_splits)
    let ?m = "m\<lparr>fxnIdx := idx s f, msg_data := d\<rparr>"
    obtain e1 msg1 mm w1 where x: "rcm_exec (logged_rcm R) (handle s) ?m (pmem s, w) = ((e1, msg1), mm, w1)"
      by (metis surj_pair)
    then have w1: "snd w1 = snd w @ [E_exec (msg_ptr m) (ptr_of msg1)]"
      by (auto simp: logged_rcm_def split: prod.splits)
    from False a m d x assms have "s' = out_free (logged_rcm R) msg1 (s\<lparr>pmem := mm, pw := w1\<rparr>)"
      by (auto simp: exchange_def Let_def split: if_splits option.splits)
    with w w1 m show ?thesis
      by (auto simp: extends_balanced_def messages_balanced_def out_free_log split: option.splits)
  qed
qed

subsection \<open>Sequences of calls\<close>

text \<open>
  The contract of a call of the interface: when it returns, the messages it took have been given
  back. A program that uses only such calls never leaks a message, and never uses one it has
  given back.
\<close>

locale message_discipline =
  fixes step :: "'c \<Rightarrow> 's \<Rightarrow> 's option"
    and log :: "'s \<Rightarrow> msg_event list"
  assumes step_balanced:
    "step c s = Some s' \<Longrightarrow> \<exists>l. log s' = log s @ l \<and> messages_balanced l"
begin

fun run_calls :: "'c list \<Rightarrow> 's \<Rightarrow> 's option" where
  "run_calls [] s = Some s"
| "run_calls (c # cs) s = Option.bind (step c s) (run_calls cs)"

lemma run_calls_balanced:
  "run_calls cs s = Some s' \<Longrightarrow> \<exists>l. log s' = log s @ l \<and> messages_balanced l"
proof (induction cs arbitrary: s)
  case Nil
  then show ?case by (auto simp: messages_balanced_def)
next
  case (Cons c cs)
  then obtain s1 where s1: "step c s = Some s1" "run_calls cs s1 = Some s'"
    by (auto split: Option.bind_splits)
  from step_balanced [OF s1(1)] Cons.IH [OF s1(2)] show ?case
    by (metis append.assoc messages_balanced_append)
qed

lemma run_calls_append:
  "run_calls (cs @ ds) s = Option.bind (run_calls cs s) (run_calls ds)"
  by (induction cs arbitrary: s) (auto split: Option.bind_splits)

end

datatype api_call =
    Call_open cstr
  | Call_close u32
  | Call_create u32 cstr u32
  | Call_control u32 u32 u32 u32
  | Call_process u32 u32 u32 u32 u32
  | Call_delete u32

fun api_step :: "'w rcm_api \<Rightarrow> api_call \<Rightarrow> 'w proc \<Rightarrow> 'w proc option" where
  "api_step R (Call_open name) s = map_option snd (Engine_open R name s)"
| "api_step R (Call_close e) s = Engine_close R e s"
| "api_step R (Call_create e name p) s = map_option snd (VIDDEC3_create R e name p s)"
| "api_step R (Call_control c i dp st) s = map_option snd (VIDDEC3_control R c i dp st s)"
| "api_step R (Call_process c ib ob ia oa) s = map_option snd (VIDDEC3_process R c ib ob ia oa s)"
| "api_step R (Call_delete c) s = VIDDEC3_delete R c s"

lemmas stub_defs = Engine_open_def Engine_close_def VIDDEC3_create_def VIDDEC3_control_def
  VIDDEC3_process_def VIDDEC3_delete_def

lemma api_step_balanced:
  assumes "api_step (logged_rcm R) c s = Some s'"
  shows "extends_balanced s s'"
proof (cases c)
  case (Call_open name)
  with assms obtain r where
    "exchange (logged_rcm R) F_Engine_open 32
       (\<lambda>m d. Some (fill_Engine_open (pid (init (logged_rcm R) s)) name d))
       (init (logged_rcm R) s) = Some (r, s')"
    by (auto simp: stub_defs Let_def split: Option.bind_splits)
  from exchange_balanced [OF this] show ?thesis
    by (simp add: extends_balanced_def init_log)
next
  case (Call_close e)
  with assms obtain r s1 where x: "exchange (logged_rcm R) F_Engine_close 8
       (\<lambda>m d. Some (fill_Engine_close (pid s) e d)) s = Some (r, s1)" "s' = deinit (logged_rcm R) s1"
    by (auto simp: stub_defs Let_def split: Option.bind_splits)
  from exchange_balanced [OF x(1)] x(2) show ?thesis
    by (simp add: extends_balanced_def deinit_log)
qed (use assms in \<open>auto simp: stub_defs split: Option.bind_splits dest!: exchange_balanced\<close>)

interpretation stubs: message_discipline "api_step (logged_rcm R)" log_of for R
  using api_step_balanced by unfold_locales (auto simp: extends_balanced_def)

fun api_run :: "'w rcm_api \<Rightarrow> api_call list \<Rightarrow> 'w proc \<Rightarrow> 'w proc option" where
  "api_run R [] s = Some s"
| "api_run R (c # cs) s = Option.bind (api_step R c s) (api_run R cs)"

lemma api_run_stubs: "api_run (logged_rcm R) cs s = stubs.run_calls R cs s"
  by (induction cs arbitrary: s) (auto split: Option.bind_splits)

text \<open>
  C11: whatever the RCM client answers, errors included, a program that makes any sequence of the
  six calls and runs to its end has released every message it was given, each exactly once, and
  has passed to \<open>RcmClient_exec\<close> and \<open>RcmClient_free\<close> only messages it still held.
\<close>

theorem every_message_released:
  assumes "api_run (logged_rcm R) cs (init_proc m (w, [])) = Some s'"
  shows "held (log_of s') {#} = Some {#}"
  using stubs.run_calls_balanced [of R cs "init_proc m (w, [])" s'] assms
  by (auto simp: api_run_stubs messages_balanced_def log_of_def init_proc_def)

text \<open>An RCM client that fails the third allocation and every execution of function 4.\<close>

definition sample_rcm :: "nat rcm_api" where
  "sample_rcm = \<lparr>rcm_init = id, rcm_create = (\<lambda>n p w. ((0, 1), w)),
     rcm_symbol = (\<lambda>h f w. ((0, if f = F_VIDDEC3_process then 4 else 0), w)),
     rcm_delete = (\<lambda>h w. (0, w)), rcm_exit = id,
     rcm_alloc = (\<lambda>h n w. if w = 2 then ((0xFFFFFFFF, None), w + 1)
       else ((0, Some \<lparr>msg_ptr = 0x100, fxnIdx = 0, msg_data = replicate n 0\<rparr>), w + 1)),
     rcm_exec = (\<lambda>h m (mm, w). if fxnIdx m = 4 then ((0xFFFFFFFF, Some m), mm, w)
       else ((0, Some (m\<lparr>msg_ptr := 0x200\<rparr>)), mm, w)),
     rcm_free = (\<lambda>h m w. w), ipc_setup = (\<lambda>w. (0, w)), ipc_destroy = (\<lambda>w. (0, w)),
     getpid = (\<lambda>w. (77, w))\<rparr>"

definition sample_calls :: "api_call list" where
  "sample_calls = [Call_open [105], Call_process 1 0 0 0 0, Call_delete 1, Call_close 1]"

lemma sample_run:
  "map_option log_of (api_run (logged_rcm sample_rcm) sample_calls (init_proc (\<lambda>a. None) (0, []))) =
     Some [E_alloc (Some 0x100), E_exec 0x100 (Some 0x200), E_free 0x200,
       E_alloc (Some 0x100), E_exec 0x100 (Some 0x100), E_free 0x100,
       E_alloc None,
       E_alloc (Some 0x100), E_exec 0x100 (Some 0x200), E_free 0x200]"
  by code_simp

lemma every_message_released_witness:
  "\<exists>s'. api_run (logged_rcm sample_rcm) sample_calls (init_proc (\<lambda>a. None) (0, [])) = Some s' \<and>
     held (log_of s') {#} = Some {#}"
  using sample_run every_message_released [of sample_rcm sample_calls "\<lambda>a. None" 0]
  by (auto simp: map_option_eq_Some)

end
