(* ===== verification/Client_Life.thy ===== *)
theory Client_Life
  imports Client_Stubs
begin

text \<open>
  The life of the client's connection in \<^verbatim>\<open>dce.c\<close>: what \<open>dce_init\<close> sets up, how the use count
  of \<open>init\<close> and \<open>deinit\<close> behaves when several engines are open at once, and what the stubs
  return when the RCM client reports an error.
\<close>

lemma cpos_simps [simp]: "\<not> cpos 0" "cpos 1" "\<not> cpos (- 1)"
  by (simp_all add: cpos_def)

subsection \<open>Setting up\<close>

lemma setup_fxns_result:
  assumes "\<And>f w. fst (rcm_symbol R (handle s) f w) = (e f, i f)"
  shows "fst (setup_fxns R fs s) = find cneg (map e fs) \<and>
     handle (snd (setup_fxns R fs s)) = handle s \<and>
     use_count (snd (setup_fxns R fs s)) = use_count s \<and>
     (find cneg (map e fs) = None \<longrightarrow>
        idx (snd (setup_fxns R fs s)) = (\<lambda>f. if f \<in> set fs then i f else idx s f))"
  using assms
proof (induction fs arbitrary: s)
  case Nil
  then show ?case by simp
next
  case (Cons f fs)
  obtain w where sym: "rcm_symbol R (handle s) f (pw s) = ((e f, i f), w)"
    using Cons.prems [of f "pw s"] by (metis prod.collapse)
  let ?s = "s\<lparr>idx := (idx s)(f := i f), pw := w\<rparr>"
  have "\<And>f w. fst (rcm_symbol R (handle ?s) f w) = (e f, i f)" using Cons.prems by simp
  from Cons.IH [OF this] sym show ?case by (auto simp: Let_def)
qed

text \<open>
  C34: \<open>dce_init\<close> reports the error of creating the connection, or else the first error among the
  six symbol lookups, or else the result of the creation; the handle is stored in any case, and
  without an error every stub will send the index that the server gave its function.
\<close>

theorem dce_init_result:
  assumes "rcm_create R ''dCE'' 1 (rcm_init R (pw s)) = ((err, h), w)"
    and "\<And>f w. fst (rcm_symbol R h f w) = (e f, i f)"
  shows "fst (dce_init R s) =
       (if cneg err then err
        else case find cneg (map e all_fxns) of Some e \<Rightarrow> e | None \<Rightarrow> err) \<and>
     handle (snd (dce_init R s)) = h \<and>
     (\<not> cneg err \<and> find cneg (map e all_fxns) = None \<longrightarrow> idx (snd (dce_init R s)) = i)"
proof -
  let ?s = "s\<lparr>handle := h, pw := w\<rparr>"
  have "\<And>f w. fst (rcm_symbol R (handle ?s) f w) = (e f, i f)" using assms(2) by simp
  from setup_fxns_result [of R ?s e i all_fxns, OF this] assms(1) show ?thesis
    by (auto simp: dce_init_def Let_def set_all_fxns split: prod.splits option.splits)
qed

lemma dce_init_result_witness:
  "idx (snd (dce_init sample_rcm (init_proc (\<lambda>a. None) 0))) F_VIDDEC3_process = 4"
  using dce_init_result [of sample_rcm "init_proc (\<lambda>a. None) 0" 0 1 0 "\<lambda>_. 0"
      "\<lambda>f. if f = F_VIDDEC3_process then 4 else 0"]
  by (simp add: sample_rcm_def init_proc_def all_fxns_def)

subsection \<open>The use count\<close>

lemma use_count_dce_init [simp]: "use_count (snd (dce_init R s)) = use_count s"
proof -
  have "use_count (snd (setup_fxns R fs s)) = use_count s" for fs s
  proof (induction fs arbitrary: s)
    case (Cons f fs)
    then show ?case by (auto simp: Let_def split: prod.splits)
  qed simp
  then show ?thesis
    by (auto simp: dce_init_def Let_def split: prod.splits option.splits)
       (metis proc.select_convs(3) proc.surjective proc.update_convs(1,6) snd_conv)+
qed

lemma use_count_init: "use_count (init R s) = (if cpos (use_count s) then use_count s else use_count s + 1)"
  by (simp add: init_def Let_def case_prod_beta)

lemma init_active: "cpos (use_count s) \<Longrightarrow> init R s = s"
  by (simp add: init_def)

lemma dce_deinit_parts:
  "handle (snd (dce_deinit R s)) = 0" "use_count (snd (dce_deinit R s)) = use_count s"
  by (auto simp: dce_deinit_def split: prod.splits)

lemma deinit_last:
  assumes "\<not> cpos (use_count s - 1)"
  shows "handle (deinit R s) = 0" "use_count (deinit R s) = use_count s - 1"
  using assms by (simp_all add: deinit_def Let_def case_prod_beta dce_deinit_parts)

lemma init_repeated:
  assumes "use_count s = 0"
  shows "(init R ^^ Suc n) s = init R s \<and> use_count ((init R ^^ Suc n) s) = 1"
proof (induction n)
  case 0
  then show ?case using assms by (simp add: use_count_init)
next
  case (Suc n)
  have "use_count (init R s) = 1" using assms by (simp add: use_count_init)
  then have "init R (init R s) = init R s" by (intro init_active) simp
  with Suc \<open>use_count (init R s) = 1\<close> show ?case by simp
qed

text \<open>
  C31: the count of open engines is not a count: \<open>init\<close> increments it only when it sets the
  connection up, \<open>deinit\<close> decrements it always. With any number of engines open, the first
  \<open>Engine_close\<close> tears the connection down (the handle becomes \<open>NULL\<close>) under the others, and the
  second makes the count negative, so that two further opens each set up a connection.
\<close>

theorem first_close_tears_down:
  assumes "use_count s = 0"
  shows "(let t = deinit R ((init R ^^ Suc n) s) in handle t = 0 \<and> use_count t = 0) \<and>
     (let u = deinit R (deinit R ((init R ^^ Suc n) s)) in use_count u = - 1 \<and>
        use_count (init R u) = 0 \<and> use_count (init R (init R u)) = 1)"
proof -
  let ?s = "(init R ^^ Suc n) s"
  have one: "use_count ?s = 1" using init_repeated [OF assms] by blast
  then have t: "handle (deinit R ?s) = 0" "use_count (deinit R ?s) = 0"
    using deinit_last [of ?s R] by (simp_all del: funpow.simps)
  then have "use_count (deinit R (deinit R ?s)) = - 1"
    using deinit_last(2) [of "deinit R ?s" R] by (simp del: funpow.simps)
  with t show ?thesis by (simp add: Let_def use_count_init del: funpow.simps)
qed

lemma first_close_tears_down_witness:
  "handle (deinit sample_rcm (init sample_rcm (init sample_rcm (init_proc (\<lambda>a. None) 0)))) = 0"
  using first_close_tears_down [of "init_proc (\<lambda>a. None) 0" sample_rcm 1]
  by (simp add: init_proc_def Let_def numeral_2_eq_2)

text \<open>
  One engine at a time is handled as intended: from an unused connection, opening and closing
  brings the count back to zero with no connection, and the next open sets it up again.
\<close>

lemma open_close_one_engine:
  assumes "use_count s = 0"
  shows "use_count (((\<lambda>s. deinit R (init R s)) ^^ n) s) = 0 \<and>
     use_count (init R (((\<lambda>s. deinit R (init R s)) ^^ n) s)) = 1 \<and>
     (0 < n \<longrightarrow> handle (((\<lambda>s. deinit R (init R s)) ^^ n) s) = 0)"
proof (induction n)
  case 0
  then show ?case using assms by (simp add: use_count_init)
next
  case (Suc n)
  let ?t = "init R (((\<lambda>s. deinit R (init R s)) ^^ n) s)"
  have "use_count ?t = 1" using Suc by blast
  then have "handle (deinit R ?t) = 0" "use_count (deinit R ?t) = 0"
    using deinit_last [of ?t R] by simp_all
  then show ?case by (simp add: use_count_init)
qed

lemma open_close_one_engine_witness:
  "use_count (((\<lambda>s. deinit sample_rcm (init sample_rcm s)) ^^ 3) (init_proc (\<lambda>a. None) 0)) = 0"
  using open_close_one_engine [where s = "init_proc (\<lambda>a. None) 0" and R = sample_rcm and n = 3]
  by (simp add: init_proc_def)

subsection \<open>Results on errors\<close>

text \<open>
  C35: when a message cannot be allocated, \<open>VIDDEC3_create\<close>, \<open>VIDDEC3_control\<close> and
  \<open>VIDDEC3_process\<close> return a variable that was never assigned, so that the caller cannot tell an
  error from a handle or from success; \<open>Engine_open\<close>, which initialises its result, returns
  \<open>NULL\<close> and leaves the error code as it was.
\<close>

theorem failed_allocation_results:
  assumes "\<And>h n w. rcm_alloc R h n w = ((e, None), w)" "cneg e"
  shows "VIDDEC3_create R engine name params s = Some (Indeterminate, s) \<and>
     VIDDEC3_control R codec cmd dp st s = Some (Indeterminate, s) \<and>
     VIDDEC3_process R codec ib ob ia oa s = Some (Indeterminate, s) \<and>
     Engine_open R name s = Some ((0, None), init R s)"
proof -
  have "exchange R f n fill t = Some (None, t)" for f n fill t
    using assms by (simp add: exchange_def out_free_def)
  then show ?thesis by (simp add: stub_defs)
qed

lemma failed_allocation_results_witness:
  "VIDDEC3_create (sample_rcm\<lparr>rcm_alloc := \<lambda>h n w. ((0xFFFFFFFF, None), w)\<rparr>) 1 [105] 0
     (init_proc (\<lambda>a. None) 0) = Some (Indeterminate, init_proc (\<lambda>a. None) 0)"
  using failed_allocation_results [of "sample_rcm\<lparr>rcm_alloc := \<lambda>h n w. ((0xFFFFFFFF, None), w)\<rparr>"
      "0xFFFFFFFF" 1 "[105]" 0 "init_proc (\<lambda>a. None) 0"]
  by simp

end
