(* ===== verification/Transport.thy ===== *)
theory Transport
  imports Server_Calls Client_Life
begin

text \<open>
  What lies between the stubs and the handlers of \<^verbatim>\<open>dce.c\<close>: the RCM client and server and the IPC
  library, which are not under \<^verbatim>\<open>src/\<close>. They are a world \<open>'v\<close> of their own. The locale \<open>carrier\<close> states
  what is relied on: a connection can be set up, a message that is executed runs the handler of its
  function on the memory that both sides see at the same addresses (the case the comment in
  \<open>dce_alloc\<close> describes), and an operation that reports an error has left the server alone; any
  allocation and any message may fail. The locale \<open>delivery\<close> adds that the messages of some
  functions get through. A handler that faults stops the server for good; of what follows nothing
  is known. The interpretation at the end is one transport of this kind, on which the witnesses run.
\<close>

definition handler :: "'w ce_api \<Rightarrow> fxn \<Rightarrow> 'w rpc" where
  "handler A f = (case f of
       F_Engine_open \<Rightarrow> rpc_Engine_open A
     | F_Engine_close \<Rightarrow> rpc_Engine_close A
     | F_VIDDEC3_create \<Rightarrow> rpc_VIDDEC3_create A
     | F_VIDDEC3_control \<Rightarrow> rpc_VIDDEC3_control A
     | F_VIDDEC3_process \<Rightarrow> rpc_VIDDEC3_process A
     | F_VIDDEC3_delete \<Rightarrow> rpc_VIDDEC3_delete A)"

definition args_of :: "fxn \<Rightarrow> ctype" where
  "args_of f = (case f of
       F_Engine_open \<Rightarrow> Engine_open_args
     | F_Engine_close \<Rightarrow> Engine_close_args
     | F_VIDDEC3_create \<Rightarrow> VIDDEC3_create_args
     | F_VIDDEC3_control \<Rightarrow> VIDDEC3_control_args
     | F_VIDDEC3_process \<Rightarrow> VIDDEC3_process_args
     | F_VIDDEC3_delete \<Rightarrow> VIDDEC3_delete_args)"

subsection \<open>The contract\<close>

text \<open>
  What is seen of the transport's world: the state of the server, unless it has stopped; which
  process has an open connection with which handle; and the index under which a function is known.
\<close>

record ('v, 'w) transport =
  server_at :: "'v \<Rightarrow> 'w server option"
  linked_by :: "u32 \<Rightarrow> u32 \<Rightarrow> 'v \<Rightarrow> bool"
  index_of :: "fxn \<Rightarrow> u32"

definition links_kept :: "('v, 'w) transport \<Rightarrow> u32 set \<Rightarrow> 'v \<Rightarrow> 'v \<Rightarrow> bool" where
  "links_kept T Q w w' \<longleftrightarrow> (\<forall>q\<in>Q. \<forall>h. linked_by T q h w \<longrightarrow> linked_by T q h w')"

definition unmoved :: "('v, 'w) transport \<Rightarrow> u32 set \<Rightarrow> 'v \<Rightarrow> 'v \<Rightarrow> bool" where
  "unmoved T Q w w' \<longleftrightarrow> server_at T w' = server_at T w \<and> links_kept T Q w w'"

text \<open>The outcomes of a message with the data \<open>d\<close> for \<open>f\<close>: it was executed, or it was lost.\<close>

fun executed :: "'w ce_api \<Rightarrow> ('v, 'w) transport \<Rightarrow> fxn \<Rightarrow> bytes \<Rightarrow> mem \<times> 'v \<Rightarrow>
    (u32 \<times> message option) \<times> mem \<times> 'v \<Rightarrow> bool" where
  "executed A T f d (mm, w) ((e, r), mm', w') \<longleftrightarrow> links_kept T UNIV w w' \<and>
     (case server_at T w of
        None \<Rightarrow> server_at T w' = None
      | Some sv \<Rightarrow> (case handler A f d (sv\<lparr>smem := mm\<rparr>) of
          None \<Rightarrow> server_at T w' = None
        | Some (_, d', sv') \<Rightarrow> \<not> cneg e \<and> map_option msg_data r = Some d' \<and> mm' = smem sv' \<and>
            server_at T w' = Some sv'))"

fun lost :: "('v, 'w) transport \<Rightarrow> mem \<times> 'v \<Rightarrow> (u32 \<times> message option) \<times> mem \<times> 'v \<Rightarrow> bool" where
  "lost T (mm, w) ((e, r), mm', w') \<longleftrightarrow> cneg e \<and> mm' = mm \<and> unmoved T UNIV w w'"

locale carrier =
  fixes A :: "'w ce_api" and T :: "('v, 'w) transport" and p :: u32 and R :: "'v rcm_api"
  assumes setup_unmoved: "unmoved T UNIV w (snd (ipc_setup R w))"
    and getpid_unmoved: "unmoved T UNIV w (snd (getpid R w))"
    and getpid_process: "fst (getpid R w) = p"
    and rcm_init_unmoved: "unmoved T UNIV w (rcm_init R w)"
    and create_unmoved: "unmoved T UNIV w (snd (rcm_create R nm k w))"
    and create_links: "server_at T w \<noteq> None \<Longrightarrow>
      rcm_create R ''dCE'' 1 (rcm_init R (snd (getpid R (snd (ipc_setup R w))))) = ((e, h), w') \<Longrightarrow>
      \<not> cneg e \<and> linked_by T p h w'"
    and symbol_unmoved: "unmoved T UNIV w (snd (rcm_symbol R h f w))"
    and symbol_index: "server_at T w \<noteq> None \<Longrightarrow> linked_by T p h w \<Longrightarrow>
      fst (rcm_symbol R h f w) = (e, i) \<Longrightarrow> \<not> cneg e \<and> i = index_of T f"
    and alloc_unmoved: "linked_by T p h w \<Longrightarrow> unmoved T UNIV w (snd (rcm_alloc R h n w))"
    and alloc_length: "linked_by T p h w \<Longrightarrow> rcm_alloc R h n w = ((e, r), w') \<Longrightarrow> \<not> cneg e \<Longrightarrow>
      \<exists>m. r = Some m \<and> length (msg_data m) = n"
    and exec_outcome: "linked_by T p h (snd x) \<Longrightarrow> fxnIdx m = index_of T f \<Longrightarrow>
      executed A T f (msg_data m) x (rcm_exec R h m x) \<or> lost T x (rcm_exec R h m x)"
    and free_unmoved: "linked_by T p h w \<Longrightarrow> unmoved T UNIV w (rcm_free R h m w)"
    and delete_unmoved: "linked_by T p h w \<Longrightarrow> unmoved T (- {p}) w (snd (rcm_delete R h w))"
    and rcm_exit_unmoved: "unmoved T (- {p}) w (rcm_exit R w)"
    and destroy_unmoved: "unmoved T (- {p}) w (snd (ipc_destroy R w))"

text \<open>The messages of the functions in \<open>F\<close> are not lost.\<close>

locale delivery = carrier A T p R for A :: "'w ce_api" and T :: "('v, 'w) transport" and p R +
  fixes F :: "fxn set"
  assumes alloc_succeeds: "f \<in> F \<Longrightarrow> linked_by T p h w \<Longrightarrow>
      \<not> cneg (fst (fst (rcm_alloc R h (csize (args_of f)) w)))"
    and exec_succeeds: "f \<in> F \<Longrightarrow> linked_by T p h (snd x) \<Longrightarrow> fxnIdx m = index_of T f \<Longrightarrow>
      executed A T f (msg_data m) x (rcm_exec R h m x)"

lemma unmoved_refl [simp]: "unmoved T Q w w" "links_kept T Q w w"
  by (simp_all add: unmoved_def links_kept_def)

lemma unmoved_trans: "unmoved T Q u v \<Longrightarrow> unmoved T Q v w \<Longrightarrow> unmoved T Q u w"
  by (simp add: unmoved_def links_kept_def)

lemma links_kept_trans: "links_kept T Q u v \<Longrightarrow> links_kept T Q v w \<Longrightarrow> links_kept T Q u w"
  by (simp add: links_kept_def)

lemma unmoved_others: "unmoved T UNIV u v \<Longrightarrow> unmoved T Q u v"
  by (simp add: unmoved_def links_kept_def)

lemma unmoved_links: "unmoved T Q u v \<Longrightarrow> links_kept T Q u v"
  by (simp add: unmoved_def)

lemma unmoved_server: "unmoved T Q u v \<Longrightarrow> server_at T v = server_at T u"
  by (simp add: unmoved_def)

lemma links_keptD: "links_kept T UNIV u v \<Longrightarrow> linked_by T q h u \<Longrightarrow> linked_by T q h v"
  by (simp add: links_kept_def)

subsection \<open>A client that is connected\<close>

definition attached :: "('v, 'w) transport \<Rightarrow> u32 \<Rightarrow> 'v proc \<Rightarrow> bool" where
  "attached T p s \<longleftrightarrow> idx s = index_of T \<and> pid s = p \<and> linked_by T p (handle s) (pw s)"

text \<open>After an exchange: \<open>sv\<close> is the server, its memory that of the client, the connection as before.\<close>

definition reached :: "('v, 'w) transport \<Rightarrow> 'v proc \<Rightarrow> 'w server \<Rightarrow> 'v proc \<Rightarrow> bool" where
  "reached T s sv s' \<longleftrightarrow> server_at T (pw s') = Some sv \<and> pmem s' = smem sv \<and> links_kept T UNIV (pw s) (pw s') \<and>
     handle s' = handle s \<and> pid s' = pid s \<and> idx s' = idx s \<and> use_count s' = use_count s"

lemma reached_attached: "reached T s sv s' \<Longrightarrow> attached T p s \<Longrightarrow> attached T p s'"
  by (simp add: reached_def attached_def links_kept_def)

text \<open>The server as it gets a message: its memory is what the client wrote.\<close>

abbreviation called_with :: "'w server \<Rightarrow> 'v proc \<Rightarrow> 'w server" where
  "called_with sv s \<equiv> sv\<lparr>smem := pmem s\<rparr>"

context carrier begin

text \<open>Setting up a connection succeeds; tearing it down leaves the server and other processes alone.\<close>

lemma setup_fxns_linked:
  assumes "server_at T (pw t) \<noteq> None" "linked_by T p (handle t) (pw t)"
  shows "\<exists>w. setup_fxns R fs t =
      (None, t\<lparr>idx := (\<lambda>f. if f \<in> set fs then index_of T f else idx t f), pw := w\<rparr>) \<and> unmoved T UNIV (pw t) w"
  using assms
proof (induction fs arbitrary: t)
  case (Cons f fs)
  obtain e i w where s: "rcm_symbol R (handle t) f (pw t) = ((e, i), w)" by (metis surj_pair)
  have i: "\<not> cneg e" "i = index_of T f" using symbol_index [OF Cons.prems, of f e i] s by simp_all
  have u: "unmoved T UNIV (pw t) w" using symbol_unmoved [of "pw t" "handle t" f] s by simp
  let ?t = "t\<lparr>idx := (idx t)(f := i), pw := w\<rparr>"
  obtain w' where "setup_fxns R fs ?t =
      (None, ?t\<lparr>idx := (\<lambda>f. if f \<in> set fs then index_of T f else idx ?t f), pw := w'\<rparr>)" "unmoved T UNIV w w'"
    using Cons.IH [of ?t] Cons.prems unmoved_server [OF u] links_keptD [OF unmoved_links [OF u]] by auto
  moreover have "(\<lambda>f'. if f' \<in> set fs then index_of T f' else idx ?t f') =
      (\<lambda>f'. if f' \<in> set (f # fs) then index_of T f' else idx t f')" using i by auto
  ultimately have "setup_fxns R (f # fs) t =
      (None, t\<lparr>idx := (\<lambda>f'. if f' \<in> set (f # fs) then index_of T f' else idx t f'), pw := w'\<rparr>)"
    "unmoved T UNIV (pw t) w'" using s i unmoved_trans [OF u] by (simp_all add: Let_def)
  then show ?case by blast
next
  case Nil
  then show ?case by (auto intro!: exI [of _ "pw t"])
qed

lemma init_attached:
  assumes "use_count s = 0" "server_at T (pw s) \<noteq> None"
  shows "attached T p (init R s)" "unmoved T UNIV (pw s) (pw (init R s))" "use_count (init R s) = 1"
    "pmem (init R s) = pmem s"
proof -
  obtain e0 w1 where 1: "ipc_setup R (pw s) = (e0, w1)" by fastforce
  obtain q w2 where 2: "getpid R w1 = (q, w2)" by fastforce
  obtain e h w3 where 3: "rcm_create R ''dCE'' 1 (rcm_init R w2) = ((e, h), w3)" by (metis surj_pair)
  have q: "q = p" using getpid_process [of w1] 2 by simp
  have "unmoved T UNIV (pw s) w1" "unmoved T UNIV w1 w2" "unmoved T UNIV w2 (rcm_init R w2)"
    "unmoved T UNIV (rcm_init R w2) w3"
    using setup_unmoved [of "pw s"] getpid_unmoved [of w1] rcm_init_unmoved [of w2]
      create_unmoved [of "rcm_init R w2" "''dCE''" 1] 1 2 3 by simp_all
  then have u: "unmoved T UNIV (pw s) w3" using unmoved_trans by metis
  have e: "\<not> cneg e" "linked_by T p h w3" using create_links [OF assms(2), of e h w3] 1 2 3 by simp_all
  let ?s = "s\<lparr>use_count := 1, pid := p, handle := h, pw := w3\<rparr>"
  obtain w where f: "setup_fxns R all_fxns ?s = (None, ?s\<lparr>idx := index_of T, pw := w\<rparr>)" "unmoved T UNIV w3 w"
    using setup_fxns_linked [of ?s all_fxns] assms(2) e(2) unmoved_server [OF u] by (auto simp: set_all_fxns)
  have i: "init R s = ?s\<lparr>idx := index_of T, pw := w\<rparr>"
    using assms(1) 1 2 3 e(1) f(1) q by (simp add: init_def dce_init_def Let_def)
  show "unmoved T UNIV (pw s) (pw (init R s))" using unmoved_trans [OF u f(2)] i by simp
  show "attached T p (init R s)" using i e(2) links_keptD [OF unmoved_links [OF f(2)]] by (simp add: attached_def)
  show "use_count (init R s) = 1" "pmem (init R s) = pmem s" by (simp_all add: i)
qed

lemma deinit_unmoved:
  assumes "attached T p s"
  shows "unmoved T (- {p}) (pw s) (pw (deinit R s))" "pmem (deinit R s) = pmem s"
proof -
  have l: "linked_by T p (handle s) (pw s)" using assms by (simp add: attached_def)
  obtain e w where d: "rcm_delete R (handle s) (pw s) = (e, w)" by fastforce
  have w: "unmoved T (- {p}) (pw s) w" using delete_unmoved [OF l] d by simp
  have down: "unmoved T (- {p}) v (snd (ipc_destroy R (rcm_exit R v)))" for v
    by (rule unmoved_trans [OF rcm_exit_unmoved destroy_unmoved])
  have del: "unmoved T (- {p}) (pw s) (snd (ipc_destroy R (rcm_exit R w)))"
    by (rule unmoved_trans [OF w down])
  have dd: "dce_deinit R t = (if handle t \<noteq> 0
      then (fst (rcm_delete R (handle t) (pw t)), t\<lparr>handle := 0, pw := rcm_exit R (snd (rcm_delete R (handle t) (pw t)))\<rparr>)
      else (0, t\<lparr>pw := rcm_exit R (pw t)\<rparr>))" for t
    by (simp add: dce_deinit_def case_prod_beta)
  have "pw (deinit R s) = (if cpos (use_count s - 1) then pw s
      else if handle s \<noteq> 0 then snd (ipc_destroy R (rcm_exit R w)) else snd (ipc_destroy R (rcm_exit R (pw s))))"
    using d by (simp add: deinit_def dd Let_def case_prod_beta)
  then consider "pw (deinit R s) = pw s" | "pw (deinit R s) = snd (ipc_destroy R (rcm_exit R (pw s)))"
    | "pw (deinit R s) = snd (ipc_destroy R (rcm_exit R w))" by presburger
  then show "unmoved T (- {p}) (pw s) (pw (deinit R s))"
    by cases (simp_all only: unmoved_refl down del)
  show "pmem (deinit R s) = pmem s"
    by (simp add: deinit_def dd Let_def case_prod_beta)
qed

subsection \<open>An exchange\<close>

text \<open>An exchange step by step: no message could be allocated, or one was filled and sent.\<close>

lemma exchange_parts:
  assumes "exchange R f n fill s = Some (r, s')" "attached T p s"
  obtains (unsent) "cneg (fst (fst (rcm_alloc R (handle s) n (pw s))))" "r = None"
      "server_at T (pw s') = server_at T (pw s)" "attached T p s'"
    | (sent) m w e r' mm w' where "linked_by T p (handle s) w" "server_at T w = server_at T (pw s)" "fxnIdx m = index_of T f"
      "rcm_exec R (handle s) m (pmem s, w) = ((e, r'), mm, w')" "r = (if cneg e then None else map_option msg_data r')"
      "\<exists>j. length j = n \<and> fill (pmem s) j = Some (msg_data m)" "server_at T (pw s') = server_at T w'" "attached T p s'"
proof -
  have l: "linked_by T p (handle s) (pw s)" and a: "idx s = index_of T" "pid s = p"
    using assms(2) by (simp_all add: attached_def)
  obtain e1 r1 w1 where 1: "rcm_alloc R (handle s) n (pw s) = ((e1, r1), w1)" by (metis surj_pair)
  have u1: "unmoved T UNIV (pw s) w1" using alloc_unmoved [OF l, of n] 1 by simp
  then have l1: "linked_by T p (handle s) w1" using l by (blast dest: unmoved_links links_keptD)
  have free: "server_at T (pw (out_free R m t)) = server_at T (pw t) \<and> attached T p (out_free R m t)"
    if "attached T p t" for m t
    using that free_unmoved [of "handle t" "pw t"] by (auto simp: out_free_def attached_def unmoved_def links_kept_def split: option.splits)
  show ?thesis
  proof (cases "cneg e1")
    case True
    then have "r = None" "s' = out_free R r1 (s\<lparr>pw := w1\<rparr>)" using assms(1) 1 by (simp_all add: exchange_def Let_def)
    with free [of "s\<lparr>pw := w1\<rparr>" r1] a l1 unmoved_server [OF u1] 1 True show ?thesis by (intro unsent) (auto simp: attached_def)
  next
    case False
    obtain m where m: "r1 = Some m" "length (msg_data m) = n" using alloc_length [OF l 1 False] by blast
    with assms(1) 1 False obtain d where d: "fill (pmem s) (msg_data m) = Some d"
      by (auto simp: exchange_def Let_def split: Option.bind_splits)
    let ?m = "m\<lparr>fxnIdx := idx s f, msg_data := d\<rparr>"
    obtain e2 r2 mm w2 where 2: "rcm_exec R (handle s) ?m (pmem s, w1) = ((e2, r2), mm, w2)" by (metis surj_pair)
    let ?t = "s\<lparr>pmem := mm, pw := w2\<rparr>"
    have "executed A T f d (pmem s, w1) ((e2, r2), mm, w2) \<or> lost T (pmem s, w1) ((e2, r2), mm, w2)"
      using exec_outcome [of "handle s" "(pmem s, w1)" ?m f] 2 l1 a by simp
    then have t: "attached T p ?t" using a l1 by (auto simp: attached_def unmoved_def links_kept_def)
    have s': "s' = out_free R r2 ?t \<and> r = (if cneg e2 then None else map_option msg_data r2)"
      using assms(1) 1 2 m d False by (cases r2) (auto simp: exchange_def Let_def split: if_splits)
    show ?thesis
      by (rule sent [OF l1 unmoved_server [OF u1] _ 2]) (use a m d s' free [OF t, of r2] in auto)
  qed
qed

text \<open>
  What is known when any message may be lost: if there was an answer the handler gave it; else the
  server is as before. A server that stopped stays stopped.
\<close>

lemma exchange_carried:
  assumes "exchange R f n fill s = Some (r, s')" "attached T p s"
  shows "attached T p s' \<and> (server_at T (pw s') = None \<or> (\<exists>sv sv'. server_at T (pw s) = Some sv \<and>
     server_at T (pw s') = Some sv' \<and>
     (case r of None \<Rightarrow> sv' = sv
      | Some d' \<Rightarrow> \<exists>j d v. length j = n \<and> fill (pmem s) j = Some d \<and>
          handler A f d (called_with sv s) = Some (v, d', sv'))))"
  using assms
proof (cases rule: exchange_parts)
  case unsent
  then show ?thesis by auto
next
  case (sent m w e r' mm w')
  show ?thesis
  proof (cases "lost T (pmem s, w) ((e, r'), mm, w')")
    case True
    with sent show ?thesis by (auto simp: unmoved_def)
  next
    case False
    with sent(3) exec_outcome [of "handle s" "(pmem s, w)" m f] sent(1,4)
    have "executed A T f (msg_data m) (pmem s, w) ((e, r'), mm, w')"
      by (simp del: executed.simps lost.simps)
    with sent show ?thesis by (auto split: option.splits)
  qed
qed

end

context delivery begin

text \<open>An exchange that gets through is a call of the handler.\<close>

lemma exchange_delivered:
  assumes "f \<in> F" "n = csize (args_of f)" "attached T p s" "server_at T (pw s) = Some sv"
    and call: "\<And>j. length j = n \<Longrightarrow> \<exists>d v d' sv'. fill (pmem s) j = Some d \<and>
      handler A f d (called_with sv s) = Some (v, d', sv') \<and> Q d' sv'"
  shows "\<exists>d' sv' s'. exchange R f n fill s = Some (Some d', s') \<and> Q d' sv' \<and> reached T s sv' s'"
proof -
  have l: "linked_by T p (handle s) (pw s)" and a: "idx s = index_of T" using assms(3) by (simp_all add: attached_def)
  obtain e1 r1 w1 where 1: "rcm_alloc R (handle s) n (pw s) = ((e1, r1), w1)" by (metis surj_pair)
  have e1: "\<not> cneg e1" using alloc_succeeds [OF assms(1) l] 1 assms(2) by simp
  have u1: "unmoved T UNIV (pw s) w1" using alloc_unmoved [OF l, of n] 1 by simp
  then have l1: "linked_by T p (handle s) w1" using l by (blast dest: unmoved_links links_keptD)
  obtain m where m: "r1 = Some m" "length (msg_data m) = n" using alloc_length [OF l 1 e1] by blast
  from call [OF m(2)] obtain d v d' sv' where d: "fill (pmem s) (msg_data m) = Some d"
    "handler A f d (called_with sv s) = Some (v, d', sv')" "Q d' sv'" by blast
  let ?m = "m\<lparr>fxnIdx := idx s f, msg_data := d\<rparr>"
  obtain e2 r2 mm w2 where 2: "rcm_exec R (handle s) ?m (pmem s, w1) = ((e2, r2), mm, w2)" by (metis surj_pair)
  have x: "executed A T f d (pmem s, w1) ((e2, r2), mm, w2)"
    using exec_succeeds [of f "handle s" "(pmem s, w1)" ?m] 2 l1 a assms(1) by simp
  with d(2) assms(4) unmoved_server [OF u1] obtain m' where m': "\<not> cneg e2" "r2 = Some m'" "msg_data m' = d'"
    "mm = smem sv'" "server_at T w2 = Some sv'" "links_kept T UNIV w1 w2" by auto
  have l2: "linked_by T p (handle s) w2" using links_keptD [OF m'(6) l1] .
  have "unmoved T UNIV w2 (rcm_free R (handle s) m' w2)" by (rule free_unmoved [OF l2])
  then have "reached T s sv' (s\<lparr>pmem := mm, pw := rcm_free R (handle s) m' w2\<rparr>)"
    using m'(4,5) links_kept_trans [OF links_kept_trans [OF unmoved_links [OF u1] m'(6)]]
    by (simp add: reached_def unmoved_def)
  moreover have "exchange R f n fill s = Some (Some d', s\<lparr>pmem := mm, pw := rcm_free R (handle s) m' w2\<rparr>)"
    using 1 e1 m(1) d(1) 2 m'(1-3) by (simp add: exchange_def Let_def out_free_def)
  ultimately show ?thesis using d(3) by blast
qed

lemma exchange_answered:
  assumes "exchange R f n fill s = Some (r, s')" "attached T p s" "f \<in> F" "n = csize (args_of f)"
  shows "r \<noteq> None \<or> server_at T (pw s') = None"
  using assms(1,2)
proof (cases rule: exchange_parts)
  case unsent
  with alloc_succeeds [OF assms(3), of "handle s" "pw s"] assms(2,4) show ?thesis by (simp add: attached_def)
next
  case (sent m w e r' mm w')
  with exec_succeeds [OF assms(3), of "handle s" "(pmem s, w)" m] show ?thesis by (auto split: option.splits)
qed

end

subsection \<open>One transport\<close>

text \<open>
  The server's state, until a handler faults; every connection is open under the handle 1, every
  message is delivered. The server registers its functions in the order of \<open>dce_init\<close>; the index is
  the position. A new message holds what was left in the heap.
\<close>

definition fxn_index :: "fxn \<Rightarrow> nat" where
  "fxn_index f = (case find_index (\<lambda>g. g = f) all_fxns of Some i \<Rightarrow> i | None \<Rightarrow> length all_fxns)"

definition link_exec :: "'w ce_api \<Rightarrow> message \<Rightarrow> mem \<times> 'w server option \<Rightarrow>
    (u32 \<times> message option) \<times> mem \<times> 'w server option" where
  "link_exec A m = (\<lambda>(mm, w). case w of
       None \<Rightarrow> ((- 1, Some m), mm, None)
     | Some sv \<Rightarrow>
         (if unat (fxnIdx m) < length all_fxns then
            (case handler A (all_fxns ! unat (fxnIdx m)) (msg_data m) (sv\<lparr>smem := mm\<rparr>) of
               Some (_, d, sv1) \<Rightarrow> ((0, Some (m\<lparr>msg_data := d\<rparr>)), smem sv1, Some sv1)
             | None \<Rightarrow> ((- 1, Some m), mm, None))
          else ((- 1, Some m), mm, w)))"

definition link :: "'w ce_api \<Rightarrow> u32 \<Rightarrow> (nat \<Rightarrow> u8) \<Rightarrow> 'w server option rcm_api" where
  "link A mypid junk = \<lparr>rcm_init = id, rcm_create = (\<lambda>n p w. ((0, 1), w)),
     rcm_symbol = (\<lambda>h f w. ((0, of_nat (fxn_index f)), w)), rcm_delete = (\<lambda>h w. (0, w)),
     rcm_exit = id,
     rcm_alloc = (\<lambda>h n w. ((0, Some \<lparr>msg_ptr = 1, fxnIdx = 0, msg_data = map junk [0..<n]\<rparr>), w)),
     rcm_exec = (\<lambda>h. link_exec A), rcm_free = (\<lambda>h m w. w),
     ipc_setup = (\<lambda>w. (0, w)), ipc_destroy = (\<lambda>w. (0, w)), getpid = (\<lambda>w. (mypid, w))\<rparr>"

definition link_view :: "('w server option, 'w) transport" where
  "link_view = \<lparr>server_at = id, linked_by = (\<lambda>q h w. h = 1), index_of = (\<lambda>f. of_nat (fxn_index f))\<rparr>"

lemma fxn_index_nth: "all_fxns ! fxn_index f = f" "fxn_index f < length all_fxns"
  by (cases f; simp add: fxn_index_def all_fxns_def)+

lemma unat_fxn_index: "unat (of_nat (fxn_index f) :: u32) = fxn_index f"
proof -
  have "fxn_index f < 6" using fxn_index_nth(2) [of f] by (simp add: all_fxns_def)
  then show ?thesis by (simp add: unsigned_of_nat take_bit_nat_eq_self)
qed

lemma link_executed:
  assumes "fxnIdx m = index_of link_view f"
  shows "executed A link_view f (msg_data m) x (link_exec A m x)"
proof (cases x)
  case (Pair mm w)
  have "unat (fxnIdx m) = fxn_index f" using assms by (simp add: link_view_def unat_fxn_index)
  with Pair show ?thesis
    by (auto simp: link_exec_def fxn_index_nth links_kept_def link_view_def cneg_def split: option.splits)
qed

interpretation link: delivery A link_view p "link A p junk" UNIV for A p junk
proof unfold_locales
  fix h x and m :: message and f
  assume "fxnIdx m = index_of link_view f"
  from link_executed [OF this, of A x] show "executed A link_view f (msg_data m) x (rcm_exec (link A p junk) h m x)"
    and "executed A link_view f (msg_data m) x (rcm_exec (link A p junk) h m x) \<or>
      lost link_view x (rcm_exec (link A p junk) h m x)"
    by (simp_all add: link_def)
qed (auto simp: link_def link_view_def unmoved_def links_kept_def cneg_def)

text \<open>Nothing gets through here: every message is lost.\<close>

definition cut_link :: "'w ce_api \<Rightarrow> u32 \<Rightarrow> (nat \<Rightarrow> u8) \<Rightarrow> 'w server option rcm_api" where
  "cut_link A mypid junk = (link A mypid junk)\<lparr>rcm_exec := \<lambda>h m (mm, w). ((- 1, Some m), mm, w)\<rparr>"

interpretation cut: carrier A link_view p "cut_link A p junk" for A p junk
proof unfold_locales
  fix h m x f
  show "executed A link_view f (msg_data m) x (rcm_exec (cut_link A p junk) h m x) \<or>
      lost link_view x (rcm_exec (cut_link A p junk) h m x)"
    by (cases x) (simp add: cut_link_def cneg_def)
qed (auto simp: cut_link_def link_def link_view_def unmoved_def links_kept_def cneg_def)

end
