(* ===== verification/Dce_System.thy ===== *)
theory Dce_System
  imports Transport
begin

text \<open>
  Client and server of \<^verbatim>\<open>dce.c\<close> together, over any transport that keeps the contract \<open>delivery\<close>: what a
  stub returns is what the handler put into the message, and the server is as the handler left it.
\<close>

subsection \<open>The stubs, for any handler\<close>

text \<open>
  In each lemma \<open>Q\<close> is what is known of the handler's answer and of the server after it, whatever the
  new message held before.
\<close>

context delivery begin

lemma open_over:
  assumes "F_Engine_open \<in> F" "use_count s = 0 \<or> use_count s = 1 \<and> attached T p s" "server_at T (pw s) = Some sv"
    and call: "\<And>j. length j = 32 \<Longrightarrow> \<exists>v d' sv'. rpc_Engine_open A (fill_Engine_open p name j) (called_with sv s) =
      Some (v, d', sv') \<and> Q (getf Engine_open_args [''out'', ''engine''] d')
        (getf Engine_open_args [''out'', ''ec''] d') sv'"
  shows "\<exists>e ec sv' s'. Engine_open R name s = Some ((e, Some ec), s') \<and> Q e ec sv' \<and> attached T p s' \<and>
     use_count s' = 1 \<and> server_at T (pw s') = Some sv' \<and> pmem s' = smem sv' \<and> links_kept T UNIV (pw s) (pw s')"
proof -
  let ?t = "init R s"
  have t: "attached T p ?t" "use_count ?t = 1" "unmoved T UNIV (pw s) (pw ?t)" "pmem ?t = pmem s"
    using assms(2,3) init_attached [of s] by (auto simp: init_active)
  have "\<exists>d v d' sv'. Some (fill_Engine_open (pid ?t) name j) = Some d \<and>
      handler A F_Engine_open d (called_with sv ?t) = Some (v, d', sv') \<and>
      Q (getf Engine_open_args [''out'', ''engine''] d') (getf Engine_open_args [''out'', ''ec''] d') sv'"
    if "length j = 32" for j
    using call [OF that] t(1,4) by (simp add: handler_def attached_def)
  then obtain d' sv' s' where x: "exchange R F_Engine_open 32 (\<lambda>m d. Some (fill_Engine_open (pid ?t) name d)) ?t = Some (Some d', s')"
    "Q (getf Engine_open_args [''out'', ''engine''] d') (getf Engine_open_args [''out'', ''ec''] d') sv'" "reached T ?t sv' s'"
    using exchange_delivered [OF assms(1) _ t(1), of 32 sv "\<lambda>m d. Some (fill_Engine_open (pid ?t) name d)" "\<lambda>d' sv'.
        Q (getf Engine_open_args [''out'', ''engine''] d') (getf Engine_open_args [''out'', ''ec''] d') sv'"]
      unmoved_server [OF t(3)] assms(3) by (auto simp: args_of_def)
  have "links_kept T UNIV (pw s) (pw s')"
    using x(3) links_kept_trans [OF unmoved_links [OF t(3)]] by (simp add: reached_def)
  with x t(2) reached_attached [OF x(3) t(1)] show ?thesis
    by (auto simp: Engine_open_def Let_def reached_def)
qed

lemma close_over:
  assumes "F_Engine_close \<in> F" "attached T p s" "server_at T (pw s) = Some sv"
    and call: "\<And>j. length j = 8 \<Longrightarrow> \<exists>v d' sv'. rpc_Engine_close A (fill_Engine_close p e j) (called_with sv s) =
      Some (v, d', sv') \<and> Q sv'"
  shows "\<exists>sv' s'. Engine_close R e s = Some s' \<and> Q sv' \<and> server_at T (pw s') = Some sv' \<and> pmem s' = smem sv' \<and>
     links_kept T (- {p}) (pw s) (pw s') \<and> (use_count s = 1 \<longrightarrow> use_count s' = 0)"
proof -
  have "\<exists>d v d' sv'. Some (fill_Engine_close (pid s) e j) = Some d \<and>
      handler A F_Engine_close d (called_with sv s) = Some (v, d', sv') \<and> Q sv'" if "length j = 8" for j
    using call [OF that] assms(2) by (simp add: handler_def attached_def)
  then obtain d' sv' t where x: "exchange R F_Engine_close 8 (\<lambda>m d. Some (fill_Engine_close (pid s) e d)) s = Some (Some d', t)"
    "Q sv'" "reached T s sv' t"
    using exchange_delivered [OF assms(1) _ assms(2,3), of 8 "\<lambda>m d. Some (fill_Engine_close (pid s) e d)" "\<lambda>_. Q"]
    by (auto simp: args_of_def)
  note d = deinit_unmoved [OF reached_attached [OF x(3) assms(2)]]
  have "links_kept T (- {p}) (pw s) (pw (deinit R t))"
    using x(3) d(1) by (simp add: reached_def unmoved_def links_kept_def)
  moreover have "use_count s = 1 \<longrightarrow> use_count (deinit R t) = 0"
    using deinit_last(2) [of t R] x(3) by (simp add: reached_def)
  ultimately show ?thesis using x d unmoved_server [OF d(1)] by (auto simp: Engine_close_def reached_def)
qed

lemma create_over:
  assumes "F_VIDDEC3_create \<in> F" "attached T p s" "server_at T (pw s) = Some sv" "virt2ducati (pmem s) params = Some dp"
    and call: "\<And>j. length j = 40 \<Longrightarrow> \<exists>v d' sv'. rpc_VIDDEC3_create A (fill_VIDDEC3_create p e name dp j) (called_with sv s) =
      Some (v, d', sv') \<and> Q (getf VIDDEC3_create_args [''out'', ''codec''] d') sv'"
  shows "\<exists>c sv' s'. VIDDEC3_create R e name params s = Some (Value c, s') \<and> Q c sv' \<and> reached T s sv' s'"
proof -
  let ?fill = "\<lambda>m d. do { p \<leftarrow> virt2ducati m params; Some (fill_VIDDEC3_create (pid s) e name p d) }"
  have "\<exists>d v d' sv'. ?fill (pmem s) j = Some d \<and> handler A F_VIDDEC3_create d (called_with sv s) = Some (v, d', sv') \<and>
      Q (getf VIDDEC3_create_args [''out'', ''codec''] d') sv'" if "length j = 40" for j
    using call [OF that] assms(2,4) by (simp add: handler_def attached_def)
  then obtain d' sv' s' where "exchange R F_VIDDEC3_create 40 ?fill s = Some (Some d', s')"
    "Q (getf VIDDEC3_create_args [''out'', ''codec''] d') sv'" "reached T s sv' s'"
    using exchange_delivered [OF assms(1) _ assms(2,3), of 40 ?fill "\<lambda>d'. Q (getf VIDDEC3_create_args [''out'', ''codec''] d')"]
    by (auto simp: args_of_def)
  then show ?thesis by (auto simp: VIDDEC3_create_def)
qed

lemma control_over:
  assumes "F_VIDDEC3_control \<in> F" "attached T p s" "server_at T (pw s) = Some sv"
    and "virt2ducati (pmem s) dyn = Some dp" "virt2ducati (pmem s) status = Some st"
    and call: "\<And>j. length j = 20 \<Longrightarrow> \<exists>v d' sv'. rpc_VIDDEC3_control A (fill_VIDDEC3_control p c i dp st j) (called_with sv s) =
      Some (v, d', sv') \<and> Q (getf VIDDEC3_control_args [''out'', ''ret''] d') sv'"
  shows "\<exists>r sv' s'. VIDDEC3_control R c i dyn status s = Some (Value r, s') \<and> Q r sv' \<and> reached T s sv' s'"
proof -
  let ?fill = "\<lambda>m d. do { dp \<leftarrow> virt2ducati m dyn; st \<leftarrow> virt2ducati m status;
     Some (fill_VIDDEC3_control (pid s) c i dp st d) }"
  have "\<exists>d v d' sv'. ?fill (pmem s) j = Some d \<and> handler A F_VIDDEC3_control d (called_with sv s) = Some (v, d', sv') \<and>
      Q (getf VIDDEC3_control_args [''out'', ''ret''] d') sv'" if "length j = 20" for j
    using call [OF that] assms(2,4,5) by (simp add: handler_def attached_def)
  then obtain d' sv' s' where "exchange R F_VIDDEC3_control 20 ?fill s = Some (Some d', s')"
    "Q (getf VIDDEC3_control_args [''out'', ''ret''] d') sv'" "reached T s sv' s'"
    using exchange_delivered [OF assms(1) _ assms(2,3), of 20 ?fill "\<lambda>d'. Q (getf VIDDEC3_control_args [''out'', ''ret''] d')"]
    by (auto simp: args_of_def)
  then show ?thesis by (auto simp: VIDDEC3_control_def)
qed

lemma process_over:
  assumes "F_VIDDEC3_process \<in> F" "attached T p s" "server_at T (pw s) = Some sv"
    and v: "virt2ducati (pmem s) q1 = Some ib" "virt2ducati (pmem s) q2 = Some ob"
      "virt2ducati (pmem s) q3 = Some ia" "virt2ducati (pmem s) q4 = Some oa"
    and call: "\<And>j. length j = 24 \<Longrightarrow> \<exists>v d' sv'. rpc_VIDDEC3_process A (fill_VIDDEC3_process p c ib ob ia oa j) (called_with sv s) =
      Some (v, d', sv') \<and> Q (getf VIDDEC3_process_args [''out'', ''ret''] d') sv'"
  shows "\<exists>r sv' s'. VIDDEC3_process R c q1 q2 q3 q4 s = Some (Value r, s') \<and> Q r sv' \<and> reached T s sv' s'"
proof -
  let ?fill = "\<lambda>m d. do { ib \<leftarrow> virt2ducati m q1; ob \<leftarrow> virt2ducati m q2; ia \<leftarrow> virt2ducati m q3; oa \<leftarrow> virt2ducati m q4;
     Some (fill_VIDDEC3_process (pid s) c ib ob ia oa d) }"
  have "\<exists>d v d' sv'. ?fill (pmem s) j = Some d \<and> handler A F_VIDDEC3_process d (called_with sv s) = Some (v, d', sv') \<and>
      Q (getf VIDDEC3_process_args [''out'', ''ret''] d') sv'" if "length j = 24" for j
    using call [OF that] assms(2) v by (simp add: handler_def attached_def)
  then obtain d' sv' s' where "exchange R F_VIDDEC3_process 24 ?fill s = Some (Some d', s')"
    "Q (getf VIDDEC3_process_args [''out'', ''ret''] d') sv'" "reached T s sv' s'"
    using exchange_delivered [OF assms(1) _ assms(2,3), of 24 ?fill "\<lambda>d'. Q (getf VIDDEC3_process_args [''out'', ''ret''] d')"]
    by (auto simp: args_of_def)
  then show ?thesis by (auto simp: VIDDEC3_process_def)
qed

lemma delete_over:
  assumes "F_VIDDEC3_delete \<in> F" "attached T p s" "server_at T (pw s) = Some sv"
    and call: "\<And>j. length j = 8 \<Longrightarrow> \<exists>v d' sv'. rpc_VIDDEC3_delete A (fill_VIDDEC3_delete p c j) (called_with sv s) =
      Some (v, d', sv') \<and> Q sv'"
  shows "\<exists>sv' s'. VIDDEC3_delete R c s = Some s' \<and> Q sv' \<and> reached T s sv' s'"
proof -
  have "\<exists>d v d' sv'. Some (fill_VIDDEC3_delete (pid s) c j) = Some d \<and>
      handler A F_VIDDEC3_delete d (called_with sv s) = Some (v, d', sv') \<and> Q sv'" if "length j = 8" for j
    using call [OF that] assms(2) by (simp add: handler_def attached_def)
  then obtain d' sv' s' where "exchange R F_VIDDEC3_delete 8 (\<lambda>m d. Some (fill_VIDDEC3_delete (pid s) c d)) s = Some (Some d', s')"
    "Q sv'" "reached T s sv' s'"
    using exchange_delivered [OF assms(1) _ assms(2,3), of 8 "\<lambda>m d. Some (fill_VIDDEC3_delete (pid s) c d)" "\<lambda>_. Q"]
    by (auto simp: args_of_def)
  then show ?thesis by (auto simp: VIDDEC3_delete_def)
qed

end

subsection \<open>What the stubs return\<close>

context delivery begin

text \<open>
  An application that opens an engine gets exactly the handle and the error code that the codec engine
  on the other processor returned for that name, and the server has recorded a non-null handle for
  the application's process.
\<close>

lemma remote_open_result:
  assumes "F_Engine_open \<in> F" "use_count s = 0" "server_at T (pw s) = Some sv" "cstr_ok name" "length name < 24"
    and "ce_open A name (pmem s, set_env A p (hw (power sv))) = ((engine, ec), m, w)"
  shows "\<exists>s' sv'. Engine_open R name s = Some ((engine, Some ec), s') \<and> server_at T (pw s') = Some sv' \<and>
     clients sv' = (if engine \<noteq> 0 then dce_register_engine (clients sv) p engine else clients sv) \<and>
     pmem s' = m \<and> hw (power sv') = w \<and> use_count s' = 1 \<and> attached T p s'"
proof -
  let ?Q = "\<lambda>e c sv'. e = engine \<and> c = ec \<and> world sv' = (m, w) \<and>
    clients sv' = (if engine \<noteq> 0 then dce_register_engine (clients sv) p engine else clients sv)"
  have o: "ce_open A name (smem (called_with sv s), set_env A p (hw (power (called_with sv s)))) = ((engine, ec), m, w)"
    using assms(6) by simp
  have "\<exists>v d' sv'. rpc_Engine_open A (fill_Engine_open p name j) (called_with sv s) = Some (v, d', sv') \<and>
      ?Q (getf Engine_open_args [''out'', ''engine''] d') (getf Engine_open_args [''out'', ''ec''] d') sv'"
    if "length j = 32" for j
    using rpc_Engine_open_result [OF _ assms(4,5) o, of j] that by auto
  from open_over [OF assms(1) _ assms(3), of name ?Q, OF _ this] assms(2) show ?thesis
    by (fastforce simp: world_def)
qed

lemma remote_create_result:
  assumes "F_VIDDEC3_create \<in> F" "attached T p s" "server_at T (pw s) = Some sv" "cstr_ok name" "length name < 24"
    and "virt2ducati (pmem s) params = Some dp"
    and "ce_create A e name dp (pmem s, set_env A p (hw (power sv))) = (codec, m, w)"
    and "cache_keeps A" "has_header m dp"
  shows "\<exists>s' sv'. VIDDEC3_create R e name params s = Some (Value codec, s') \<and> reached T s sv' s' \<and> smem sv' = m \<and>
     clients sv' = (if codec \<noteq> 0 then dce_register_codec (clients sv) p codec else clients sv)"
proof -
  let ?Q = "\<lambda>c sv'. c = codec \<and> smem sv' = m \<and>
    clients sv' = (if codec \<noteq> 0 then dce_register_codec (clients sv) p codec else clients sv)"
  have c: "ce_create A e name dp (smem (called_with sv s), set_env A p (hw (power (called_with sv s)))) = (codec, m, w)"
    using assms(7) by simp
  have k: "\<And>p n m w. fst (cache_wbinv A p n (m, w)) = m" "load32 m (dp - 8) \<noteq> None"
    using assms(8,9) by (simp_all add: cache_keeps_def has_header_def)
  have "\<exists>v d' sv'. rpc_VIDDEC3_create A (fill_VIDDEC3_create p e name dp j) (called_with sv s) = Some (v, d', sv') \<and>
      ?Q (getf VIDDEC3_create_args [''out'', ''codec''] d') sv'" if "length j = 40" for j
    using rpc_VIDDEC3_create_result [OF _ assms(4,5) k c, of j] that by auto
  from create_over [OF assms(1-3,6), of e name ?Q, OF this] show ?thesis by blast
qed

lemma remote_control_result:
  assumes "F_VIDDEC3_control \<in> F" "attached T p s" "server_at T (pw s) = Some sv"
    and "virt2ducati (pmem s) dyn = Some dp" "virt2ducati (pmem s) status = Some st"
    and "ce_control A c i dp st (pmem s, set_env A p (hw (power sv))) = (r, m, w)"
    and "cache_keeps A" "has_header m dp" "has_header m st"
  shows "\<exists>s' sv'. VIDDEC3_control R c i dyn status s = Some (Value r, s') \<and> reached T s sv' s' \<and> smem sv' = m \<and>
     clients sv' = clients sv"
proof -
  let ?Q = "\<lambda>r' sv'. r' = r \<and> smem sv' = m \<and> clients sv' = clients sv"
  have c: "ce_control A c i dp st (smem (called_with sv s), set_env A p (hw (power (called_with sv s)))) = (r, m, w)"
    using assms(6) by simp
  have "\<exists>v d' sv'. rpc_VIDDEC3_control A (fill_VIDDEC3_control p c i dp st j) (called_with sv s) = Some (v, d', sv') \<and>
      ?Q (getf VIDDEC3_control_args [''out'', ''ret''] d') sv'" if "length j = 20" for j
    using rpc_VIDDEC3_control_result [OF _ assms(7-9) c, of j] that by auto
  from control_over [OF assms(1-5), of c i ?Q, OF this] show ?thesis by blast
qed

lemma remote_process_result:
  assumes "F_VIDDEC3_process \<in> F" "attached T p s" "server_at T (pw s) = Some sv"
    and "virt2ducati (pmem s) q1 = Some ib" "virt2ducati (pmem s) q2 = Some ob"
      "virt2ducati (pmem s) q3 = Some ia" "virt2ducati (pmem s) q4 = Some oa"
    and "ce_process A c ib ob ia oa (world (processing A p (called_with sv s))) = (r, m, w)"
    and "cache_keeps A" "list_all (has_header m) [ib, ob, ia, oa]"
  shows "\<exists>s' sv'. VIDDEC3_process R c q1 q2 q3 q4 s = Some (Value r, s') \<and> reached T s sv' s' \<and> smem sv' = m \<and>
     clients sv' = clients sv"
proof -
  let ?Q = "\<lambda>r' sv'. r' = r \<and> smem sv' = m \<and> clients sv' = clients sv"
  have "\<exists>v d' sv'. rpc_VIDDEC3_process A (fill_VIDDEC3_process p c ib ob ia oa j) (called_with sv s) = Some (v, d', sv') \<and>
      ?Q (getf VIDDEC3_process_args [''out'', ''ret''] d') sv'" if "length j = 24" for j
    using rpc_VIDDEC3_process_result [OF _ assms(9,8), of j] assms(10) that by auto
  from process_over [OF assms(1-7), of c ?Q, OF this] show ?thesis by blast
qed

text \<open>Deletion and closing succeed whatever the codec engine does.\<close>

lemma remote_delete_result:
  assumes "F_VIDDEC3_delete \<in> F" "attached T p s" "server_at T (pw s) = Some sv"
  shows "\<exists>s' sv'. VIDDEC3_delete R c s = Some s' \<and> reached T s sv' s' \<and>
     clients sv' = dce_unregister_codec (clients sv) p c"
proof -
  let ?Q = "\<lambda>sv'. clients sv' = dce_unregister_codec (clients sv) p c"
  have "\<exists>v d' sv'. rpc_VIDDEC3_delete A (fill_VIDDEC3_delete p c j) (called_with sv s) = Some (v, d', sv') \<and> ?Q sv'"
    if "length j = 8" for j
    using rpc_VIDDEC3_delete_fill [of j A p c "called_with sv s"] that by (simp add: delete_step_def)
  from delete_over [OF assms, of c ?Q, OF this] show ?thesis by blast
qed

lemma remote_close_result:
  assumes "F_Engine_close \<in> F" "attached T p s" "server_at T (pw s) = Some sv"
  shows "\<exists>s' sv'. Engine_close R e s = Some s' \<and> server_at T (pw s') = Some sv' \<and>
     clients sv' = dce_unregister_engine (clients sv) p e \<and>
     pmem s' = fst (ce_close A e (pmem s, set_env A p (hw (power sv))))"
proof -
  let ?Q = "\<lambda>sv'. clients sv' = dce_unregister_engine (clients sv) p e \<and>
    smem sv' = fst (ce_close A e (pmem s, set_env A p (hw (power sv))))"
  have "\<exists>v d' sv'. rpc_Engine_close A (fill_Engine_close p e j) (called_with sv s) = Some (v, d', sv') \<and> ?Q sv'"
    if "length j = 8" for j
    using rpc_Engine_close_fill [of j A p e "called_with sv s"] that
    by (simp add: close_step_def run_def task_set_env_def world_def with_world_def)
  from close_over [OF assms, of e ?Q, OF this] show ?thesis by auto
qed

end

subsection \<open>A session that ends badly\<close>

text \<open>
  C15: over a transport that delivers every message, an application opens an engine and creates a codec
  on a fresh server, and dies. At that point the server has recorded exactly this engine and this
  codec for its process, and the cleanup callback leaves the server with nothing recorded for anyone.
\<close>

theorem crashed_session_is_cleaned_up:
  assumes "delivery A T p R UNIV" "use_count s = 0" "server_at T (pw s) = Some sv" "clients sv = init_clients" "p \<noteq> 0"
    and "cstr_ok name" "length name < 24" "cstr_ok name2" "length name2 < 24"
    and "ce_open A name (pmem s, set_env A p (hw (power sv))) = ((engine, ec), m, w)" "engine \<noteq> 0"
    and "virt2ducati m params = Some dp"
    and "ce_create A engine name2 dp (m, set_env A p w) = (codec, m2, w2)" "codec \<noteq> 0"
    and "cache_keeps A" "has_header m2 dp"
  shows "\<exists>s1 s2 sv2 sv3. Engine_open R name s = Some ((engine, Some ec), s1) \<and>
     VIDDEC3_create R engine name2 params s1 = Some (Value codec, s2) \<and>
     server_at T (pw s2) = Some sv2 \<and> registry_of (clients sv2) = [p \<mapsto> ({#engine#}, {#codec#})] \<and>
     dce_cleanup_cb A True p sv2 = Some sv3 \<and> registry_of (clients sv3) = Map.empty"
proof -
  obtain s1 sv1 where o: "Engine_open R name s = Some ((engine, Some ec), s1)"
    and s1: "server_at T (pw s1) = Some sv1" "clients sv1 = dce_register_engine init_clients p engine" "pmem s1 = m"
      "hw (power sv1) = w" "attached T p s1"
    using delivery.remote_open_result [OF assms(1) _ assms(2,3,6,7,10)] assms(4,11) by auto
  obtain s2 sv2 where c: "VIDDEC3_create R engine name2 params s1 = Some (Value codec, s2)"
    and s2: "server_at T (pw s2) = Some sv2" "clients sv2 = dce_register_codec (clients sv1) p codec"
    using delivery.remote_create_result [OF assms(1) _ s1(5,1) assms(8,9), of params dp engine codec m2 w2]
      assms(12-16) s1(3,4) by (auto simp: reached_def)
  let ?ops = "[Register_Engine p engine, Register_Codec p codec]"
  have "clients sv2 = fold table_step ?ops init_clients" using s1 s2 by simp
  moreover have "history_ok ?ops (registry_of init_clients)"
    using assms(5,11,14) by (simp add: spec_register_engine_def)
  ultimately have inv: "table_inv (clients sv2)" and reg: "registry_of (clients sv2) = [p \<mapsto> ({#engine#}, {#codec#})]"
    using history_refines_from [OF init_clients_inv, of ?ops]
    by (simp_all add: spec_register_engine_def spec_register_codec_def)
  obtain i where i: "get_client (clients sv2) p = Some i"
    using registry_None_iff [OF assms(5), of "clients sv2"] reg by fastforce
  have "engines_of (clients sv2 ! i) = {#engine#}" "codecs_of (clients sv2 ! i) = {#codec#}"
    using registry_at [OF i assms(5)] reg by simp_all
  then have "\<exists>sv. dce_cleanup_cb A True p sv2 = Some sv \<and> registry_of (clients sv) = Map.empty"
    using cleanup_result [OF inv i assms(5), of A] reg by auto
  with o c s2(1) reg show ?thesis by blast
qed

lemma crashed_session_is_cleaned_up_witness:
  "\<exists>s1 s2. Engine_open (link idle_api 9 (\<lambda>n. 255)) sample_name
       (init_proc (\<lambda>a. Some 1) (Some (one_client\<lparr>clients := init_clients\<rparr>))) = Some ((1, Some 0), s1) \<and>
     VIDDEC3_create (link idle_api 9 (\<lambda>n. 255)) 1 sample_name 0x2000 s1 = Some (Value 1, s2)"
proof -
  have "virt2ducati (\<lambda>a. Some 1) 0x2000 = Some (word_of 1 1 1 1)"
    by (simp add: virt2ducati_def load32_def)
  moreover have "cache_keeps idle_api" by (simp add: cache_keeps_def idle_api_def)
  ultimately show ?thesis
    using crashed_session_is_cleaned_up [OF link.delivery_axioms [where A = idle_api and p = 9 and junk = "\<lambda>n. 255"], where
        name = sample_name and s = "init_proc (\<lambda>a. Some 1) (Some (one_client\<lparr>clients := init_clients\<rparr>))" and
        sv = "one_client\<lparr>clients := init_clients\<rparr>" and
        engine = 1 and ec = 0 and m = "\<lambda>a. Some 1" and w = "()" and params = "0x2000" and codec = 1
        and ?name2.0 = sample_name and ?m2.0 = "\<lambda>a. Some 1" and ?w2.0 = "()" and dp = "word_of 1 1 1 1"]
    by (auto simp: sample_name_def cstr_ok_def idle_api_def init_proc_def has_header_def load32_def link_view_def)
qed

end
