(* ===== verification/Remote_Session.thy ===== *)
theory Remote_Session
  imports Dce_System
begin

text \<open>
  What the remote interface of \<^verbatim>\<open>dce.c\<close> promises an application: that using it is like calling the
  codec engine itself. The specification performs the same calls directly, in the environment of
  the process, with the pointers translated and with the accelerator held while a codec processes; it
  is undefined where a block has no header to translate or to clean by. The lemmas show that stubs
  and handlers implement it over any transport that delivers, answers, memory and engine alike.
\<close>

subsection \<open>Memory without gaps\<close>

definition full :: "mem \<Rightarrow> bool" where
  "full m \<longleftrightarrow> dom m = UNIV"

lemma full_mapped: "full m \<Longrightarrow> mapped m a n"
  by (auto simp: full_def mapped_iff domIff)

lemma full_load32: "full m \<Longrightarrow> load32 m a \<noteq> None"
proof -
  assume "full m"
  then have "m = (\<lambda>x. Some (the (m x)))" by (auto simp: full_def fun_eq_iff domIff set_eq_iff)
  then obtain f where "m = (\<lambda>x. Some (f x))" by (rule that)
  then show ?thesis by (simp add: load32_def)
qed

lemma full_header: "full m \<Longrightarrow> has_header m p"
  by (simp add: has_header_def full_load32)

lemma full_virt2ducati: "full m \<Longrightarrow> \<exists>d. virt2ducati m p = Some d"
  using full_load32 by (auto simp: virt2ducati_def)

subsection \<open>The calls, made remotely and directly\<close>

text \<open>The answers of the stubs; an answer that is not determined counts as none.\<close>

fun answer_of :: "ret \<times> 's \<Rightarrow> (u32 list \<times> 's) option" where
  "answer_of (Value v, s) = Some ([v], s)"
| "answer_of (Indeterminate, s) = None"

fun stub_call :: "'w rcm_api \<Rightarrow> api_call \<Rightarrow> 'w proc \<Rightarrow> (u32 list \<times> 'w proc) option" where
  "stub_call R (Call_open name) s = do { ((e, ec), s) \<leftarrow> Engine_open R name s; ec \<leftarrow> ec; Some ([e, ec], s) }"
| "stub_call R (Call_close e) s = map_option (Pair []) (Engine_close R e s)"
| "stub_call R (Call_create e name p) s = Option.bind (VIDDEC3_create R e name p s) answer_of"
| "stub_call R (Call_control c i dp st) s = Option.bind (VIDDEC3_control R c i dp st s) answer_of"
| "stub_call R (Call_process c ib ob ia oa) s = Option.bind (VIDDEC3_process R c ib ob ia oa s) answer_of"
| "stub_call R (Call_delete c) s = map_option (Pair []) (VIDDEC3_delete R c s)"

text \<open>
  The specification: the memory and the world of the engine with the use count of the accelerator. A
  pointer is translated by the header before its block, and the header is read again after the call,
  for the length of what is written back.
\<close>

definition on_engine :: "('a \<Rightarrow> u32 list) \<Rightarrow> (mem \<times> 'w \<Rightarrow> 'a \<times> mem \<times> 'w) \<Rightarrow> mem \<times> 'w power \<Rightarrow> u32 list \<times> mem \<times> 'w power" where
  "on_engine g f = (\<lambda>(m, k). case f (m, hw k) of (x, m', w') \<Rightarrow> (g x, m', k\<lparr>hw := w'\<rparr>))"

definition in_env :: "'w ce_api \<Rightarrow> u32 \<Rightarrow> mem \<times> 'w power \<Rightarrow> mem \<times> 'w power" where
  "in_env A p = (\<lambda>(m, k). (m, k\<lparr>hw := set_env A p (hw k)\<rparr>))"

definition written_back :: "u32 list \<Rightarrow> u32 list \<times> mem \<times> 'k \<Rightarrow> (u32 list \<times> mem \<times> 'k) option" where
  "written_back qs x = (if list_all (has_header (fst (snd x))) qs then Some x else None)"

fun engine_call :: "'w ce_api \<Rightarrow> u32 \<Rightarrow> api_call \<Rightarrow> mem \<times> 'w power \<Rightarrow> (u32 list \<times> mem \<times> 'w power) option" where
  "engine_call A p (Call_open name) x = Some (on_engine (\<lambda>(e, ec). [e, ec]) (ce_open A name) (in_env A p x))"
| "engine_call A p (Call_close e) x = Some (on_engine (\<lambda>_. []) (\<lambda>w. ((), ce_close A e w)) (in_env A p x))"
| "engine_call A p (Call_create e name q) x = do {
     q \<leftarrow> virt2ducati (fst x) q;
     written_back [q] (on_engine (\<lambda>c. [c]) (ce_create A e name q) (in_env A p x)) }"
| "engine_call A p (Call_control c i dp st) x = do {
     dp \<leftarrow> virt2ducati (fst x) dp; st \<leftarrow> virt2ducati (fst x) st;
     written_back [dp, st] (on_engine (\<lambda>r. [r]) (ce_control A c i dp st) (in_env A p x)) }"
| "engine_call A p (Call_process c ib ob ia oa) x = do {
     ib \<leftarrow> virt2ducati (fst x) ib; ob \<leftarrow> virt2ducati (fst x) ob;
     ia \<leftarrow> virt2ducati (fst x) ia; oa \<leftarrow> virt2ducati (fst x) oa;
     let (m, k) = in_env A p x;
     let (a, m, k) = on_engine (\<lambda>r. [r]) (ce_process A c ib ob ia oa) (m, ivahd_acquire (bus A) k);
     written_back [ib, ob, ia, oa] (a, m, ivahd_release (bus A) k) }"
| "engine_call A p (Call_delete c) x = Some (on_engine (\<lambda>_. []) (\<lambda>w. ((), ce_delete A c w)) (in_env A p x))"

text \<open>Several calls, with their answers.\<close>

fun call_all :: "('c \<Rightarrow> 's \<Rightarrow> ('a \<times> 's) option) \<Rightarrow> 'c list \<Rightarrow> 's \<Rightarrow> ('a list \<times> 's) option" where
  "call_all f [] s = Some ([], s)"
| "call_all f (c # cs) s = do { (a, s) \<leftarrow> f c s; (as, s) \<leftarrow> call_all f cs s; Some (a # as, s) }"

subsection \<open>What is relied on\<close>

text \<open>
  Writing back and invalidating the cache has no effect that can be seen. (That the codec engine does
  not unmap memory is relied on only where messages are served concurrently.)
\<close>

definition cache_unseen :: "'w ce_api \<Rightarrow> bool" where
  "cache_unseen A \<longleftrightarrow> (\<forall>q n x. cache_wbinv A q n x = x)"

definition maps_stay :: "'w ce_api \<Rightarrow> bool" where
  "maps_stay A \<longleftrightarrow> (\<forall>m w. full m \<longrightarrow>
     (\<forall>n. full (fst (snd (ce_open A n (m, w))))) \<and> (\<forall>e. full (fst (ce_close A e (m, w)))) \<and>
     (\<forall>e n q. full (fst (snd (ce_create A e n q (m, w))))) \<and>
     (\<forall>c i q r. full (fst (snd (ce_control A c i q r (m, w))))) \<and>
     (\<forall>c q1 q2 q3 q4. full (fst (snd (ce_process A c q1 q2 q3 q4 (m, w))))) \<and>
     (\<forall>c. full (fst (ce_delete A c (m, w)))))"

lemma maps_stayD:
  assumes "maps_stay A" "full m"
  shows "ce_open A n (m, w) = (x, m', w') \<Longrightarrow> full m'" "ce_close A e (m, w) = (m', w') \<Longrightarrow> full m'"
    "ce_create A e n q (m, w) = (h, m', w') \<Longrightarrow> full m'" "ce_control A c i q r (m, w) = (h, m', w') \<Longrightarrow> full m'"
    "ce_process A c q q2 q3 q4 (m, w) = (h, m', w') \<Longrightarrow> full m'" "ce_delete A c (m, w) = (m', w') \<Longrightarrow> full m'"
  using assms unfolding maps_stay_def by (metis fst_conv snd_conv)+

lemma clean_header: "cache_unseen A \<Longrightarrow> has_header (smem s) p \<Longrightarrow> clean A p s = Some s"
  by (auto simp: has_header_def clean_def dce_clean_def P2H_eq cache_unseen_def run_def with_world_def world_def)

lemma clean_unseen: "cache_unseen A \<Longrightarrow> full (smem s) \<Longrightarrow> clean A p s = Some s"
  by (simp add: clean_header full_header)

lemma clean_all_unseen: "cache_unseen A \<Longrightarrow> full (smem s) \<Longrightarrow> clean_all A ps s = Some s"
  by (induction ps) (simp_all add: clean_unseen)

subsection \<open>The handlers, exactly\<close>

lemma rpc_open_exact:
  assumes "32 \<le> length d" "cstr_ok name" "length name < 24"
    and "ce_open A name (smem s, set_env A p (hw (power s))) = ((e, ec), m, w)"
  shows "\<exists>d' s'. rpc_Engine_open A (fill_Engine_open p name d) s = Some (0, d', s') \<and>
     getf Engine_open_args [''out'', ''engine''] d' = e \<and> getf Engine_open_args [''out'', ''ec''] d' = ec \<and>
     smem s' = m \<and> power s' = (power s)\<lparr>hw := w\<rparr>"
proof -
  have "call (ce_open A name) (task_set_env A p s) = ((e, ec), with_world (m, w) (task_set_env A p s))"
    using assms(4) by (simp add: call_def world_def)
  then show ?thesis using assms(1-3)
    by (simp add: rpc_Engine_open_def read_Engine_open read_name_Engine_open getf_putf_same getf_putf_other
        with_world_def)
qed

lemma rpc_create_exact:
  assumes "40 \<le> length d" "cstr_ok name" "length name < 24" "cache_unseen A"
    and "ce_create A e name q (smem s, set_env A p (hw (power s))) = (codec, m, w)" "has_header m q"
  shows "\<exists>d' s'. rpc_VIDDEC3_create A (fill_VIDDEC3_create p e name q d) s = Some (0, d', s') \<and>
     getf VIDDEC3_create_args [''out'', ''codec''] d' = codec \<and> smem s' = m \<and> power s' = (power s)\<lparr>hw := w\<rparr>"
proof -
  let ?s = "with_world (m, w) (task_set_env A p s)"
  have "call (ce_create A e name q) (task_set_env A p s) = (codec, ?s)"
    using assms(5) by (simp add: call_def world_def)
  moreover have "clean A q ?s = Some ?s" using assms(4,6) by (simp add: clean_header)
  ultimately show ?thesis using assms(1-3)
    by (simp add: rpc_VIDDEC3_create_def read_VIDDEC3_create read_name_VIDDEC3_create getf_putf_same with_world_def)
qed

lemma rpc_control_exact:
  assumes "20 \<le> length d" "cache_unseen A"
    and "ce_control A c i dp st (smem s, set_env A p (hw (power s))) = (r, m, w)" "has_header m dp" "has_header m st"
  shows "\<exists>d' s'. rpc_VIDDEC3_control A (fill_VIDDEC3_control p c i dp st d) s = Some (0, d', s') \<and>
     getf VIDDEC3_control_args [''out'', ''ret''] d' = r \<and> smem s' = m \<and> power s' = (power s)\<lparr>hw := w\<rparr>"
proof -
  let ?s = "with_world (m, w) (task_set_env A p s)"
  have "call (ce_control A c i dp st) (task_set_env A p s) = (r, ?s)"
    using assms(3) by (simp add: call_def world_def)
  moreover have "clean A dp ?s = Some ?s" "clean A st ?s = Some ?s" using assms(2,4,5) by (simp_all add: clean_header)
  ultimately show ?thesis using assms(1)
    by (simp add: rpc_VIDDEC3_control_def read_VIDDEC3_control getf_putf_same with_world_def)
qed

lemma rpc_process_exact:
  assumes "24 \<le> length d" "cache_unseen A"
    and "ce_process A c ib ob ia oa (smem s, hw (ivahd_acquire (bus A) ((power s)\<lparr>hw := set_env A p (hw (power s))\<rparr>))) =
       (r, m, w)" "list_all (has_header m) [ib, ob, ia, oa]"
  shows "\<exists>d' s'. rpc_VIDDEC3_process A (fill_VIDDEC3_process p c ib ob ia oa d) s = Some (0, d', s') \<and>
     getf VIDDEC3_process_args [''out'', ''ret''] d' = r \<and> smem s' = m \<and>
     power s' = ivahd_release (bus A)
       ((ivahd_acquire (bus A) ((power s)\<lparr>hw := set_env A p (hw (power s))\<rparr>))\<lparr>hw := w\<rparr>)"
proof -
  let ?s1 = "with_world (m, w) (processing A p s)"
  let ?s2 = "?s1\<lparr>power := ivahd_release (bus A) (power ?s1)\<rparr>"
  have call: "call (ce_process A c ib ob ia oa) (processing A p s) = (r, ?s1)"
    using assms(3) by (simp add: call_def world_def processing_def)
  have "clean A q ?s2 = Some ?s2" if "q \<in> {ib, ob, ia, oa}" for q using assms(2,4) that by (auto simp: clean_header)
  with call assms(1) show ?thesis unfolding processing_def
    by (simp add: rpc_VIDDEC3_process_def read_VIDDEC3_process getf_putf_same Let_def with_world_def)
qed

subsection \<open>One call\<close>

lemma delete_step_parts:
  assumes "ce_delete A c (smem s, set_env A p (hw (power s))) = (m, w)"
  shows "smem (delete_step A p c s) = m" "power (delete_step A p c s) = (power s)\<lparr>hw := w\<rparr>"
  using assms by (simp_all add: delete_step_def run_def task_set_env_def world_def with_world_def)

lemma close_step_parts:
  assumes "ce_close A e (smem s, set_env A p (hw (power s))) = (m, w)"
  shows "smem (close_step A p e s) = m" "power (close_step A p e s) = (power s)\<lparr>hw := w\<rparr>"
  using assms by (simp_all add: close_step_def run_def task_set_env_def world_def with_world_def)

text \<open>The calls within a session; names fit their field of the message.\<close>

fun inner_call :: "api_call \<Rightarrow> bool" where
  "inner_call (Call_open name) = False"
| "inner_call (Call_close e) = False"
| "inner_call (Call_create e name q) = (cstr_ok name \<and> length name < 24)"
| "inner_call c = True"

text \<open>A stub that gives the answer \<open>a\<close>, the memory \<open>m\<close> and the engine \<open>k\<close>.\<close>

definition answered :: "('v, 'w) transport \<Rightarrow> 'v rcm_api \<Rightarrow> api_call \<Rightarrow> 'v proc \<Rightarrow> u32 list \<Rightarrow> mem \<Rightarrow> 'w power \<Rightarrow> bool" where
  "answered T R c s a m k \<longleftrightarrow>
     (\<exists>s' sv'. stub_call R c s = Some (a, s') \<and> reached T s sv' s' \<and> smem sv' = m \<and> power sv' = k)"

context delivery begin

lemma remote_create:
  assumes "F_VIDDEC3_create \<in> F" "cache_unseen A" "attached T p s" "server_at T (pw s) = Some sv"
    and "cstr_ok name" "length name < 24" "engine_call A p (Call_create e name q) (pmem s, power sv) = Some (a, m, k)"
  shows "answered T R (Call_create e name q) s a m k"
proof -
  from assms(7) obtain d c w where c: "virt2ducati (pmem s) q = Some d" "has_header m d"
    "ce_create A e name d (smem (called_with sv s), set_env A p (hw (power (called_with sv s)))) = (c, m, w)"
    and k: "a = [c]" "k = (power sv)\<lparr>hw := w\<rparr>"
    by (auto simp: on_engine_def in_env_def written_back_def split: Option.bind_splits prod.splits if_splits)
  let ?Q = "\<lambda>h sv'. h = c \<and> smem sv' = m \<and> power sv' = k"
  have "\<exists>v d' sv'. rpc_VIDDEC3_create A (fill_VIDDEC3_create p e name d j) (called_with sv s) = Some (v, d', sv') \<and>
      ?Q (getf VIDDEC3_create_args [''out'', ''codec''] d') sv'" if "length j = 40" for j
    using rpc_create_exact [OF _ assms(5,6,2) c(3,2), of j] k(2) that by auto
  from create_over [OF assms(1,3,4) c(1), of e name ?Q, OF this] k(1) show ?thesis by (auto simp: answered_def)
qed

lemma remote_control:
  assumes "F_VIDDEC3_control \<in> F" "cache_unseen A" "attached T p s" "server_at T (pw s) = Some sv"
    and "engine_call A p (Call_control c i q1 q2) (pmem s, power sv) = Some (a, m, k)"
  shows "answered T R (Call_control c i q1 q2) s a m k"
proof -
  from assms(5) obtain dp st r w where d: "virt2ducati (pmem s) q1 = Some dp" "virt2ducati (pmem s) q2 = Some st"
    and c: "ce_control A c i dp st (smem (called_with sv s), set_env A p (hw (power (called_with sv s)))) = (r, m, w)"
    and h: "has_header m dp" "has_header m st" and k: "a = [r]" "k = (power sv)\<lparr>hw := w\<rparr>"
    by (auto simp: on_engine_def in_env_def written_back_def split: Option.bind_splits prod.splits if_splits)
  let ?Q = "\<lambda>r' sv'. r' = r \<and> smem sv' = m \<and> power sv' = k"
  have "\<exists>v d' sv'. rpc_VIDDEC3_control A (fill_VIDDEC3_control p c i dp st j) (called_with sv s) = Some (v, d', sv') \<and>
      ?Q (getf VIDDEC3_control_args [''out'', ''ret''] d') sv'" if "length j = 20" for j
    using rpc_control_exact [OF _ assms(2) c h, of j] k(2) that by auto
  from control_over [OF assms(1,3,4) d, of c i ?Q, OF this] k(1) show ?thesis by (auto simp: answered_def)
qed

lemma remote_process:
  assumes "F_VIDDEC3_process \<in> F" "cache_unseen A" "attached T p s" "server_at T (pw s) = Some sv"
    and "engine_call A p (Call_process c q1 q2 q3 q4) (pmem s, power sv) = Some (a, m, k)"
  shows "answered T R (Call_process c q1 q2 q3 q4) s a m k"
proof -
  let ?k = "ivahd_acquire (bus A) ((power sv)\<lparr>hw := set_env A p (hw (power sv))\<rparr>)"
  from assms(5) obtain ib ob ia oa r w where d: "virt2ducati (pmem s) q1 = Some ib" "virt2ducati (pmem s) q2 = Some ob"
      "virt2ducati (pmem s) q3 = Some ia" "virt2ducati (pmem s) q4 = Some oa"
    and c: "ce_process A c ib ob ia oa (smem (called_with sv s), hw (ivahd_acquire (bus A)
        ((power (called_with sv s))\<lparr>hw := set_env A p (hw (power (called_with sv s)))\<rparr>))) = (r, m, w)"
    and h: "list_all (has_header m) [ib, ob, ia, oa]" and k: "a = [r]" "k = ivahd_release (bus A) (?k\<lparr>hw := w\<rparr>)"
    by (auto simp: on_engine_def in_env_def written_back_def split: Option.bind_splits prod.splits if_splits)
  let ?Q = "\<lambda>r' sv'. r' = r \<and> smem sv' = m \<and> power sv' = k"
  have "\<exists>v d' sv'. rpc_VIDDEC3_process A (fill_VIDDEC3_process p c ib ob ia oa j) (called_with sv s) = Some (v, d', sv') \<and>
      ?Q (getf VIDDEC3_process_args [''out'', ''ret''] d') sv'" if "length j = 24" for j
    using rpc_process_exact [OF _ assms(2) c h, of j] k(2) that by auto
  from process_over [OF assms(1,3,4) d, of c ?Q, OF this] k(1) show ?thesis by (auto simp: answered_def)
qed

lemma remote_delete:
  assumes "F_VIDDEC3_delete \<in> F" "attached T p s" "server_at T (pw s) = Some sv"
    and "engine_call A p (Call_delete c) (pmem s, power sv) = Some (a, m, k)"
  shows "answered T R (Call_delete c) s a m k"
proof -
  from assms(4) obtain w where c: "ce_delete A c (smem (called_with sv s), set_env A p (hw (power (called_with sv s)))) = (m, w)"
    and k: "a = []" "k = (power sv)\<lparr>hw := w\<rparr>"
    by (auto simp: on_engine_def in_env_def split: prod.splits)
  let ?Q = "\<lambda>sv'. smem sv' = m \<and> power sv' = k"
  have "\<exists>v d' sv'. rpc_VIDDEC3_delete A (fill_VIDDEC3_delete p c j) (called_with sv s) = Some (v, d', sv') \<and> ?Q sv'"
    if "length j = 8" for j
    using rpc_VIDDEC3_delete_fill [of j A p c "called_with sv s"] that delete_step_parts [OF c] k(2) by simp
  from delete_over [OF assms(1-3), of c ?Q, OF this] k(1) show ?thesis by (auto simp: answered_def)
qed

lemma remote_inner_call:
  assumes "F = UNIV" "cache_unseen A" "attached T p s" "server_at T (pw s) = Some sv" "inner_call c"
    and "engine_call A p c (pmem s, power sv) = Some (a, m, k)"
  shows "answered T R c s a m k"
  using assms by (cases c) (simp_all add: remote_create remote_control remote_process remote_delete
      del: engine_call.simps stub_call.simps)

end

subsection \<open>Whole sessions\<close>

text \<open>
  The programs that keep to the connection: nothing but an \<open>Engine_open\<close> while there is none, and
  the first \<open>Engine_close\<close> ends it (the use count does not count), however many engines were opened.
\<close>

fun next_link :: "bool \<Rightarrow> api_call \<Rightarrow> bool option" where
  "next_link b (Call_open name) = (if cstr_ok name \<and> length name < 24 then Some True else None)"
| "next_link b (Call_close e) = (if b then Some False else None)"
| "next_link b c = (if b \<and> inner_call c then Some b else None)"

fun in_order :: "bool \<Rightarrow> api_call list \<Rightarrow> bool" where
  "in_order b [] = True"
| "in_order b (c # cs) = (case next_link b c of None \<Rightarrow> False | Some b \<Rightarrow> in_order b cs)"

text \<open>The client as a session leaves it between two calls, with or without a connection.\<close>

definition linked :: "('v, 'w) transport \<Rightarrow> u32 \<Rightarrow> bool \<Rightarrow> 'v proc \<Rightarrow> bool" where
  "linked T p b s \<longleftrightarrow> use_count s = (if b then 1 else 0) \<and> (b \<longrightarrow> attached T p s)"

context delivery begin

lemma remote_open:
  assumes "F_Engine_open \<in> F" "linked T p b s" "server_at T (pw s) = Some sv" "cstr_ok name" "length name < 24"
    and "engine_call A p (Call_open name) (pmem s, power sv) = Some (a, m, k)"
  shows "\<exists>s' sv'. stub_call R (Call_open name) s = Some (a, s') \<and> server_at T (pw s') = Some sv' \<and>
     pmem s' = m \<and> power sv' = k \<and> linked T p True s' \<and> links_kept T (- {p}) (pw s) (pw s')"
proof -
  from assms(6) obtain e ec w where c: "ce_open A name
      (smem (called_with sv s), set_env A p (hw (power (called_with sv s)))) = ((e, ec), m, w)"
    and k: "a = [e, ec]" "k = (power sv)\<lparr>hw := w\<rparr>"
    by (auto simp: on_engine_def in_env_def split: prod.splits)
  let ?Q = "\<lambda>e' c' sv'. e' = e \<and> c' = ec \<and> smem sv' = m \<and> power sv' = k"
  have u: "use_count s = 0 \<or> use_count s = 1 \<and> attached T p s"
    using assms(2) by (auto simp: linked_def split: if_splits)
  have "\<exists>v d' sv'. rpc_Engine_open A (fill_Engine_open p name j) (called_with sv s) = Some (v, d', sv') \<and>
      ?Q (getf Engine_open_args [''out'', ''engine''] d') (getf Engine_open_args [''out'', ''ec''] d') sv'"
    if "length j = 32" for j
    using rpc_open_exact [OF _ assms(4,5) c, of j] k(2) that by auto
  from open_over [OF assms(1) u assms(3), of name ?Q, OF this] k(1) show ?thesis
    by (fastforce simp: linked_def links_kept_def)
qed

lemma remote_close:
  assumes "F_Engine_close \<in> F" "linked T p True s" "server_at T (pw s) = Some sv"
    and "engine_call A p (Call_close e) (pmem s, power sv) = Some (a, m, k)"
  shows "\<exists>s' sv'. stub_call R (Call_close e) s = Some (a, s') \<and> server_at T (pw s') = Some sv' \<and>
     pmem s' = m \<and> power sv' = k \<and> linked T p False s' \<and> links_kept T (- {p}) (pw s) (pw s')"
proof -
  from assms(4) obtain w where c: "ce_close A e (smem (called_with sv s), set_env A p (hw (power (called_with sv s)))) = (m, w)"
    and k: "a = []" "k = (power sv)\<lparr>hw := w\<rparr>"
    by (auto simp: on_engine_def in_env_def split: prod.splits)
  let ?Q = "\<lambda>sv'. smem sv' = m \<and> power sv' = k"
  have s: "attached T p s" "use_count s = 1" using assms(2) by (simp_all add: linked_def)
  have "\<exists>v d' sv'. rpc_Engine_close A (fill_Engine_close p e j) (called_with sv s) = Some (v, d', sv') \<and> ?Q sv'"
    if "length j = 8" for j
    using rpc_Engine_close_fill [of j A p e "called_with sv s"] that close_step_parts [OF c] k(2) by simp
  from close_over [OF assms(1) s(1) assms(3), of e ?Q, OF this] k(1) s(2) show ?thesis by (auto simp: linked_def)
qed

lemma remote_step:
  assumes "F = UNIV" "cache_unseen A" "linked T p b s" "server_at T (pw s) = Some sv" "next_link b c = Some b'"
    and "engine_call A p c (pmem s, power sv) = Some (a, m, k)"
  shows "\<exists>s' sv'. stub_call R c s = Some (a, s') \<and> server_at T (pw s') = Some sv' \<and>
     pmem s' = m \<and> power sv' = k \<and> linked T p b' s' \<and> links_kept T (- {p}) (pw s) (pw s')"
proof -
  consider name where "c = Call_open name" | e where "c = Call_close e" | "inner_call c" "b" "b' = b"
    using assms(5) by (cases c) (auto split: if_splits)
  then show ?thesis
  proof cases
    case 1
    with assms remote_open [OF _ assms(3,4)] show ?thesis
      by (simp del: engine_call.simps stub_call.simps split: if_splits)
  next
    case 2
    with assms remote_close [OF _ _ assms(4)] show ?thesis
      by (simp del: engine_call.simps stub_call.simps split: if_splits)
  next
    case 3
    then have t: "attached T p s" using assms(3) by (simp add: linked_def)
    from remote_inner_call [OF assms(1,2) t assms(4) 3(1) assms(6)] obtain s' sv' where
      "stub_call R c s = Some (a, s')" "reached T s sv' s'" "smem sv' = m" "power sv' = k"
      by (auto simp: answered_def)
    moreover have "linked T p b' s'"
      using 3 assms(3) reached_attached [OF calculation(2) t] calculation(2) by (simp add: linked_def reached_def)
    ultimately show ?thesis by (auto simp: reached_def links_kept_def)
  qed
qed

end

subsection \<open>Several applications on one server\<close>

text \<open>
  Each process has a connection of its own; memory and server are shared. Their calls come in any
  order, one after the other.
\<close>

type_synonym 'v apps = "(u32 \<Rightarrow> 'v proc) \<times> mem \<times> 'v"

fun app_call :: "(u32 \<Rightarrow> 'v rcm_api) \<Rightarrow> u32 \<times> api_call \<Rightarrow> 'v apps \<Rightarrow> (u32 list \<times> 'v apps) option" where
  "app_call R (p, c) (P, m, v) = do {
     (a, s) \<leftarrow> stub_call (R p) c ((P p)\<lparr>pmem := m, pw := v\<rparr>);
     Some (a, P(p := s), pmem s, pw s) }"

definition calls_of :: "u32 \<Rightarrow> (u32 \<times> api_call) list \<Rightarrow> api_call list" where
  "calls_of p xs = [c. (q, c) \<leftarrow> xs, q = p]"

lemma calls_of_simps [simp]:
  "calls_of p [] = []" "calls_of p ((q, c) # xs) = (if q = p then c # calls_of p xs else calls_of p xs)"
  by (simp_all add: calls_of_def)

definition all_linked :: "('v, 'w) transport \<Rightarrow> (u32 \<Rightarrow> bool) \<Rightarrow> (u32 \<Rightarrow> 'v proc) \<Rightarrow> 'v \<Rightarrow> bool" where
  "all_linked T B P v \<longleftrightarrow> (\<forall>p. linked T p (B p) ((P p)\<lparr>pw := v\<rparr>))"

lemma all_linked_one: "all_linked T B P v \<Longrightarrow> linked T p (B p) ((P p)\<lparr>pmem := m, pw := v\<rparr>)"
  by (simp add: all_linked_def linked_def attached_def)

lemma all_linked_upd:
  "all_linked T B P v \<Longrightarrow> linked T p b s \<Longrightarrow> links_kept T (- {p}) v (pw s) \<Longrightarrow>
     all_linked T (B(p := b)) (P(p := s)) (pw s)"
  by (auto simp: all_linked_def linked_def attached_def links_kept_def)

lemma app_step:
  assumes "delivery A T p (R p) UNIV" "cache_unseen A" "all_linked T B P v" "server_at T v = Some sv"
    and "next_link (B p) c = Some b" "engine_call A p c (m, power sv) = Some (a, m', k')"
  shows "\<exists>P' v' sv'. app_call R (p, c) (P, m, v) = Some (a, P', m', v') \<and> server_at T v' = Some sv' \<and>
     power sv' = k' \<and> all_linked T (B(p := b)) P' v'"
  using delivery.remote_step [OF assms(1) refl assms(2) all_linked_one [OF assms(3)] _ assms(5), of m sv a m' k']
    assms(4,6) all_linked_upd [OF assms(3)] by fastforce

text \<open>
  C1: using the remote interface is calling the codec engine. Any number of applications share the
  server over transports that deliver every message, each keeping to its connection and passing names of
  at most 23 characters, their calls in any order. If the same calls can be made directly (each in the
  environment of its process, with the pointers translated, every block passed with a mapped header
  before and after the call), then no stub faults, each gives the answer of the codec engine, and
  the memory, the engine and the use count of the accelerator end up the same. Writing back the
  cache is assumed to change nothing that is seen.
\<close>

theorem remote_sessions_are_local:
  assumes "\<And>p. delivery A T p (R p) UNIV" "cache_unseen A" "server_at T v = Some sv" "\<And>p. use_count (P p) = 0"
    and "\<And>p. in_order False (calls_of p xs)"
    and "call_all (\<lambda>(p, c). engine_call A p c) xs (m, power sv) = Some (as, m', k')"
  shows "\<exists>P' v' sv'. call_all (app_call R) xs (P, m, v) = Some (as, P', m', v') \<and>
     server_at T v' = Some sv' \<and> power sv' = k'"
proof -
  have "all_linked T B P v \<Longrightarrow> server_at T v = Some sv \<Longrightarrow> (\<And>p. in_order (B p) (calls_of p xs)) \<Longrightarrow>
      call_all (\<lambda>(p, c). engine_call A p c) xs (m, power sv) = Some (as, m', k') \<Longrightarrow>
      \<exists>P' v' sv'. call_all (app_call R) xs (P, m, v) = Some (as, P', m', v') \<and>
        server_at T v' = Some sv' \<and> power sv' = k'" for B
  proof (induction xs arbitrary: B P m v sv as)
    case (Cons x xs)
    obtain p c where x: "x = (p, c)" by (cases x)
    from Cons.prems(3) [of p] obtain b where b: "next_link (B p) c = Some b" "in_order b (calls_of p xs)"
      by (auto simp: x split: option.splits)
    have o: "in_order ((B(p := b)) q) (calls_of q xs)" for q
      using Cons.prems(3) [of q] b(2) by (auto simp: x split: if_splits)
    from Cons.prems(4) obtain a m1 k1 as1 where e: "engine_call A p c (m, power sv) = Some (a, m1, k1)"
      "call_all (\<lambda>(p, c). engine_call A p c) xs (m1, k1) = Some (as1, m', k')" "as = a # as1"
      by (auto simp: x bind_eq_Some_conv)
    from app_step [where R = R, OF assms(1,2) Cons.prems(1,2) b(1) e(1)] obtain P1 v1 sv1 where
      s: "app_call R (p, c) (P, m, v) = Some (a, P1, m1, v1)" "server_at T v1 = Some sv1" "power sv1 = k1"
      "all_linked T (B(p := b)) P1 v1" by blast
    from Cons.IH [OF s(4,2) o] e(2,3) s(1,3) show ?case by (fastforce simp: x)
  qed simp
  from this [of "\<lambda>_. False"] show ?thesis using assms(3-6) by (simp add: all_linked_def linked_def)
qed

text \<open>Memory in which nothing but the header of the block at \<open>0x2000\<close> is mapped.\<close>

definition one_header :: mem where
  "one_header = (\<lambda>a. if a - 0x1FF8 < 8 then Some (if a = 0x1FFD then 0x20 else 0) else None)"

lemma one_header_reads: "virt2ducati one_header 0x2000 = Some 0x2000" "has_header one_header 0x2000"
  by code_simp+

lemma remote_sessions_are_local_witness:
  "\<exists>P v. call_all (app_call (\<lambda>p. link idle_api p (\<lambda>n. 255)))
     [(9, Call_open sample_name), (8, Call_open sample_name), (9, Call_create 1 sample_name 0x2000),
      (9, Call_process 1 0x2000 0x2000 0x2000 0x2000), (8, Call_close 1), (9, Call_delete 1), (9, Call_close 1)]
     (\<lambda>p. init_proc Map.empty None, one_header, Some one_client) =
       Some ([[1, 0], [1, 0], [1], [0], [], [], []], P, one_header, v)"
proof -
  let ?xs = "[(9, Call_open sample_name), (8, Call_open sample_name), (9, Call_create 1 sample_name 0x2000),
      (9, Call_process 1 0x2000 0x2000 0x2000 0x2000), (8, Call_close 1), (9, Call_delete 1), (9, Call_close 1)]"
  have o: "in_order False (calls_of p ?xs)" for p by (simp add: sample_name_def cstr_ok_def)
  have c: "cache_unseen idle_api" by (simp add: cache_unseen_def idle_api_def)
  have "\<exists>k. call_all (\<lambda>(p, c). engine_call idle_api p c) ?xs (one_header, power one_client) =
      Some ([[1, 0], [1, 0], [1], [0], [], [], []], one_header, k)"
    by (simp add: one_header_reads on_engine_def in_env_def written_back_def idle_api_def)
  then obtain k where "call_all (\<lambda>(p, c). engine_call idle_api p c) ?xs (one_header, power one_client) =
      Some ([[1, 0], [1, 0], [1], [0], [], [], []], one_header, k)" by blast
  from remote_sessions_are_local [where T = link_view and R = "\<lambda>p. link idle_api p (\<lambda>n. 255)" and v = "Some one_client" and
      P = "\<lambda>p. init_proc Map.empty None", OF link.delivery_axioms c _ _ o this]
  show ?thesis by (auto simp: init_proc_def link_view_def)
qed

end
