(* ===== verification/Staged_Jobs.thy ===== *)
theory Staged_Jobs
  imports Prelude
begin

text \<open>
  Jobs that run at the same time, each a sequence of stages on a shared state. A stage takes the data
  of its job and the state; a schedule names the job whose turn it is. The locale \<open>staged_jobs\<close> is the contract of
  jobs that make one call each: of the stages of a job one makes the call, and the others change
  nothing that a call depends on. Within it, whatever the schedule, the jobs end with the data and the
  state that the calls would have made one after the other, in the order in which they were made.
\<close>

definition job_turn :: "('j \<Rightarrow> nat) \<Rightarrow> ('j \<Rightarrow> nat \<Rightarrow> 'd \<times> 's \<Rightarrow> ('d \<times> 's) option) \<Rightarrow> nat \<Rightarrow>
    ('j \<times> nat \<times> 'd) list \<times> 's \<Rightarrow> (('j \<times> nat \<times> 'd) list \<times> 's) option" where
  "job_turn len stage t = (\<lambda>(ts, s).
     if t < length ts then
       (case ts ! t of (j, i, d) \<Rightarrow>
          if i < len j then do { (d, s) \<leftarrow> stage j i (d, s); Some (ts[t := (j, Suc i, d)], s) }
          else Some (ts, s))
     else Some (ts, s))"

fun run_jobs :: "('j \<Rightarrow> nat) \<Rightarrow> ('j \<Rightarrow> nat \<Rightarrow> 'd \<times> 's \<Rightarrow> ('d \<times> 's) option) \<Rightarrow> nat list \<Rightarrow>
    ('j \<times> nat \<times> 'd) list \<times> 's \<Rightarrow> (('j \<times> nat \<times> 'd) list \<times> 's) option" where
  "run_jobs len stage [] x = Some x"
| "run_jobs len stage (t # ts) x = Option.bind (job_turn len stage t x) (run_jobs len stage ts)"

text \<open>The data of a job.\<close>

abbreviation data_at :: "('j \<times> nat \<times> 'd) list \<Rightarrow> nat \<Rightarrow> 'd" where
  "data_at ts t \<equiv> snd (snd (ts ! t))"

text \<open>
  The jobs in the order of their calls, given for each the number of turns up to and with its call
  (0 when it is made).
\<close>

fun call_order :: "nat list \<Rightarrow> nat list \<Rightarrow> nat list" where
  "call_order k [] = []"
| "call_order k (t # ts) =
     (if t < length k \<and> k ! t = 1 then t # call_order (k[t := 0]) ts
      else call_order (k[t := k ! t - 1]) ts)"

text \<open>Calls one after the other.\<close>

fun perform_all :: "('j \<Rightarrow> 'a \<Rightarrow> 'd \<times> 'a) \<Rightarrow> 'j list \<Rightarrow> 'a \<Rightarrow> 'd list \<times> 'a" where
  "perform_all f [] a = ([], a)"
| "perform_all f (j # js) a = (let (d, a) = f j a; (ds, a) = perform_all f js a in (d # ds, a))"

lemma length_perform_all: "length (fst (perform_all f js a)) = length js"
  by (induction js arbitrary: a) (simp_all add: case_prod_beta Let_def)

lemma sum_list_swap:
  fixes xs :: "'c :: ab_group_add list"
  shows "t < length xs \<Longrightarrow> sum_list (xs[t := x]) = sum_list xs + (x - xs ! t)"
  by (induction xs arbitrary: t) (auto split: nat.splits simp: algebra_simps)

locale staged_jobs =
  fixes len :: "'j \<Rightarrow> nat" and call_at :: "'j \<Rightarrow> nat"
    and stage :: "'j \<Rightarrow> nat \<Rightarrow> 'd \<times> 's \<Rightarrow> ('d \<times> 's) option" and data :: "'j \<Rightarrow> 'd"
    and good :: "'j \<Rightarrow> bool" and ok :: "'s \<Rightarrow> bool"
    and seen :: "'s \<Rightarrow> 'a" and eff :: "'j \<Rightarrow> 'a \<Rightarrow> 'd \<times> 'a"
    and cnt :: "'s \<Rightarrow> 'c :: ab_group_add" and delta :: "'j \<Rightarrow> nat \<Rightarrow> 'c"
  assumes call_in: "call_at j < len j"
    and silent: "good j \<Longrightarrow> ok s \<Longrightarrow> i < len j \<Longrightarrow> i \<noteq> call_at j \<Longrightarrow>
      \<exists>s'. stage j i (d, s) = Some (d, s') \<and> ok s' \<and> seen s' = seen s \<and> cnt s' = cnt s + delta j i"
    and calls: "good j \<Longrightarrow> ok s \<Longrightarrow>
      \<exists>d s'. stage j (call_at j) (data j, s) = Some (d, s') \<and> ok s' \<and> eff j (seen s) = (d, seen s') \<and>
        cnt s' = cnt s + delta j (call_at j)"
    and balanced: "sum (delta j) {..<len j} = 0"
begin

definition fits :: "('j \<times> nat \<times> 'd) list \<times> 's \<Rightarrow> bool" where
  "fits = (\<lambda>(ts, s). ok s \<and> (\<forall>(j, i, d)\<in>set ts. good j \<and> i \<le> len j \<and> (i \<le> call_at j \<longrightarrow> d = data j)))"

text \<open>The turns that are left up to the call, and what the stages so far have added to the count.\<close>

definition left_of :: "('j \<times> nat \<times> 'd) list \<Rightarrow> nat list" where
  "left_of ts = map (\<lambda>(j, i, d). Suc (call_at j) - i) ts"

definition added :: "('j \<times> nat \<times> 'd) list \<Rightarrow> 'c" where
  "added ts = sum_list (map (\<lambda>(j, i, d). sum (delta j) {..<i}) ts)"

definition begin_jobs :: "'j list \<Rightarrow> ('j \<times> nat \<times> 'd) list" where
  "begin_jobs js = map (\<lambda>j. (j, 0, data j)) js"

lemma turn_idle:
  assumes "\<not> (t < length ts \<and> fst (snd (ts ! t)) < len (fst (ts ! t)))" "fits (ts, s)"
  shows "job_turn len stage t (ts, s) = Some (ts, s)" "call_order (left_of ts) (t # sched) = call_order (left_of ts) sched"
proof -
  show "job_turn len stage t (ts, s) = Some (ts, s)"
    using assms(1) by (auto simp: job_turn_def split: prod.splits)
  have "(left_of ts)[t := left_of ts ! t - 1] = left_of ts" "\<not> (t < length (left_of ts) \<and> left_of ts ! t = 1)"
    using assms(1) call_in [of "fst (ts ! t)"]
    by (cases "t < length ts"; cases "ts ! t"; auto simp: left_of_def list_update_same_conv list_update_beyond)+
  then show "call_order (left_of ts) (t # sched) = call_order (left_of ts) sched" by auto
qed

lemma turn_works:
  assumes "t < length ts" "ts ! t = (j, i, d)" "i < len j" "fits (ts, s)"
  shows "\<exists>d' s'. job_turn len stage t (ts, s) = Some (ts[t := (j, Suc i, d')], s') \<and>
     fits (ts[t := (j, Suc i, d')], s') \<and> cnt s' = cnt s + delta j i \<and>
     (if i = call_at j then eff j (seen s) = (d', seen s') else d' = d \<and> seen s' = seen s)"
proof -
  have "(j, i, d) \<in> set ts" using assms(1,2) nth_mem by metis
  with assms(4) have j: "good j" "ok s" "i \<le> call_at j \<Longrightarrow> d = data j" by (auto simp: fits_def)
  obtain d' s' where st: "stage j i (d, s) = Some (d', s')" "ok s'" "cnt s' = cnt s + delta j i"
    "if i = call_at j then eff j (seen s) = (d', seen s') else d' = d \<and> seen s' = seen s"
  proof (cases "i = call_at j")
    case True
    then show ?thesis using calls [OF j(1,2)] j(3) that by auto
  next
    case False
    then show ?thesis using silent [OF j(1,2) assms(3)] that by auto
  qed
  have "fits (ts[t := (j, Suc i, d')], s')"
    using assms(3,4) st(2,4) j(1,3) set_update_subset_insert [of ts t "(j, Suc i, d')"]
    by (auto simp: fits_def split: if_splits)
  with st assms(1-3) show ?thesis by (auto simp: job_turn_def)
qed

lemma left_turn:
  assumes "t < length ts" "ts ! t = (j, i, d)"
  shows "left_of ts ! t = Suc (call_at j) - i" "length (left_of ts) = length ts"
    "left_of (ts[t := (j, Suc i, d')]) = (left_of ts)[t := call_at j - i]"
  using assms by (simp_all add: left_of_def map_update)

lemma added_turn:
  assumes "t < length ts" "ts ! t = (j, i, d)"
  shows "added (ts[t := (j, Suc i, d')]) = added ts + delta j i"
  using assms by (simp add: added_def map_update sum_list_swap)

lemma turn_order:
  assumes "t < length ts" "ts ! t = (j, i, d)"
  shows "call_order (left_of ts) (t # sched) =
     (if i = call_at j then [t] else []) @ call_order (left_of (ts[t := (j, Suc i, d')])) sched"
  using assms left_turn [OF assms] by (auto simp: le_Suc_eq not_less)

text \<open>How far a job has come, and the whole of what a schedule does.\<close>

definition stage_of :: "('j \<times> nat \<times> 'd) list \<Rightarrow> nat \<Rightarrow> nat" where
  "stage_of ts t = fst (snd (ts ! t))"

definition results :: "nat list \<Rightarrow> ('j \<times> nat \<times> 'd) list \<times> 's \<Rightarrow> ('j \<times> nat \<times> 'd) list \<times> 's \<Rightarrow> bool" where
  "results sched = (\<lambda>(ts, s) (ts', s').
     fits (ts', s') \<and> length ts' = length ts \<and> cnt s' - added ts' = cnt s - added ts \<and>
     (\<forall>t<length ts. fst (ts' ! t) = fst (ts ! t) \<and>
        stage_of ts' t = min (len (fst (ts ! t))) (stage_of ts t + count_list sched t) \<and>
        (call_at (fst (ts ! t)) < stage_of ts t \<longrightarrow> data_at ts' t = data_at ts t)) \<and>
     (let ord = call_order (left_of ts) sched in
        perform_all eff (map (\<lambda>t. fst (ts ! t)) ord) (seen s) = (map (data_at ts') ord, seen s') \<and>
        distinct ord \<and>
        set ord = {t. t < length ts \<and> stage_of ts t \<le> call_at (fst (ts ! t)) \<and> call_at (fst (ts ! t)) < stage_of ts' t}))"

lemma stage_of_turn:
  assumes "t < length ts" "ts ! t = (j, i, d)" "u < length ts"
  shows "fst (ts[t := (j, Suc i, d')] ! u) = fst (ts ! u)"
    "stage_of (ts[t := (j, Suc i, d')]) u = (if u = t then Suc i else stage_of ts u)"
    "data_at (ts[t := (j, Suc i, d')]) u = (if u = t then d' else data_at ts u)"
  using assms by (auto simp: stage_of_def nth_list_update)

lemma results_step:
  assumes t: "t < length ts" "ts ! t = (j, i, d)" "i < len j" and c: "cnt s1 = cnt s + delta j i"
    and w: "if i = call_at j then eff j (seen s) = (d', seen s1) else d' = d \<and> seen s1 = seen s"
    and r: "results sched (ts[t := (j, Suc i, d')], s1) (ts', s')"
  shows "results (t # sched) (ts, s) (ts', s')"
proof -
  let ?ts = "ts[t := (j, Suc i, d')]"
  define ord where "ord = call_order (left_of ?ts) sched"
  note at = stage_of_turn [OF t(1,2), where d' = d']
  have st: "stage_of ts t = i" "fst (ts ! t) = j" "data_at ts t = d" using t by (simp_all add: stage_of_def)
  have r1: "fits (ts', s')" "length ts' = length ts" "cnt s' - added ts' = cnt s1 - added ?ts"
    "\<And>u. u < length ts \<Longrightarrow> fst (ts' ! u) = fst (ts ! u)"
    "\<And>u. u < length ts \<Longrightarrow> stage_of ts' u = min (len (fst (ts ! u))) (stage_of ?ts u + count_list sched u)"
    "\<And>u. u < length ts \<Longrightarrow> call_at (fst (ts ! u)) < stage_of ?ts u \<Longrightarrow> data_at ts' u = data_at ?ts u"
    "perform_all eff (map (\<lambda>t. fst (?ts ! t)) ord) (seen s1) = (map (data_at ts') ord, seen s')" "distinct ord"
    "set ord = {u. u < length ts \<and> stage_of ?ts u \<le> call_at (fst (ts ! u)) \<and> call_at (fst (ts ! u)) < stage_of ts' u}"
    using r at(1) by (auto simp: results_def ord_def Let_def)
  have same: "map (\<lambda>t. fst (?ts ! t)) ord = map (\<lambda>t. fst (ts ! t)) ord" using r1(9) at(1) by auto
  note perf = r1(7) [unfolded same]
  have count: "stage_of ts' u = min (len (fst (ts ! u))) (stage_of ts u + count_list (t # sched) u)" if "u < length ts" for u
    using r1(5) [OF that] at(2) [OF that] st by auto
  have keep: "data_at ts' u = data_at ts u" if "u < length ts" "call_at (fst (ts ! u)) < stage_of ts u" for u
    using r1(6) [OF that(1)] at [OF that(1)] that w st by (auto split: if_splits)
  have added: "cnt s' - added ts' = cnt s - added ts" using r1(3) c added_turn [OF t(1,2)] by simp
  have later: "Suc i \<le> stage_of ts' t" using r1(5) [OF t(1)] at(2) [OF t(1)] t by simp
  have ord': "call_order (left_of ts) (t # sched) = (if i = call_at j then [t] else []) @ ord"
    using turn_order [OF t(1,2)] by (simp add: ord_def)
  have "perform_all eff (map (\<lambda>t. fst (ts ! t)) ((if i = call_at j then [t] else []) @ ord)) (seen s) =
      (map (data_at ts') ((if i = call_at j then [t] else []) @ ord), seen s') \<and>
    distinct ((if i = call_at j then [t] else []) @ ord) \<and>
    set ((if i = call_at j then [t] else []) @ ord) =
      {u. u < length ts \<and> stage_of ts u \<le> call_at (fst (ts ! u)) \<and> call_at (fst (ts ! u)) < stage_of ts' u}"
  proof (cases "i = call_at j")
    case True
    have "data_at ts' t = d'" using r1(6) [OF t(1)] at(2,3) [OF t(1)] True st by simp
    moreover have "t \<notin> set ord" using r1(9) at(2) [OF t(1)] True st by simp
    moreover have "set (t # ord) = {u. u < length ts \<and> stage_of ts u \<le> call_at (fst (ts ! u)) \<and> call_at (fst (ts ! u)) < stage_of ts' u}"
      using r1(9) at(2) True st later t(1) by (auto split: if_splits)
    ultimately show ?thesis using perf r1(8) w True st(2) by simp
  next
    case False
    have "set ord = {u. u < length ts \<and> stage_of ts u \<le> call_at (fst (ts ! u)) \<and> call_at (fst (ts ! u)) < stage_of ts' u}"
      using r1(9) at(2) False st by (auto split: if_splits)
    with False show ?thesis using perf r1(8) w by simp
  qed
  with r1(1,2,4) count keep added show ?thesis
    by (simp add: results_def Let_def ord' del: call_order.simps)
qed

lemma run_results:
  "fits (ts, s) \<Longrightarrow> \<exists>ts' s'. run_jobs len stage sched (ts, s) = Some (ts', s') \<and> results sched (ts, s) (ts', s')"
proof (induction sched arbitrary: ts s)
  case Nil
  then have "stage_of ts t \<le> len (fst (ts ! t))" if "t < length ts" for t
    using that by (force simp: fits_def stage_of_def dest!: nth_mem)
  with Nil show ?case by (auto simp: results_def Let_def)
next
  case (Cons t sched)
  show ?case
  proof (cases "t < length ts \<and> stage_of ts t < len (fst (ts ! t))")
    case False
    then have idle: "\<not> (t < length ts \<and> fst (snd (ts ! t)) < len (fst (ts ! t)))" by (simp add: stage_of_def)
    obtain ts' s' where r: "run_jobs len stage sched (ts, s) = Some (ts', s')" "results sched (ts, s) (ts', s')"
      using Cons by blast
    have "stage_of ts' u = min (len (fst (ts ! u))) (stage_of ts u + count_list (t # sched) u)" if "u < length ts" for u
      using that r(2) False by (auto simp: results_def)
    with r show ?thesis using turn_idle [OF idle Cons.prems] by (auto simp: results_def Let_def)
  next
    case True
    obtain j i d where t: "t < length ts" "ts ! t = (j, i, d)" "i < len j" using True by (cases "ts ! t") (auto simp: stage_of_def)
    obtain d' s1 where w: "job_turn len stage t (ts, s) = Some (ts[t := (j, Suc i, d')], s1)"
      "fits (ts[t := (j, Suc i, d')], s1)" "cnt s1 = cnt s + delta j i"
      "if i = call_at j then eff j (seen s) = (d', seen s1) else d' = d \<and> seen s1 = seen s"
      using turn_works [OF t Cons.prems] by blast
    define ts1 where "ts1 = ts[t := (j, Suc i, d')]"
    obtain ts' s' where r: "run_jobs len stage sched (ts1, s1) = Some (ts', s')" "results sched (ts1, s1) (ts', s')"
      using Cons.IH [OF w(2)] by (auto simp: ts1_def)
    have "results (t # sched) (ts, s) (ts', s')"
      by (rule results_step [OF t w(3,4) r(2) [unfolded ts1_def]])
    with r(1) w(1) show ?thesis by (auto simp: ts1_def)
  qed
qed

text \<open>When every job gets its turns, all are done, with the answers of the calls made in their order.\<close>

lemma begin_fits: "ok s \<Longrightarrow> (\<And>j. j \<in> set js \<Longrightarrow> good j) \<Longrightarrow> fits (begin_jobs js, s)"
  by (auto simp: fits_def begin_jobs_def)

lemma begin_jobs_simps:
  "length (begin_jobs js) = length js" "t < length js \<Longrightarrow> begin_jobs js ! t = (js ! t, 0, data (js ! t))"
  "left_of (begin_jobs js) = map (\<lambda>j. Suc (call_at j)) js"
  by (simp_all add: begin_jobs_def left_of_def)

lemma begin_added: "added (begin_jobs js) = 0"
  by (induction js) (simp_all add: begin_jobs_def added_def)

lemma all_jobs_done:
  assumes "ok s" "\<And>j. j \<in> set js \<Longrightarrow> good j" "\<And>t. t < length js \<Longrightarrow> len (js ! t) \<le> count_list sched t"
  defines "ord \<equiv> call_order (map (\<lambda>j. Suc (call_at j)) js) sched"
  shows "\<exists>ts s'. run_jobs len stage sched (begin_jobs js, s) = Some (ts, s') \<and> ok s' \<and> length ts = length js \<and>
     (\<forall>t<length js. \<exists>d. ts ! t = (js ! t, len (js ! t), d)) \<and>
     perform_all eff (map ((!) js) ord) (seen s) = (map (data_at ts) ord, seen s') \<and>
     distinct ord \<and> set ord = {..<length js} \<and> cnt s' = cnt s"
proof -
  obtain ts s' where r: "run_jobs len stage sched (begin_jobs js, s) = Some (ts, s')"
    "results sched (begin_jobs js, s) (ts, s')"
    using run_results [OF begin_fits [OF assms(1,2)]] by blast
  have ts: "length ts = length js" "\<And>t. t < length js \<Longrightarrow> fst (ts ! t) = js ! t \<and> stage_of ts t = len (js ! t)"
    using r(2) assms(3) by (auto simp: results_def begin_jobs_simps stage_of_def)
  have ord: "perform_all eff (map (\<lambda>t. fst (begin_jobs js ! t)) ord) (seen s) = (map (data_at ts) ord, seen s')"
    "distinct ord" "set ord = {..<length js}"
    using r(2) ts(2) call_in by (auto simp: results_def begin_jobs_simps ord_def Let_def stage_of_def)
  have same: "map (\<lambda>t. fst (begin_jobs js ! t)) ord = map ((!) js) ord" using ord(3) by (auto simp: begin_jobs_simps)
  note perf = ord(1) [unfolded same]
  have "added ts = 0"
  proof -
    have "(case ts ! t of (j, i, d) \<Rightarrow> sum (delta j) {..<i}) = 0" if "t < length ts" for t
      using ts(1) ts(2) [of t] that balanced [of "js ! t"] by (auto simp: stage_of_def split: prod.splits)
    then have "map (\<lambda>(j, i, d). sum (delta j) {..<i}) ts = map (\<lambda>_. 0) [0..<length ts]"
      by (intro nth_equalityI) simp_all
    then show ?thesis by (simp only: added_def) simp
  qed
  moreover have "ok s'" "cnt s' - added ts = cnt s" using r(2) by (auto simp: results_def fits_def begin_added)
  moreover have "\<forall>t<length js. \<exists>d. ts ! t = (js ! t, len (js ! t), d)"
    using ts(2) by (auto simp: stage_of_def) (metis prod.collapse)
  ultimately show ?thesis using r(1) ts(1) perf ord(2,3) by auto
qed

end

end
