(* ===== verification/Concurrent_Serving.thy ===== *)
theory Concurrent_Serving
  imports Remote_Session Staged_Jobs
begin

text \<open>
  The server of \<^verbatim>\<open>dce.c\<close> with several messages in work at once: the pool that \<open>dce_init\<close> creates has
  three workers, and none of the handlers takes a lock. A handler is the sequence of its stages, between
  which the others go on: its calls of the codec engine, of the accelerator and of the cache, and
  its operations on the client table (one stage each here; their single accesses are the subject of
  \<^verbatim>\<open>Table_Threads\<close>). A call of the codec engine is one stage: what the engine itself does while others
  are in it is not modelled. A task that runs has its own environment, set by \<open>Task_setEnv\<close> at the start of
  its handler; a call of the codec engine is made in that environment again, whichever task ran before. The lemmas show that a handler
  alone is its stages, and that messages served at once are answered as if they had been served one
  after the other.
\<close>

subsection \<open>The stages of the handlers\<close>

text \<open>The call of the codec engine that a handler makes, with its answer stored into the message.\<close>

definition open_call :: "'w ce_api \<Rightarrow> bytes \<Rightarrow> mem \<times> 'w \<Rightarrow> (bytes \<times> mem \<times> 'w) option" where
  "open_call A d = (\<lambda>(m, w). do {
     name \<leftarrow> name_at Engine_open_args [''in'', ''name''] d;
     let ((engine, ec), x) = ce_open A name (m, set_env A (getf Engine_open_args [''in'', ''pid''] d) w);
     Some (putf Engine_open_args [''out'', ''ec''] ec (putf Engine_open_args [''out'', ''engine''] engine d), x) })"

definition close_call :: "'w ce_api \<Rightarrow> bytes \<Rightarrow> mem \<times> 'w \<Rightarrow> (bytes \<times> mem \<times> 'w) option" where
  "close_call A d = (\<lambda>(m, w). Some (d, ce_close A (getf Engine_close_args [''in'', ''engine''] d)
     (m, set_env A (getf Engine_close_args [''in'', ''pid''] d) w)))"

definition create_call :: "'w ce_api \<Rightarrow> bytes \<Rightarrow> mem \<times> 'w \<Rightarrow> (bytes \<times> mem \<times> 'w) option" where
  "create_call A d = (\<lambda>(m, w). do {
     name \<leftarrow> name_at VIDDEC3_create_args [''in'', ''name''] d;
     let (codec, x) = ce_create A (getf VIDDEC3_create_args [''in'', ''engine''] d) name
       (getf VIDDEC3_create_args [''in'', ''params''] d)
       (m, set_env A (getf VIDDEC3_create_args [''in'', ''pid''] d) w);
     Some (putf VIDDEC3_create_args [''out'', ''codec''] codec d, x) })"

definition control_call :: "'w ce_api \<Rightarrow> bytes \<Rightarrow> mem \<times> 'w \<Rightarrow> (bytes \<times> mem \<times> 'w) option" where
  "control_call A d = (\<lambda>(m, w).
     let (ret, x) = ce_control A (getf VIDDEC3_control_args [''in'', ''codec''] d)
       (getf VIDDEC3_control_args [''in'', ''id''] d) (getf VIDDEC3_control_args [''in'', ''dynParams''] d)
       (getf VIDDEC3_control_args [''in'', ''status''] d)
       (m, set_env A (getf VIDDEC3_control_args [''in'', ''pid''] d) w)
     in Some (putf VIDDEC3_control_args [''out'', ''ret''] ret d, x))"

definition process_call :: "'w ce_api \<Rightarrow> bytes \<Rightarrow> mem \<times> 'w \<Rightarrow> (bytes \<times> mem \<times> 'w) option" where
  "process_call A d = (\<lambda>(m, w).
     let (ret, x) = ce_process A (getf VIDDEC3_process_args [''in'', ''codec''] d)
       (getf VIDDEC3_process_args [''in'', ''inBufs''] d) (getf VIDDEC3_process_args [''in'', ''outBufs''] d)
       (getf VIDDEC3_process_args [''in'', ''inArgs''] d) (getf VIDDEC3_process_args [''in'', ''outArgs''] d)
       (m, set_env A (getf VIDDEC3_process_args [''in'', ''pid''] d) w)
     in Some (putf VIDDEC3_process_args [''out'', ''ret''] ret d, x))"

definition delete_call :: "'w ce_api \<Rightarrow> bytes \<Rightarrow> mem \<times> 'w \<Rightarrow> (bytes \<times> mem \<times> 'w) option" where
  "delete_call A d = (\<lambda>(m, w). Some (d, ce_delete A (getf VIDDEC3_delete_args [''in'', ''codec''] d)
     (m, set_env A (getf VIDDEC3_delete_args [''in'', ''pid''] d) w)))"

text \<open>
  Stages work on the message and the server. \<open>d0\<close> is the message as it came, from which a handler has
  copied its locals.
\<close>

type_synonym 'w stage = "bytes \<times> 'w server \<Rightarrow> (bytes \<times> 'w server) option"

definition calling :: "(bytes \<Rightarrow> mem \<times> 'w \<Rightarrow> (bytes \<times> mem \<times> 'w) option) \<Rightarrow> 'w stage" where
  "calling f = (\<lambda>(d, s). do { (d, x) \<leftarrow> f d (world s); Some (d, with_world x s) })"

definition on_table :: "(bytes \<Rightarrow> table \<Rightarrow> table) \<Rightarrow> 'w stage" where
  "on_table f = (\<lambda>(d, s). Some (d, s\<lparr>clients := f d (clients s)\<rparr>))"

definition on_power :: "('w power \<Rightarrow> 'w power) \<Rightarrow> 'w stage" where
  "on_power f = (\<lambda>(d, s). Some (d, s\<lparr>power := f (power s)\<rparr>))"

definition cleaning :: "'w ce_api \<Rightarrow> u32 \<Rightarrow> 'w stage" where
  "cleaning A p = (\<lambda>(d, s). do { s \<leftarrow> clean A p s; Some (d, s) })"

definition open_stages :: "'w ce_api \<Rightarrow> bytes \<Rightarrow> 'w stage list" where
  "open_stages A d0 = [
     calling (open_call A),
     on_table (\<lambda>d cl. let engine = getf Engine_open_args [''out'', ''engine''] d
       in if engine \<noteq> 0 then dce_register_engine cl (getf Engine_open_args [''in'', ''pid''] d0) engine else cl)]"

definition close_stages :: "'w ce_api \<Rightarrow> bytes \<Rightarrow> 'w stage list" where
  "close_stages A d0 = [
     on_table (\<lambda>d cl. dce_unregister_engine cl (getf Engine_close_args [''in'', ''pid''] d)
       (getf Engine_close_args [''in'', ''engine''] d)),
     calling (close_call A)]"

definition create_stages :: "'w ce_api \<Rightarrow> bytes \<Rightarrow> 'w stage list" where
  "create_stages A d0 = [
     calling (create_call A),
     cleaning A (getf VIDDEC3_create_args [''in'', ''params''] d0),
     on_table (\<lambda>d cl. let codec = getf VIDDEC3_create_args [''out'', ''codec''] d
       in if codec \<noteq> 0 then dce_register_codec cl (getf VIDDEC3_create_args [''in'', ''pid''] d0) codec else cl)]"

definition control_stages :: "'w ce_api \<Rightarrow> bytes \<Rightarrow> 'w stage list" where
  "control_stages A d0 = [
     calling (control_call A),
     cleaning A (getf VIDDEC3_control_args [''in'', ''dynParams''] d0),
     cleaning A (getf VIDDEC3_control_args [''in'', ''status''] d0)]"

text \<open>\<open>Task_setEnv\<close>, and then the accelerator is taken.\<close>

definition entering :: "'w ce_api \<Rightarrow> u32 \<Rightarrow> 'w power \<Rightarrow> 'w power" where
  "entering A p k = ivahd_acquire (bus A) (k\<lparr>hw := set_env A p (hw k)\<rparr>)"

definition process_stages :: "'w ce_api \<Rightarrow> bytes \<Rightarrow> 'w stage list" where
  "process_stages A d0 = [
     on_power (entering A (getf VIDDEC3_process_args [''in'', ''pid''] d0)),
     calling (process_call A),
     on_power (ivahd_release (bus A)),
     cleaning A (getf VIDDEC3_process_args [''in'', ''inBufs''] d0),
     cleaning A (getf VIDDEC3_process_args [''in'', ''outBufs''] d0),
     cleaning A (getf VIDDEC3_process_args [''in'', ''inArgs''] d0),
     cleaning A (getf VIDDEC3_process_args [''in'', ''outArgs''] d0)]"

definition delete_stages :: "'w ce_api \<Rightarrow> bytes \<Rightarrow> 'w stage list" where
  "delete_stages A d0 = [
     on_table (\<lambda>d cl. dce_unregister_codec cl (getf VIDDEC3_delete_args [''in'', ''pid''] d)
       (getf VIDDEC3_delete_args [''in'', ''codec''] d)),
     calling (delete_call A)]"

text \<open>A message is the function that it names and its data.\<close>

type_synonym msg = "fxn \<times> bytes"

fun stages :: "'w ce_api \<Rightarrow> msg \<Rightarrow> 'w stage list" where
  "stages A (F_Engine_open, d) = open_stages A d"
| "stages A (F_Engine_close, d) = close_stages A d"
| "stages A (F_VIDDEC3_create, d) = create_stages A d"
| "stages A (F_VIDDEC3_control, d) = control_stages A d"
| "stages A (F_VIDDEC3_process, d) = process_stages A d"
| "stages A (F_VIDDEC3_delete, d) = delete_stages A d"

fun serve_call :: "'w ce_api \<Rightarrow> msg \<Rightarrow> mem \<times> 'w \<Rightarrow> (bytes \<times> mem \<times> 'w) option" where
  "serve_call A (F_Engine_open, d) = open_call A d"
| "serve_call A (F_Engine_close, d) = close_call A d"
| "serve_call A (F_VIDDEC3_create, d) = create_call A d"
| "serve_call A (F_VIDDEC3_control, d) = control_call A d"
| "serve_call A (F_VIDDEC3_process, d) = process_call A d"
| "serve_call A (F_VIDDEC3_delete, d) = delete_call A d"

lemmas stages_defs = open_stages_def close_stages_def create_stages_def control_stages_def process_stages_def
  delete_stages_def

text \<open>The number of stages, the one that calls the engine, and what each adds to the use count.\<close>

fun stage_count :: "msg \<Rightarrow> nat" where
  "stage_count (F_Engine_open, d) = 2"
| "stage_count (F_Engine_close, d) = 2"
| "stage_count (F_VIDDEC3_create, d) = 3"
| "stage_count (F_VIDDEC3_control, d) = 3"
| "stage_count (F_VIDDEC3_process, d) = 7"
| "stage_count (F_VIDDEC3_delete, d) = 2"

fun call_stage :: "msg \<Rightarrow> nat" where
  "call_stage (F_Engine_open, d) = 0"
| "call_stage (F_Engine_close, d) = 1"
| "call_stage (F_VIDDEC3_create, d) = 0"
| "call_stage (F_VIDDEC3_control, d) = 0"
| "call_stage (F_VIDDEC3_process, d) = 1"
| "call_stage (F_VIDDEC3_delete, d) = 1"

definition use_change :: "msg \<Rightarrow> nat \<Rightarrow> u32" where
  "use_change j i = (if fst j = F_VIDDEC3_process then if i = 0 then 1 else if i = 2 then - 1 else 0 else 0)"

definition stage_at :: "'w ce_api \<Rightarrow> msg \<Rightarrow> nat \<Rightarrow> 'w stage" where
  "stage_at A j i = stages A j ! i"

lemma length_stages: "length (stages A j) = stage_count j"
  by (cases j rule: stage_count.cases) (simp_all add: stages_defs)

subsection \<open>What is relied on\<close>

text \<open>
  Setting the environment of the running task and setting the clock divider do not concern each other,
  the last setting of each counts, and the codec engine neither looks at the divider nor changes it.
\<close>

abbreviation opp :: "'w ce_api \<Rightarrow> int \<Rightarrow> 'w \<Rightarrow> 'w" where
  "opp A \<equiv> set_ivahd_opp (bus A)"

definition clockless :: "'w ce_api \<Rightarrow> (mem \<times> 'w \<Rightarrow> 'a \<times> mem \<times> 'w) \<Rightarrow> bool" where
  "clockless A f \<longleftrightarrow> (\<forall>v\<in>{0, 100}. \<forall>m w. f (m, opp A v w) = (case f (m, w) of (x, m, w) \<Rightarrow> (x, m, opp A v w)))"

definition clock_apart :: "'w ce_api \<Rightarrow> bool" where
  "clock_apart A \<longleftrightarrow>
     (\<forall>p q w. set_env A p (set_env A q w) = set_env A p w) \<and>
     (\<forall>u\<in>{0, 100}. \<forall>v\<in>{0, 100}. \<forall>w. opp A u (opp A v w) = opp A u w) \<and>
     (\<forall>v\<in>{0, 100}. \<forall>p w. set_env A p (opp A v w) = opp A v (set_env A p w)) \<and>
     (\<forall>n. clockless A (ce_open A n)) \<and> (\<forall>e. clockless A (\<lambda>x. ((), ce_close A e x))) \<and>
     (\<forall>e n q. clockless A (ce_create A e n q)) \<and> (\<forall>c i q r. clockless A (ce_control A c i q r)) \<and>
     (\<forall>c p q r t. clockless A (ce_process A c p q r t)) \<and> (\<forall>c. clockless A (\<lambda>x. ((), ce_delete A c x)))"

text \<open>The name in a message can be read.\<close>

fun readable :: "msg \<Rightarrow> bool" where
  "readable (F_Engine_open, d) = (name_at Engine_open_args [''in'', ''name''] d \<noteq> None)"
| "readable (F_VIDDEC3_create, d) = (name_at VIDDEC3_create_args [''in'', ''name''] d \<noteq> None)"
| "readable j = True"

text \<open>The engine as seen with the divider at its lowest setting, outside any task.\<close>

definition rest :: "'w ce_api \<Rightarrow> 'w \<Rightarrow> 'w" where
  "rest A w = set_env A 0 (opp A 0 w)"

definition engine_seen :: "'w ce_api \<Rightarrow> 'w server \<Rightarrow> mem \<times> 'w" where
  "engine_seen A s = (smem s, rest A (hw (power s)))"

definition engine_does :: "'w ce_api \<Rightarrow> msg \<Rightarrow> mem \<times> 'w \<Rightarrow> bytes \<times> mem \<times> 'w" where
  "engine_does A j x = (case serve_call A j x of Some (d, m, w) \<Rightarrow> (d, m, rest A w) | None \<Rightarrow> (snd j, x))"

definition sound_server :: "'w ce_api \<Rightarrow> 'w server \<Rightarrow> bool" where
  "sound_server A s \<longleftrightarrow> full (smem s) \<and> clock_apart A \<and> cache_unseen A \<and> maps_stay A"

lemma clock_apartD:
  assumes "clock_apart A"
  shows "set_env A p (set_env A q w) = set_env A p w"
    "u \<in> {0, 100} \<Longrightarrow> v \<in> {0, 100} \<Longrightarrow> opp A u (opp A v w) = opp A u w"
    "v \<in> {0, 100} \<Longrightarrow> set_env A p (opp A v w) = opp A v (set_env A p w)"
  using assms by (auto simp: clock_apart_def)

lemma clockless_opp0: "clockless A f \<Longrightarrow> f (m, opp A 0 w) = (case f (m, w) of (x, m, w) \<Rightarrow> (x, m, opp A 0 w))"
  unfolding clockless_def by blast

lemma clockless_calls:
  assumes "clock_apart A"
  shows "clockless A (ce_open A n)" "clockless A (\<lambda>x. ((), ce_close A e x))" "clockless A (ce_create A e n q)"
    "clockless A (ce_control A c i q r)" "clockless A (ce_process A c q r t u)" "clockless A (\<lambda>x. ((), ce_delete A c x))"
  using assms by (simp_all add: clock_apart_def)

lemmas call_defs = open_call_def close_call_def create_call_def control_call_def process_call_def delete_call_def

lemma set_env_rest: "clock_apart A \<Longrightarrow> set_env A p (rest A w) = opp A 0 (set_env A p w)"
  by (simp add: rest_def clock_apartD)

lemma rest_opp: "clock_apart A \<Longrightarrow> v \<in> {0, 100} \<Longrightarrow> rest A (opp A v w) = rest A w"
  by (simp add: rest_def clock_apartD)

lemma rest_set_env: "clock_apart A \<Longrightarrow> rest A (set_env A p w) = rest A w"
  using clock_apartD(3) [of A 0 p w] by (simp add: rest_def clock_apartD(1) flip: clock_apartD(3))

lemma void_clockless:
  assumes "clockless A (\<lambda>x. ((), f x))"
  shows "f (m, opp A 0 w) = (case f (m, w) of (m, w) \<Rightarrow> (m, opp A 0 w))"
  using clockless_opp0 [OF assms, of m w] by (simp split: prod.splits)

text \<open>The call does not depend on the divider or on the environment that was set before.\<close>

lemma serve_call_rest:
  assumes "clock_apart A"
  shows "serve_call A j (m, rest A w) = map_option (\<lambda>(d, m, w). (d, m, opp A 0 w)) (serve_call A j (m, w))"
proof -
  note c = clockless_calls [OF assms]
  note engine = clockless_opp0 [OF c(1)] void_clockless [OF c(2)] clockless_opp0 [OF c(3)] clockless_opp0 [OF c(4)]
    clockless_opp0 [OF c(5)] void_clockless [OF c(6)]
  show ?thesis
    by (cases j rule: stage_count.cases)
      (auto simp: call_defs set_env_rest [OF assms] engine Let_def split: prod.splits bind_splits)
qed

lemma serve_call_seen:
  assumes "sound_server A s" "readable j"
  shows "\<exists>d m w. serve_call A j (world s) = Some (d, m, w) \<and> full m \<and>
     engine_does A j (engine_seen A s) = (d, m, rest A w)"
proof -
  have A: "clock_apart A" "maps_stay A" "full (smem s)" using assms(1) by (simp_all add: sound_server_def)
  have "\<exists>d m w. serve_call A j (world s) = Some (d, m, w) \<and> full m"
    using assms(2) maps_stayD [OF A(2,3)]
    by (cases j rule: stage_count.cases) (auto simp: call_defs world_def Let_def split: prod.splits, (metis surj_pair)+)
  then obtain d m w where "serve_call A j (world s) = Some (d, m, w)" "full m" by blast
  then show ?thesis using serve_call_rest [OF A(1), of j "smem s" "hw (power s)"] rest_opp [OF A(1), of 0]
    by (simp add: engine_does_def engine_seen_def world_def)
qed

subsection \<open>Each stage\<close>

lemma calling_stage:
  assumes "sound_server A s" "readable j"
  shows "\<exists>d s'. calling (\<lambda>_. serve_call A j) (snd j, s) = Some (d, s') \<and> sound_server A s' \<and>
     engine_does A j (engine_seen A s) = (d, engine_seen A s') \<and> use_cnt (power s') = use_cnt (power s)"
  using serve_call_seen [OF assms] assms(1)
  by (auto simp: calling_def sound_server_def with_world_def engine_seen_def)

lemma on_table_stage:
  "sound_server A s \<Longrightarrow> \<exists>s'. on_table f (d, s) = Some (d, s') \<and> sound_server A s' \<and> engine_seen A s' = engine_seen A s \<and>
     use_cnt (power s') = use_cnt (power s)"
  by (simp add: on_table_def sound_server_def engine_seen_def)

lemma cleaning_stage:
  "sound_server A s \<Longrightarrow> cleaning A p (d, s) = Some (d, s)"
  by (simp add: cleaning_def sound_server_def clean_unseen)

lemma rest_acquire: "clock_apart A \<Longrightarrow> rest A (hw (ivahd_acquire (bus A) k)) = rest A (hw k)"
  and rest_release: "clock_apart A \<Longrightarrow> rest A (hw (ivahd_release (bus A) k)) = rest A (hw k)"
  by (simp_all add: acquire_cases release_cases rest_opp)

lemma on_power_stage:
  assumes "sound_server A s"
  shows "\<exists>s'. on_power (entering A p) (d, s) = Some (d, s') \<and> sound_server A s' \<and>
      engine_seen A s' = engine_seen A s \<and> use_cnt (power s') = use_cnt (power s) + 1"
    "\<exists>s'. on_power (ivahd_release (bus A)) (d, s) = Some (d, s') \<and> sound_server A s' \<and>
      engine_seen A s' = engine_seen A s \<and> use_cnt (power s') = use_cnt (power s) - 1"
  using assms
  by (simp_all add: on_power_def sound_server_def engine_seen_def entering_def rest_acquire rest_release rest_set_env
      acquire_cases(1) release_cases(1))

lemma nth_stages:
  "i < stage_count j \<Longrightarrow> i \<noteq> call_stage j \<Longrightarrow> sound_server A s \<Longrightarrow>
   \<exists>s'. stage_at A j i (d, s) = Some (d, s') \<and> sound_server A s' \<and> engine_seen A s' = engine_seen A s \<and>
     use_cnt (power s') = use_cnt (power s) + use_change j i"
  by (cases j rule: stage_count.cases)
    (auto simp: stage_at_def stages_defs use_change_def numeral_eq_Suc less_Suc_eq nth_Cons cleaning_stage
      on_table_stage on_power_stage)

lemma call_stages:
  assumes "readable j" "sound_server A s"
  shows "\<exists>d s'. stage_at A j (call_stage j) (snd j, s) = Some (d, s') \<and> sound_server A s' \<and>
     engine_does A j (engine_seen A s) = (d, engine_seen A s') \<and>
     use_cnt (power s') = use_cnt (power s) + use_change j (call_stage j)"
proof -
  have "stage_at A j (call_stage j) (snd j, s) = calling (\<lambda>_. serve_call A j) (snd j, s)"
    by (cases j rule: stage_count.cases) (simp_all add: stage_at_def stages_defs calling_def)
  moreover have "use_change j (call_stage j) = 0" by (cases j rule: stage_count.cases) (simp_all add: use_change_def)
  ultimately show ?thesis using calling_stage [OF assms(2,1)] by simp
qed

lemma use_changes: "sum (use_change j) {..<stage_count j} = 0"
  by (cases j rule: stage_count.cases) (simp_all add: use_change_def numeral_eq_Suc)

interpretation served: staged_jobs stage_count call_stage "stage_at A" snd readable "sound_server A" "engine_seen A"
  "engine_does A" "\<lambda>s. use_cnt (power s)" use_change for A
proof
  fix j :: msg
  show "call_stage j < stage_count j" by (cases j rule: stage_count.cases) simp_all
qed (rule nth_stages call_stages use_changes; assumption)+

subsection \<open>A handler is its stages\<close>

fun run_stages :: "(nat \<Rightarrow> 'x \<Rightarrow> 'x option) \<Rightarrow> nat \<Rightarrow> nat \<Rightarrow> 'x \<Rightarrow> 'x option" where
  "run_stages f i 0 x = Some x"
| "run_stages f i (Suc n) x = Option.bind (f i x) (run_stages f (Suc i) n)"

lemma run_single:
  "i + n \<le> len j \<Longrightarrow> run_jobs len st (replicate n 0) ([(j, i, d)], s) =
     map_option (\<lambda>(d, s). ([(j, i + n, d)], s)) (run_stages (st j) i n (d, s))"
proof (induction n arbitrary: i d s)
  case (Suc n)
  then show ?case by (cases "st j i (d, s)") (auto simp: job_turn_def)
qed simp

lemma acquire_set_env:
  assumes "clock_apart A"
  shows "ivahd_acquire (bus A) (k\<lparr>hw := set_env A p (hw k)\<rparr>) =
     (ivahd_acquire (bus A) k)\<lparr>hw := set_env A p (hw (ivahd_acquire (bus A) k))\<rparr>"
  using clock_apartD(3) [OF assms, of 100 p "hw k"] by (simp add: ivahd_acquire_def Let_def)

lemma handler_is_stages:
  assumes "clock_apart A"
  shows "handler A f d s = map_option (\<lambda>(d, s). (0, d, s)) (run_stages (stage_at A (f, d)) 0 (stage_count (f, d)) (d, s))"
proof -
  note stage = calling_def on_table_def on_power_def cleaning_def call_defs stage_at_def stages_defs numeral_eq_Suc
  note body = handler_def call_def run_def world_def with_world_def task_set_env_def Let_def
  show ?thesis
  proof (cases f)
    case F_Engine_open
    then show ?thesis by (auto simp: stage body rpc_Engine_open_def split: prod.splits bind_splits)
  next
    case F_Engine_close
    then show ?thesis by (simp add: stage body rpc_Engine_close_def)
  next
    case F_VIDDEC3_create
    then show ?thesis by (auto simp: stage body rpc_VIDDEC3_create_def split: prod.splits bind_splits)
  next
    case F_VIDDEC3_control
    then show ?thesis by (auto simp: stage body rpc_VIDDEC3_control_def split: prod.splits bind_splits)
  next
    case F_VIDDEC3_process
    then show ?thesis
      by (auto simp: stage body rpc_VIDDEC3_process_def entering_def acquire_set_env [OF assms] clock_apartD(1) [OF assms]
          split: prod.splits bind_splits)
  next
    case F_VIDDEC3_delete
    then show ?thesis by (simp add: stage body rpc_VIDDEC3_delete_def)
  qed
qed

text \<open>Served alone, a message is answered by its handler; what that does to the engine.\<close>

lemma alone_is_handler:
  assumes "clock_apart A"
  shows "run_jobs stage_count (stage_at A) (replicate (stage_count (f, d)) 0) (served.begin_jobs [(f, d)], s) =
     map_option (\<lambda>(r, d', s). ([((f, d), stage_count (f, d), d')], s)) (handler A f d s)"
  using run_single [of 0 "stage_count (f, d)" stage_count "(f, d)" "stage_at A" d s]
  by (simp add: served.begin_jobs_def handler_is_stages [OF assms] option.map_comp o_def split_def)

lemma handler_serves:
  assumes "sound_server A s" "readable (f, d)"
  shows "\<exists>d' s'. handler A f d s = Some (0, d', s') \<and> sound_server A s' \<and>
     engine_does A (f, d) (engine_seen A s) = (d', engine_seen A s') \<and> use_cnt (power s') = use_cnt (power s)"
proof -
  let ?j = "(f, d)"
  let ?ord = "call_order [Suc (call_stage ?j)] (replicate (stage_count ?j) 0)"
  have A: "clock_apart A" using assms(1) by (simp add: sound_server_def)
  have count: "count_list (replicate n 0) (0::nat) = n" for n by (induction n) simp_all
  obtain ts s' where run: "run_jobs stage_count (stage_at A) (replicate (stage_count ?j) 0) (served.begin_jobs [?j], s) =
       Some (ts, s')" "sound_server A s'" "use_cnt (power s') = use_cnt (power s)"
    and perf: "perform_all (engine_does A) (map ((!) [?j]) ?ord) (engine_seen A s) = (map (data_at ts) ?ord, engine_seen A s')"
      "distinct ?ord" "set ?ord = {..<1}"
    using served.all_jobs_done [of A s "[?j]" "replicate (stage_count ?j) 0"] assms count by auto
  have "length ?ord = 1" using perf(2,3) distinct_card by fastforce
  then have "?ord = [0]" using perf(3) by (cases ?ord) auto
  then have "engine_does A ?j (engine_seen A s) = (data_at ts 0, engine_seen A s')"
    using perf(1) by (simp split: prod.splits)
  moreover have "\<exists>d'. handler A f d s = Some (0, d', s') \<and> data_at ts 0 = d'"
    using run(1) alone_is_handler [OF A, of f d s] handler_is_stages [OF A, of f d s] by auto
  ultimately show ?thesis using run(2,3) by auto
qed

subsection \<open>Messages served at the same time\<close>

fun serve_all :: "'w ce_api \<Rightarrow> msg list \<Rightarrow> 'w server \<Rightarrow> (bytes list \<times> 'w server) option" where
  "serve_all A [] s = Some ([], s)"
| "serve_all A ((f, d) # ms) s = do {
     (_, d, s) \<leftarrow> handler A f d s;
     (ds, s) \<leftarrow> serve_all A ms s;
     Some (d # ds, s) }"

lemma serve_all_performs:
  assumes "sound_server A s" "\<And>j. j \<in> set ms \<Longrightarrow> readable j"
  shows "\<exists>ds s'. serve_all A ms s = Some (ds, s') \<and> perform_all (engine_does A) ms (engine_seen A s) = (ds, engine_seen A s') \<and>
     use_cnt (power s') = use_cnt (power s)"
  using assms
proof (induction ms arbitrary: s)
  case (Cons j ms)
  obtain f d where j: "j = (f, d)" by (cases j)
  from handler_serves [OF Cons.prems(1)] Cons.prems(2) obtain d' s1 where
    h: "handler A f d s = Some (0, d', s1)" "sound_server A s1"
      "engine_does A (f, d) (engine_seen A s) = (d', engine_seen A s1)" "use_cnt (power s1) = use_cnt (power s)"
    using j by (metis list.set_intros(1))
  from Cons.IH [OF h(2)] Cons.prems(2) h j show ?case by fastforce
qed simp

text \<open>The messages as they come in, and the turns of each up to its call.\<close>

definition received :: "msg list \<Rightarrow> (msg \<times> nat \<times> bytes) list" where
  "received ms = map (\<lambda>j. (j, 0, snd j)) ms"

definition turns_to_call :: "msg list \<Rightarrow> nat list" where
  "turns_to_call ms = map (\<lambda>j. Suc (call_stage j)) ms"

text \<open>
  C2: messages served at the same time are answered as if they had been served one after the other.
  However the stages of their handlers are interleaved, all handlers return, and the answers, the
  memory, the state of the codec engine apart from the clock divider and the environment of the running task, and the
  use count of the accelerator are those of the handlers run as a whole, one by one, in the order
  in which they reach the codec engine. No lock is needed for this. All of the memory is mapped, before
  and after every call of the codec engine, and writing back the cache changes nothing that is seen.
\<close>

theorem concurrent_serving_is_sequential:
  assumes "clock_apart A" "cache_unseen A" "maps_stay A" "full (smem s)"
    and "\<And>j. j \<in> set ms \<Longrightarrow> readable j" "\<And>t. t < length ms \<Longrightarrow> 7 \<le> count_list sched t"
  shows "\<exists>ts s1 ds s2.
     run_jobs stage_count (stage_at A) sched (received ms, s) = Some (ts, s1) \<and>
     (\<forall>t<length ms. \<exists>d. ts ! t = (ms ! t, stage_count (ms ! t), d)) \<and>
     (let ord = call_order (turns_to_call ms) sched in
        distinct ord \<and> set ord = {..<length ms} \<and>
        serve_all A (map ((!) ms) ord) s = Some (ds, s2) \<and> map (data_at ts) ord = ds) \<and>
     smem s1 = smem s2 \<and> rest A (hw (power s1)) = rest A (hw (power s2)) \<and> use_cnt (power s1) = use_cnt (power s2)"
proof -
  let ?ord = "call_order (turns_to_call ms) sched"
  have ok: "sound_server A s" using assms(1-4) by (simp add: sound_server_def)
  have "stage_count j \<le> 7" for j by (cases j rule: stage_count.cases) simp_all
  then have fair: "stage_count (ms ! t) \<le> count_list sched t" if "t < length ms" for t
    using assms(6) [OF that] le_trans by blast
  obtain ts s1 where run: "run_jobs stage_count (stage_at A) sched (received ms, s) = Some (ts, s1)"
      "\<forall>t<length ms. \<exists>d. ts ! t = (ms ! t, stage_count (ms ! t), d)" "use_cnt (power s1) = use_cnt (power s)"
    and perf: "perform_all (engine_does A) (map ((!) ms) ?ord) (engine_seen A s) = (map (data_at ts) ?ord, engine_seen A s1)"
      "distinct ?ord" "set ?ord = {..<length ms}"
    using served.all_jobs_done [OF ok assms(5) fair]
    by (auto simp: received_def turns_to_call_def served.begin_jobs_def)
  have "set (map ((!) ms) ?ord) \<subseteq> set ms" using perf(3) nth_mem by auto
  then have "\<And>j. j \<in> set (map ((!) ms) ?ord) \<Longrightarrow> readable j" using assms(5) by blast
  from serve_all_performs [OF ok this] perf(1) obtain s2 where
    "serve_all A (map ((!) ms) ?ord) s = Some (map (data_at ts) ?ord, s2)" "engine_seen A s1 = engine_seen A s2"
    "use_cnt (power s2) = use_cnt (power s)" by fastforce
  with run perf(2,3) show ?thesis by (auto simp: engine_seen_def Let_def)
qed

text \<open>
  An engine that counts its calls, on an accelerator whose divider is a variable of its own, and two messages to
  process with a message to open in between, all three in work at once.
\<close>

record counting =
  calls_made :: u32
  divider_reg :: u32
  task_env :: u32

definition counting_api :: "counting ce_api" where
  "counting_api = \<lparr>set_env = (\<lambda>p w. w\<lparr>task_env := p\<rparr>),
     ce_open = (\<lambda>n (m, w). ((calls_made w + 1, task_env w), m, w\<lparr>calls_made := calls_made w + 1\<rparr>)),
     ce_close = (\<lambda>e x. x), ce_create = (\<lambda>e n q (m, w). (calls_made w + 1, m, w\<lparr>calls_made := calls_made w + 1\<rparr>)),
     ce_control = (\<lambda>c i q r x. (0, x)),
     ce_process = (\<lambda>c q1 q2 q3 q4 (m, w). (calls_made w + 1, m, w\<lparr>calls_made := calls_made w + 1\<rparr>)),
     ce_delete = (\<lambda>c x. x), cache_wbinv = (\<lambda>q n x. x),
     bus = \<lparr>rd = (\<lambda>a w. (divider_reg w, w)), wr = (\<lambda>a v w. w\<lparr>divider_reg := v\<rparr>)\<rparr>\<rparr>"

definition counting_server :: "counting server" where
  "counting_server = \<lparr>clients = init_clients, smem = (\<lambda>a. Some 0),
     power = \<lparr>use_cnt = 0, hw = \<lparr>calls_made = 0, divider_reg = 0x10e, task_env = 0\<rparr>\<rparr>\<rparr>"

definition three_messages :: "msg list" where
  "three_messages = [(F_VIDDEC3_process, fill_VIDDEC3_process 7 1 8 8 8 8 (replicate 24 0)),
     (F_Engine_open, fill_Engine_open 9 sample_name (replicate 32 0)),
     (F_VIDDEC3_process, fill_VIDDEC3_process 8 1 8 8 8 8 (replicate 24 0))]"

lemma counting_opp:
  "opp counting_api 0 w = w\<lparr>divider_reg := (divider_reg w AND NOT 0x11f) OR 0x10e\<rparr>"
  "opp counting_api 100 w = w\<lparr>divider_reg := (divider_reg w AND NOT 0x11f) OR 7\<rparr>"
  by (simp_all add: counting_api_def set_ivahd_opp_def opp_val_def rmw_def)

lemma counting_clock_apart: "clock_apart counting_api"
proof -
  have mask: "((x AND NOT 0x11f) OR v) AND NOT 0x11f = x AND NOT 0x11f" if "v AND NOT 0x11f = 0" for x v :: u32
    using that by (simp add: bit.conj_disj_distrib2 and.assoc)
  have "(0x10e :: u32) AND NOT 0x11f = 0" "(7 :: u32) AND NOT 0x11f = 0" by simp_all
  note masks = this [THEN mask, simplified]
  show ?thesis
    by (simp add: clock_apart_def clockless_def counting_opp masks) (simp add: counting_api_def split_def)
qed

lemma counting_laws: "cache_unseen counting_api" "maps_stay counting_api" "full (smem counting_server)"
  by (auto simp: cache_unseen_def maps_stay_def full_def counting_api_def counting_server_def split_def)

lemma three_readable: "j \<in> set three_messages \<Longrightarrow> readable j"
  by (auto simp: three_messages_def read_name_Engine_open sample_name_def cstr_ok_def)

lemma concurrent_serving_is_sequential_witness:
  "\<exists>ts s1 ds s2.
     run_jobs stage_count (stage_at counting_api) (concat (replicate 7 [2, 0, 1])) (received three_messages, counting_server) =
       Some (ts, s1) \<and>
     serve_all counting_api (map ((!) three_messages) [1, 2, 0]) counting_server = Some (ds, s2) \<and>
     map (data_at ts) [1, 2, 0] = ds \<and> use_cnt (power s1) = use_cnt (power s2)"
proof -
  let ?sched = "concat (replicate 7 [2, 0, 1]) :: nat list"
  have "7 \<le> count_list ?sched t" if "t < length three_messages" for t
    using that by (auto simp: three_messages_def numeral_eq_Suc less_Suc_eq)
  moreover have "call_order (turns_to_call three_messages) ?sched = [1, 2, 0]"
    by (simp add: turns_to_call_def three_messages_def numeral_eq_Suc)
  ultimately show ?thesis
    using concurrent_serving_is_sequential [OF counting_clock_apart counting_laws, where ms = three_messages and sched = ?sched]
      three_readable by (auto simp: Let_def)
qed

end
