(* ===== verification/Serving_Clock.thy ===== *)
theory Serving_Clock
  imports Concurrent_Serving
begin

text \<open>
  The clock of the accelerator while messages are served at the same time: every turn of a handler is a
  step of the threads of \<^verbatim>\<open>Ivahd\<close> that share it, so that their invariant holds of the server at
  every moment.
\<close>

text \<open>The messages whose handlers are between taking and releasing the accelerator.\<close>

definition at_accelerator :: "(msg \<times> nat \<times> bytes) list \<Rightarrow> nat set" where
  "at_accelerator ts = {t. t < length ts \<and> fst (fst (ts ! t)) = F_VIDDEC3_process \<and> fst (snd (ts ! t)) \<in> {1, 2}}"

text \<open>Neither the codec engine nor setting the environment of a task stores to the register of the divider.\<close>

definition divider_kept :: "'w ce_api \<Rightarrow> bool" where
  "divider_kept A \<longleftrightarrow> (let clk = (\<lambda>w. fst (rd (bus A) CM_DIV_M5_DPLL_IVA w)) in
     (\<forall>p w. clk (set_env A p w) = clk w) \<and>
     (\<forall>m w. (\<forall>n. clk (snd (snd (ce_open A n (m, w)))) = clk w) \<and> (\<forall>e. clk (snd (ce_close A e (m, w))) = clk w) \<and>
       (\<forall>e n q. clk (snd (snd (ce_create A e n q (m, w)))) = clk w) \<and>
       (\<forall>c i q r. clk (snd (snd (ce_control A c i q r (m, w)))) = clk w) \<and>
       (\<forall>c p q r t. clk (snd (snd (ce_process A c p q r t (m, w)))) = clk w) \<and>
       (\<forall>c. clk (snd (ce_delete A c (m, w))) = clk w)))"

lemma serve_call_keeps_divider:
  assumes "divider_kept A" "serve_call A j (m, w) = Some (d, m', w')"
  shows "fst (rd (bus A) CM_DIV_M5_DPLL_IVA w') = fst (rd (bus A) CM_DIV_M5_DPLL_IVA w)"
  using assms unfolding divider_kept_def Let_def
  by (cases j rule: stage_count.cases) (auto simp: call_defs Let_def split: prod.splits bind_splits, (metis snd_conv)+)

text \<open>A state of the accelerator that differs in the hardware only, and not in the divider.\<close>

definition only_hw :: "'w ce_api \<Rightarrow> 'w power \<Rightarrow> 'w power \<Rightarrow> bool" where
  "only_hw A k k' \<longleftrightarrow> (\<exists>h. k' = k\<lparr>hw := h\<rparr> \<and>
     fst (rd (bus A) CM_DIV_M5_DPLL_IVA h) = fst (rd (bus A) CM_DIV_M5_DPLL_IVA (hw k)))"

lemma only_hw_refl [simp]: "only_hw A k k"
  by (auto simp: only_hw_def intro!: exI [of _ "hw k"])

lemma calling_power:
  assumes "divider_kept A" "calling (\<lambda>d. serve_call A j) (d, s) = Some (d', s')"
  shows "only_hw A (power s) (power s')"
proof -
  obtain m w where "serve_call A j (world s) = Some (d', m, w)" "s' = with_world (m, w) s"
    using assms(2) by (auto simp: calling_def bind_eq_Some_conv)
  moreover from this(1) have "fst (rd (bus A) CM_DIV_M5_DPLL_IVA w) = fst (rd (bus A) CM_DIV_M5_DPLL_IVA (hw (power s)))"
    unfolding world_def by (rule serve_call_keeps_divider [OF assms(1)])
  ultimately show ?thesis by (auto simp: only_hw_def with_world_def)
qed

lemma stage_shares:
  assumes "sound_server A s" "divider_kept A" "i < stage_count j" "stage_at A j i (d, s) = Some (d', s')"
    and "i = call_stage j \<Longrightarrow> d = snd j"
  shows "\<exists>k. only_hw A (power s) k \<and> power s' =
     (if fst j = F_VIDDEC3_process \<and> i = 0 then ivahd_acquire (bus A) k
      else if fst j = F_VIDDEC3_process \<and> i = 2 then ivahd_release (bus A) k else k)"
proof (cases "i = call_stage j")
  case True
  have "stage_at A j i (d, s) = calling (\<lambda>_. serve_call A j) (d, s)"
    using assms(5) True by (cases j rule: stage_count.cases) (simp_all add: stage_at_def stages_defs calling_def)
  moreover have "\<not> (fst j = F_VIDDEC3_process \<and> (i = 0 \<or> i = 2))"
    using True by (cases j rule: stage_count.cases) simp_all
  ultimately show ?thesis using calling_power [OF assms(2), of j d s d' s'] assms(4) by auto
next
  case False
  have env: "only_hw A k (k\<lparr>hw := set_env A p (hw k)\<rparr>)" for k p
    using assms(2) by (auto simp: only_hw_def divider_kept_def Let_def)
  show ?thesis
    using assms(3,4) False
    by (cases j rule: stage_count.cases)
      (auto simp: stage_at_def stages_defs numeral_eq_Suc less_Suc_eq nth_Cons cleaning_stage [OF assms(1)]
        on_table_def on_power_def entering_def, (metis env only_hw_refl)+)
qed

lemma at_accelerator_turn:
  assumes "t < length ts" "ts ! t = (j, i, d)"
  shows "at_accelerator (ts[t := (j, Suc i, d')]) =
     (if fst j = F_VIDDEC3_process \<and> i = 0 then insert t (at_accelerator ts)
      else if fst j = F_VIDDEC3_process \<and> i = 2 then at_accelerator ts - {t} else at_accelerator ts)"
    "fst j = F_VIDDEC3_process \<Longrightarrow> i = 0 \<Longrightarrow> t \<notin> at_accelerator ts"
    "fst j = F_VIDDEC3_process \<Longrightarrow> i = 2 \<Longrightarrow> t \<in> at_accelerator ts"
  using assms by (auto simp: at_accelerator_def nth_list_update)

lemma turn_shares:
  assumes "served.fits A (ts, s)" "divider_kept A" "length ts \<le> 3"
  shows "\<exists>ts' s'. job_turn stage_count (stage_at A) t (ts, s) = Some (ts', s') \<and> served.fits A (ts', s') \<and>
     length ts' = length ts \<and> (\<exists>k. sharing_step (bus A) (power s, at_accelerator ts) (k, at_accelerator ts) \<and>
       sharing_step (bus A) (k, at_accelerator ts) (power s', at_accelerator ts'))"
proof (cases "t < length ts \<and> fst (snd (ts ! t)) < stage_count (fst (ts ! t))")
  case False
  have "sharing_step (bus A) (power s, at_accelerator ts) ((power s)\<lparr>hw := hw (power s)\<rparr>, at_accelerator ts)"
    by (rule sharing_step.other) simp
  then show ?thesis using served.turn_idle(1) [OF False assms(1)] assms(1) by auto
next
  case True
  then obtain j i d where t: "t < length ts" "ts ! t = (j, i, d)" "i < stage_count j" by (cases "ts ! t") auto
  obtain d' s' where w: "job_turn stage_count (stage_at A) t (ts, s) = Some (ts[t := (j, Suc i, d')], s')"
    "served.fits A (ts[t := (j, Suc i, d')], s')" using served.turn_works [OF t assms(1)] by blast
  have "(j, i, d) \<in> set ts" using t nth_mem by metis
  then have "sound_server A s" "i = call_stage j \<Longrightarrow> d = snd j" using assms(1) by (auto simp: served.fits_def)
  moreover have "stage_at A j i (d, s) = Some (d', s')"
    using w(1) t by (auto simp: job_turn_def bind_eq_Some_conv) (metis nth_list_update_eq prod.inject)
  ultimately obtain k where k: "only_hw A (power s) k" "power s' =
     (if fst j = F_VIDDEC3_process \<and> i = 0 then ivahd_acquire (bus A) k
      else if fst j = F_VIDDEC3_process \<and> i = 2 then ivahd_release (bus A) k else k)"
    using stage_shares [OF _ assms(2) t(3)] by blast
  have 1: "sharing_step (bus A) (power s, at_accelerator ts) (k, at_accelerator ts)"
    using k(1) by (auto simp: only_hw_def intro!: sharing_step.intros)
  have same: "sharing_step (bus A) (k, b) (k, b)" for b
    using sharing_step.other [of "bus A" "hw k" k b] by simp
  have 2: "sharing_step (bus A) (k, at_accelerator ts) (power s', at_accelerator (ts[t := (j, Suc i, d')]))"
    using k(2) at_accelerator_turn [OF t(1,2)] t(1) assms(3) same
    by (auto split: if_splits intro!: sharing_step.intros(1,2))
  from w 1 2 show ?thesis by auto
qed

lemma run_shares:
  assumes "served.fits A (ts, s)" "divider_kept A" "length ts \<le> 3"
    and "sharing_reach (bus A) h0 (power s, at_accelerator ts)"
  shows "\<exists>ts' s'. run_jobs stage_count (stage_at A) sched (ts, s) = Some (ts', s') \<and>
     sharing_reach (bus A) h0 (power s', at_accelerator ts')"
  using assms(1,3,4)
proof (induction sched arbitrary: ts s)
  case (Cons t sched)
  from turn_shares [OF Cons.prems(1) assms(2) Cons.prems(2), of t] obtain ts1 s1 where
    w: "job_turn stage_count (stage_at A) t (ts, s) = Some (ts1, s1)" "served.fits A (ts1, s1)" "length ts1 \<le> 3"
    and k: "\<exists>k. sharing_step (bus A) (power s, at_accelerator ts) (k, at_accelerator ts) \<and>
        sharing_step (bus A) (k, at_accelerator ts) (power s1, at_accelerator ts1)"
    using Cons.prems(2) by (metis (no_types, lifting))
  from k Cons.prems(3) have "sharing_reach (bus A) h0 (power s1, at_accelerator ts1)"
    by (blast intro: sharing_reach.step)
  from Cons.IH [OF w(2,3) this] w(1) show ?case by simp
qed auto

text \<open>
  C10: at every moment while up to three messages are served at the same time, one for each worker, the
  use count of the accelerator is the number of process requests between taking and releasing it,
  and the clock divider is at the full-speed setting exactly while there is one and at the off
  setting otherwise; the other bits of the register are never changed. All of the memory is mapped,
  before and after every call of the codec engine, which leaves the divider alone.
\<close>

theorem clock_runs_while_processing:
  assumes "cache_unseen A" "maps_stay A" "clock_apart A" "divider_kept A" "plain_reg (bus A) CM_DIV_M5_DPLL_IVA"
    and "full (smem s)" "power s = \<lparr>use_cnt = 0, hw = set_ivahd_opp (bus A) 0 h0\<rparr>"
    and "length ms \<le> 3" "\<And>j. j \<in> set ms \<Longrightarrow> readable j"
  shows "\<exists>ts s'. run_jobs stage_count (stage_at A) sched (received ms, s) = Some (ts, s') \<and>
     use_cnt (power s') = of_nat (card (at_accelerator ts)) \<and>
     divider (bus A) (hw (power s')) = (if at_accelerator ts = {} then 0x010e else 0x0007) \<and>
     other_bits (bus A) (hw (power s')) = other_bits (bus A) h0"
proof -
  have "sound_server A s" using assms by (simp add: sound_server_def)
  then have "served.fits A (received ms, s)"
    using served.begin_fits [of A s ms] assms(9) by (simp add: received_def served.begin_jobs_def)
  moreover have "at_accelerator (received ms) = {}" by (auto simp: at_accelerator_def received_def)
  then have "sharing_reach (bus A) h0 (power s, at_accelerator (received ms))"
    using sharing_reach.start [of "bus A" h0] assms(7) by simp
  moreover have "length (received ms) \<le> 3" using assms(8) by (simp add: received_def)
  ultimately obtain ts s' where "run_jobs stage_count (stage_at A) sched (received ms, s) = Some (ts, s')"
      "sharing_reach (bus A) h0 (power s', at_accelerator ts)"
    using run_shares [OF _ assms(4)] by blast
  then show ?thesis using sharing_reach_inv [OF _ assms(5)] by (force simp: sharing_inv_def)
qed

lemma counting_divider:
  "divider_kept counting_api" "plain_reg (bus counting_api) CM_DIV_M5_DPLL_IVA"
  "power counting_server = \<lparr>use_cnt = 0, hw = opp counting_api 0 (hw (power counting_server))\<rparr>"
  by (simp_all add: counting_opp) (auto simp: divider_kept_def plain_reg_def counting_api_def counting_server_def split_def)

lemma clock_runs_while_processing_witness:
  "\<exists>ts s'. run_jobs stage_count (stage_at counting_api) [0, 2] (received three_messages, counting_server) = Some (ts, s') \<and>
     divider (bus counting_api) (hw (power s')) = 0x0007 \<and> use_cnt (power s') = 2"
proof -
  have "length three_messages \<le> 3" by (simp add: three_messages_def)
  then obtain ts s' where run: "run_jobs stage_count (stage_at counting_api) [0, 2] (received three_messages, counting_server) =
      Some (ts, s')"
    and p: "use_cnt (power s') = of_nat (card (at_accelerator ts))"
      "divider (bus counting_api) (hw (power s')) = (if at_accelerator ts = {} then 0x010e else 0x0007)"
    using clock_runs_while_processing [OF counting_laws(1,2) counting_clock_apart counting_divider(1,2) counting_laws(3)
        counting_divider(3), of three_messages] three_readable by blast
  have "at_accelerator ts = {0, 2}"
    using run by (auto simp: job_turn_def received_def three_messages_def stage_at_def stages_defs on_power_def at_accelerator_def
        numeral_eq_Suc less_Suc_eq)
  with run p show ?thesis by simp
qed

end
