(* ===== verification/Server_Resources.thy ===== *)
theory Server_Resources
  imports Dce_System
begin

text \<open>
  The server of \<^verbatim>\<open>dce.c\<close> over its whole life: messages of any clients and deaths of clients, in any
  order, against a codec engine that keeps its documented contract. The engine's side is a
  ledger of the handles it has given out; the table is shown to agree with it in every
  state, so that no handle is leaked, closed twice or closed too early.
\<close>

subsection \<open>The codec engine\<close>

text \<open>The engines that are open, the codecs that exist, and the engine each was created on.\<close>

record ledger =
  engines_open :: "u32 multiset"
  codecs_live :: "u32 multiset"
  on_engine :: "u32 \<Rightarrow> u32"

text \<open>
  The contract of \<^verbatim>\<open>Engine.h\<close> and \<^verbatim>\<open>viddec3.h\<close>: a handle that is not \<open>NULL\<close> is new; an engine is
  closed when it is open and no codec on it exists; a codec is deleted when it exists; nothing
  else opens or closes anything.
\<close>

definition keeps_contract :: "'w ce_api \<Rightarrow> ('w \<Rightarrow> ledger) \<Rightarrow> bool" where
  "keeps_contract A G \<longleftrightarrow>
     (\<forall>p w. G (set_env A p w) = G w) \<and>
     (\<forall>n m w h ec m' w'. ce_open A n (m, w) = ((h, ec), m', w') \<longrightarrow>
        (if h = 0 then G w' = G w
         else h \<notin># engines_open (G w) \<and> G w' = (G w)\<lparr>engines_open := add_mset h (engines_open (G w))\<rparr>)) \<and>
     (\<forall>h m w. h \<in># engines_open (G w) \<longrightarrow> (\<forall>c\<in>#codecs_live (G w). on_engine (G w) c \<noteq> h) \<longrightarrow>
        G (snd (ce_close A h (m, w))) = (G w)\<lparr>engines_open := engines_open (G w) - {#h#}\<rparr>) \<and>
     (\<forall>e n q m w c m' w'. ce_create A e n q (m, w) = (c, m', w') \<longrightarrow> e \<in># engines_open (G w) \<longrightarrow>
        (if c = 0 then G w' = G w
         else c \<notin># codecs_live (G w) \<and>
           G w' = (G w)\<lparr>codecs_live := add_mset c (codecs_live (G w)), on_engine := (on_engine (G w))(c := e)\<rparr>)) \<and>
     (\<forall>c m w. c \<in># codecs_live (G w) \<longrightarrow>
        G (snd (ce_delete A c (m, w))) = (G w)\<lparr>codecs_live := codecs_live (G w) - {#c#}\<rparr>) \<and>
     (\<forall>c i q q' mw. G (snd (snd (ce_control A c i q q' mw))) = G (snd mw)) \<and>
     (\<forall>c ib ob ia oa mw. G (snd (snd (ce_process A c ib ob ia oa mw))) = G (snd mw)) \<and>
     (\<forall>p n mw. G (snd (cache_wbinv A p n mw)) = G (snd mw)) \<and>
     (\<forall>a h. G (snd (rd (bus A) a h)) = G h) \<and> (\<forall>a v h. G (wr (bus A) a v h) = G h)"

lemma contract:
  assumes "keeps_contract A G"
  shows "G (set_env A p w) = G w"
    and "ce_open A n (m, w) = ((h, ec), m', w') \<Longrightarrow> if h = 0 then G w' = G w
         else h \<notin># engines_open (G w) \<and> G w' = (G w)\<lparr>engines_open := add_mset h (engines_open (G w))\<rparr>"
    and "h \<in># engines_open (G w) \<Longrightarrow> \<forall>c\<in>#codecs_live (G w). on_engine (G w) c \<noteq> h \<Longrightarrow>
        G (snd (ce_close A h (m, w))) = (G w)\<lparr>engines_open := engines_open (G w) - {#h#}\<rparr>"
    and "ce_create A e n q (m, w) = (c, m', w') \<Longrightarrow> e \<in># engines_open (G w) \<Longrightarrow>
        if c = 0 then G w' = G w
         else c \<notin># codecs_live (G w) \<and>
           G w' = (G w)\<lparr>codecs_live := add_mset c (codecs_live (G w)), on_engine := (on_engine (G w))(c := e)\<rparr>"
    and "c \<in># codecs_live (G w) \<Longrightarrow>
        G (snd (ce_delete A c (m, w))) = (G w)\<lparr>codecs_live := codecs_live (G w) - {#c#}\<rparr>"
    and "G (snd (snd (ce_control A c i q q' mw))) = G (snd mw)"
    and "G (snd (snd (ce_process A c ib ob ia oa mw))) = G (snd mw)"
    and "G (snd (cache_wbinv A p k mw)) = G (snd mw)"
    and "G (snd (rd (bus A) a w)) = G w" and "G (wr (bus A) a v w) = G w"
  using assms unfolding keeps_contract_def by metis+

subsection \<open>All handles of the table\<close>

definition all_of :: "(client \<Rightarrow> u32 multiset) \<Rightarrow> table \<Rightarrow> u32 multiset" where
  "all_of f cl = (\<Sum>c\<leftarrow>cl. f c)"

lemma all_of_update:
  "i < length cl \<Longrightarrow> all_of f (cl[i := c]) + f (cl ! i) = all_of f cl + f c"
proof (induction cl arbitrary: i)
  case (Cons x cl)
  then show ?case by (cases i) (simp_all add: all_of_def ac_simps)
qed simp

lemma all_of_add:
  "i < length cl \<Longrightarrow> f c = add_mset h (f (cl ! i)) \<Longrightarrow> all_of f (cl[i := c]) = add_mset h (all_of f cl)"
  using all_of_update [of i cl f c] by simp

lemma all_of_same: "i < length cl \<Longrightarrow> f c = f (cl ! i) \<Longrightarrow> all_of f (cl[i := c]) = all_of f cl"
  using all_of_update [of i cl f c] by simp

lemma in_all_of: "h \<in># all_of f cl \<longleftrightarrow> (\<exists>c\<in>set cl. h \<in># f c)"
  by (induction cl) (auto simp: all_of_def)

lemma all_of_drop:
  assumes "i < length cl" "h \<in># f (cl ! i)" "f c = f (cl ! i) - {#h#}"
  shows "all_of f (cl[i := c]) = all_of f cl - {#h#}"
proof -
  from assms(2) obtain M where M: "f (cl ! i) = add_mset h M" by (metis multi_member_split)
  with assms(3) all_of_update [OF assms(1), of f c] have "add_mset h (all_of f (cl[i := c])) + M = all_of f cl + M"
    by simp
  then have "add_mset h (all_of f (cl[i := c])) = all_of f cl" by (simp only: add_right_cancel)
  then show ?thesis by (metis add_mset_remove_trivial)
qed

text \<open>A handle recorded once in the table is recorded in one entry.\<close>

lemma all_of_once:
  "count (all_of f cl) h \<le> 1 \<Longrightarrow> i < length cl \<Longrightarrow> j < length cl \<Longrightarrow> h \<in># f (cl ! i) \<Longrightarrow> h \<in># f (cl ! j) \<Longrightarrow> i = j"
proof (induction cl arbitrary: i j)
  case (Cons x cl)
  have c: "count (f x) h + count (all_of f cl) h \<le> 1" using Cons.prems(1) by (simp add: all_of_def)
  have no: "\<not> (h \<in># f x \<and> k < length cl \<and> h \<in># f (cl ! k))" for k
  proof
    assume k: "h \<in># f x \<and> k < length cl \<and> h \<in># f (cl ! k)"
    then have "h \<in># all_of f cl" by (auto simp: in_all_of intro: bexI [of _ "cl ! k"])
    with k have "0 < count (f x) h" "0 < count (all_of f cl) h" by simp_all
    with c show False by simp
  qed
  have "count (all_of f cl) h \<le> 1" using c by simp
  note IH = Cons.IH [OF this]
  show ?case using Cons.prems(2-5) no IH by (cases i; cases j) auto
qed simp

lemma all_of_init [simp]: "all_of engines_of init_clients = {#}" "all_of codecs_of init_clients = {#}"
proof -
  have "(\<Sum>c\<leftarrow>replicate n free_client. f c) = {#}" if "f free_client = {#}" for n and f :: "client \<Rightarrow> u32 multiset"
    using that by (induction n) simp_all
  then show "all_of engines_of init_clients = {#}" "all_of codecs_of init_clients = {#}"
    by (simp_all add: all_of_def init_clients_def) (simp_all add: free_client_def)
qed

subsection \<open>The table and the ledger\<close>

abbreviation ghost :: "('w \<Rightarrow> ledger) \<Rightarrow> 'w server \<Rightarrow> ledger" where
  "ghost G s \<equiv> G (hw (power s))"

text \<open>
  The handles of the table are those of the ledger, each engine is recorded once, and a codec is
  recorded together with the engine it was created on.
\<close>

definition agrees :: "table \<Rightarrow> ledger \<Rightarrow> bool" where
  "agrees cl l \<longleftrightarrow> table_inv cl \<and> engines_open l = all_of engines_of cl \<and> codecs_live l = all_of codecs_of cl \<and>
     (\<forall>h. count (engines_open l) h \<le> 1) \<and>
     (\<forall>c\<in>set cl. \<forall>h\<in>#codecs_of c. on_engine l h \<in># engines_of c)"

definition in_step :: "('w \<Rightarrow> ledger) \<Rightarrow> 'w server \<Rightarrow> bool" where
  "in_step G s \<longleftrightarrow> agrees (clients s) (ghost G s)"

lemma agreesD:
  assumes "agrees cl l"
  shows "table_inv cl" "engines_open l = all_of engines_of cl" "codecs_live l = all_of codecs_of cl"
    "count (engines_open l) h \<le> 1" "c \<in> set cl \<Longrightarrow> k \<in># codecs_of c \<Longrightarrow> on_engine l k \<in># engines_of c"
  using assms by (auto simp: agrees_def)

text \<open>One entry and the ledger change together.\<close>

lemma agrees_update:
  assumes "agrees cl l" "i < length cl" "table_inv (cl[i := c])"
    and "engines_open l' = all_of engines_of (cl[i := c])" "codecs_live l' = all_of codecs_of (cl[i := c])"
    and "\<And>h. count (engines_open l') h \<le> 1" "\<And>k. k \<in># codecs_of c \<Longrightarrow> on_engine l' k \<in># engines_of c"
    and "\<And>k. k \<in># codecs_live l \<Longrightarrow> on_engine l' k = on_engine l k"
  shows "agrees (cl[i := c]) l'"
proof -
  have "on_engine l' k \<in># engines_of d" if d: "d \<in> set (cl[i := c])" "k \<in># codecs_of d" for d k
  proof (cases "d = c")
    case True
    then show ?thesis using d(2) assms(7) by simp
  next
    case False
    with d(1) have "d \<in> set cl" by (auto dest: set_update_subset_insert [THEN subsetD])
    with agreesD(3,5) [OF assms(1)] assms(8) [of k] d(2) show ?thesis by (metis in_all_of)
  qed
  with assms(3-6) show ?thesis unfolding agrees_def by blast
qed

lemma agrees_register_engine:
  fixes pid :: u32
  assumes "agrees cl l" "h \<noteq> 0" "pid \<noteq> 0" "room_for_engine cl pid" "get_client cl pid \<noteq> None \<or> get_client cl 0 \<noteq> None"
    and "h \<notin># engines_open l"
  shows "agrees (dce_register_engine cl pid h) (l\<lparr>engines_open := add_mset h (engines_open l)\<rparr>)"
proof -
  note inv = agreesD [OF assms(1)]
  obtain i c where i: "i < length cl" "dce_register_engine cl pid h = cl[i := c]"
    "engines_of c = add_mset h (engines_of (cl ! i))" "codecs_of c = codecs_of (cl ! i)"
  proof (cases "get_client cl pid")
    case (Some i)
    note at = client_at [OF inv(1) Some]
    have "engines_of (add_engine h (cl ! i)) = add_mset h (engines_of (cl ! i))"
      using engs.add_room [of "cl ! i" h] at(1) assms(2,4) Some by (simp add: client_inv_def room_for_engine_def)
    with Some at that show ?thesis by (simp add: dce_register_engine_def)
  next
    case None
    with assms(5) obtain i where Some: "get_client cl 0 = Some i" by auto
    note at = client_at [OF inv(1) Some]
    have "engines_of (cl ! i) = {#}" "codecs_of (cl ! i) = {#}" using at by (simp_all add: client_inv_def)
    with new_client_entry [OF at(1,2) assms(2), of pid] None Some at that show ?thesis
      by (simp add: dce_register_engine_def)
  qed
  have "agrees (cl[i := c]) (l\<lparr>engines_open := add_mset h (engines_open l)\<rparr>)"
  proof (rule agrees_update [OF assms(1) i(1)])
    show "count (engines_open (l\<lparr>engines_open := add_mset h (engines_open l)\<rparr>)) k \<le> 1" for k
      using assms(6) inv(4) [of k] by (cases "h = k") (simp_all add: not_in_iff)
    show "table_inv (cl[i := c])" using register_engine_inv [OF inv(1) assms(2-4)] i(2) by simp
    show "on_engine (l\<lparr>engines_open := add_mset h (engines_open l)\<rparr>) k \<in># engines_of c" if "k \<in># codecs_of c" for k
      using that i(1) inv(5) [of "cl ! i" k] unfolding i(3,4) by simp
  qed (simp_all add: inv(2,3) all_of_add [where f = engines_of, OF i(1,3)] all_of_same [where f = codecs_of, OF i(1,4)])
  then show ?thesis by (simp only: i(2))
qed

lemma agrees_register_codec:
  fixes pid :: u32
  assumes "agrees cl l" "h \<noteq> 0" "pid \<noteq> 0" "room_for_codec cl pid" "has_engine cl pid e" "h \<notin># codecs_live l"
  shows "agrees (dce_register_codec cl pid h)
    (l\<lparr>codecs_live := add_mset h (codecs_live l), on_engine := (on_engine l)(h := e)\<rparr>)"
proof -
  note inv = agreesD [OF assms(1)]
  obtain i where Some: "get_client cl pid = Some i" and e: "e \<in># engines_of (cl ! i)"
    using assms(5) by (auto simp: has_engine_def split: option.splits)
  note at = client_at [OF inv(1) Some]
  let ?c = "add_codec h (cl ! i)"
  have c: "codecs_of ?c = add_mset h (codecs_of (cl ! i))" "engines_of ?c = engines_of (cl ! i)"
    using cdcs.add_room [of "cl ! i" h] at(1) assms(2,4) Some by (simp_all add: client_inv_def room_for_codec_def)
  let ?l = "l\<lparr>codecs_live := add_mset h (codecs_live l), on_engine := (on_engine l)(h := e)\<rparr>"
  have "agrees (cl[i := ?c]) ?l"
  proof (rule agrees_update [OF assms(1) at(3)])
    show "table_inv (cl[i := ?c])"
      using register_codec_inv [OF inv(1) assms(2-4)] Some by (simp add: dce_register_codec_def)
    show "on_engine ?l k \<in># engines_of ?c" if "k \<in># codecs_of ?c" for k
      using that e at(3) inv(5) [of "cl ! i" k] unfolding c by (cases "k = h") simp_all
    show "on_engine ?l k = on_engine l k" if "k \<in># codecs_live l" for k using that assms(6) by auto
  qed (simp_all add: inv(2,3) all_of_add [where f = codecs_of, OF at(3) c(1)]
      all_of_same [where f = engines_of, OF at(3) c(2)] inv(4) [unfolded inv(2), simplified])
  then show ?thesis using Some by (simp add: dce_register_codec_def)
qed

lemma agrees_unregister_engine:
  fixes pid :: u32
  assumes "agrees cl l" "pid \<noteq> 0" "has_engine cl pid h"
    and "\<And>i k. get_client cl pid = Some i \<Longrightarrow> k \<in># codecs_of (cl ! i) \<Longrightarrow> on_engine l k \<noteq> h"
  shows "agrees (dce_unregister_engine cl pid h) (l\<lparr>engines_open := engines_open l - {#h#}\<rparr>)"
    and "h \<in># engines_open l" "\<forall>k\<in>#codecs_live l. on_engine l k \<noteq> h"
proof -
  note inv = agreesD [OF assms(1)]
  obtain i where Some: "get_client cl pid = Some i" and h: "h \<in># engines_of (cl ! i)"
    using assms(3) by (auto simp: has_engine_def split: option.splits)
  note at = client_at [OF inv(1) Some]
  show "h \<in># engines_open l" using h at(3) inv(2) by (auto simp: in_all_of intro!: bexI [of _ "cl ! i"])
  show "\<forall>k\<in>#codecs_live l. on_engine l k \<noteq> h"
  proof (intro ballI notI)
    fix k
    assume "k \<in># codecs_live l" and on: "on_engine l k = h"
    then obtain j where j: "j < length cl" "k \<in># codecs_of (cl ! j)"
      using inv(3) unfolding in_all_of by (metis in_all_of in_set_conv_nth)
    with inv(5) [of "cl ! j" k] on have "h \<in># engines_of (cl ! j)" by simp
    from all_of_once [OF _ j(1) at(3) this h] inv(2,4) have "j = i" by metis
    with assms(4) [OF Some, of k] j(2) on show False by simp
  qed
  let ?c = "drop_engine h (cl ! i)"
  have c: "engines_of ?c = engines_of (cl ! i) - {#h#}" "codecs_of ?c = codecs_of (cl ! i)"
    by (simp_all add: owned_drop)
  let ?l = "l\<lparr>engines_open := engines_open l - {#h#}\<rparr>"
  have "agrees (cl[i := ?c]) ?l"
  proof (rule agrees_update [OF assms(1) at(3)])
    show "table_inv (cl[i := ?c])"
      using unregister_engine_inv [OF inv(1) assms(2,3)] Some by (simp add: dce_unregister_engine_def)
    show "count (engines_open ?l) k \<le> 1" for k using inv(4) [of k] by (simp add: le_diff_conv)
    show "on_engine ?l k \<in># engines_of ?c" if "k \<in># codecs_of ?c" for k
    proof -
      have "k \<in># codecs_of (cl ! i)" using that c(2) by simp
      with inv(5) [of "cl ! i" k] assms(4) [OF Some] at(3) have "on_engine l k \<in># engines_of (cl ! i)" "on_engine l k \<noteq> h"
        by simp_all
      then show ?thesis unfolding c by (simp add: in_diff_count)
    qed
  qed (simp_all add: inv(2,3) all_of_drop [where f = engines_of, OF at(3) h c(1)]
      all_of_same [where f = codecs_of, OF at(3) c(2)])
  then show "agrees (dce_unregister_engine cl pid h) ?l" using Some by (simp add: dce_unregister_engine_def)
qed

lemma agrees_unregister_codec:
  fixes pid :: u32
  assumes "agrees cl l" "pid \<noteq> 0" "has_codec cl pid h"
  shows "agrees (dce_unregister_codec cl pid h) (l\<lparr>codecs_live := codecs_live l - {#h#}\<rparr>)"
    and "h \<in># codecs_live l"
proof -
  note inv = agreesD [OF assms(1)]
  obtain i where Some: "get_client cl pid = Some i" and h: "h \<in># codecs_of (cl ! i)"
    using assms(3) by (auto simp: has_codec_def split: option.splits)
  note at = client_at [OF inv(1) Some]
  show "h \<in># codecs_live l" using h at(3) inv(3) by (auto simp: in_all_of intro!: bexI [of _ "cl ! i"])
  let ?c = "drop_codec h (cl ! i)"
  have c: "codecs_of ?c = codecs_of (cl ! i) - {#h#}" "engines_of ?c = engines_of (cl ! i)"
    by (simp_all add: owned_drop)
  let ?l = "l\<lparr>codecs_live := codecs_live l - {#h#}\<rparr>"
  have "agrees (cl[i := ?c]) ?l"
  proof (rule agrees_update [OF assms(1) at(3)])
    show "table_inv (cl[i := ?c])"
      using unregister_codec_inv [OF inv(1) assms(2,3)] Some by (simp add: dce_unregister_codec_def)
    show "on_engine ?l k \<in># engines_of ?c" if "k \<in># codecs_of ?c" for k
      using that at(3) inv(5) [of "cl ! i" k] unfolding c by (auto dest: in_diffD)
  qed (simp_all add: inv(2,3) all_of_drop [where f = codecs_of, OF at(3) h c(1)]
      all_of_same [where f = engines_of, OF at(3) c(2)] inv(4) [unfolded inv(2), simplified])
  then show "agrees (dce_unregister_codec cl pid h) ?l" using Some by (simp add: dce_unregister_codec_def)
qed

subsection \<open>The handlers\<close>

lemma ghost_frame:
  assumes "keeps_contract A G"
  shows "ghost G (task_set_env A p s) = ghost G s"
    and "clean A p s = Some s' \<Longrightarrow> ghost G s' = ghost G s"
    and "G (hw (ivahd_acquire (bus A) w)) = G (hw w)" "G (hw (ivahd_release (bus A) w)) = G (hw w)"
proof -
  note c = contract [OF assms]
  show "ghost G (task_set_env A p s) = ghost G s" by (simp add: c(1))
  show "clean A p s = Some s' \<Longrightarrow> ghost G s' = ghost G s"
    by (auto simp: clean_def run_def c(8) world_def split: option.splits)
  have opp: "G (set_ivahd_opp (bus A) opp h) = G h" for opp h
    by (auto simp: set_ivahd_opp_def rmw_def c(9,10) split: option.splits prod.splits)
       (metis c(9) snd_conv)
  then show "G (hw (ivahd_acquire (bus A) w)) = G (hw w)" "G (hw (ivahd_release (bus A) w)) = G (hw w)"
    by (simp_all add: ivahd_acquire_def ivahd_release_def Let_def)
qed

lemma in_step_delete:
  fixes pid :: u32
  assumes "keeps_contract A G" "in_step G s" "pid \<noteq> 0" "has_codec (clients s) pid h"
  shows "in_step G (delete_step A pid h s)"
proof -
  note u = agrees_unregister_codec [OF assms(2) [unfolded in_step_def] assms(3,4)]
  have "ghost G (delete_step A pid h s) = (ghost G s)\<lparr>codecs_live := codecs_live (ghost G s) - {#h#}\<rparr>"
    using contract(5) [OF assms(1), of h "set_env A pid (hw (power s))"] u(2)
    by (simp add: delete_step_def run_def world_def contract(1) [OF assms(1)])
  with u(1) show ?thesis by (simp add: in_step_def)
qed

lemma in_step_close:
  fixes pid :: u32
  assumes "keeps_contract A G" "in_step G s" "pid \<noteq> 0" "has_engine (clients s) pid h"
    and "\<And>i k. get_client (clients s) pid = Some i \<Longrightarrow> k \<in># codecs_of (clients s ! i) \<Longrightarrow> on_engine (ghost G s) k \<noteq> h"
  shows "in_step G (close_step A pid h s)"
proof -
  note u = agrees_unregister_engine [OF assms(2) [unfolded in_step_def] assms(3,4)] 
  have "ghost G (close_step A pid h s) = (ghost G s)\<lparr>engines_open := engines_open (ghost G s) - {#h#}\<rparr>"
    using contract(3) [OF assms(1), of h "set_env A pid (hw (power s))"] u(2,3) assms(5)
    by (simp add: close_step_def run_def world_def contract(1) [OF assms(1)])
  with u(1) assms(5) show ?thesis by (simp add: in_step_def)
qed

text \<open>A message as it arrives at the server, or the death of a process.\<close>

datatype request = Message fxn bytes | Obituary u32

fun serve :: "'w ce_api \<Rightarrow> request \<Rightarrow> 'w server \<Rightarrow> 'w server option" where
  "serve A (Message f d) s = map_option (\<lambda>(_, _, s'). s') (handler A f d s)"
| "serve A (Obituary p) s = dce_cleanup_cb A True p s"

text \<open>
  What a client may ask. Opening and creating is limited by the sizes of the table and its arrays;
  a codec is created on an engine of the same process; a handle that is closed is one
  the process holds, and an engine is closed when no codec of the process is left on it.
\<close>

definition open_permitted :: "table \<Rightarrow> u32 \<Rightarrow> bool" where
  "open_permitted cl p \<longleftrightarrow> p \<noteq> 0 \<and> room_for_engine cl p \<and>
     (get_client cl p \<noteq> None \<or> get_client cl 0 \<noteq> None)"

definition close_permitted :: "ledger \<Rightarrow> table \<Rightarrow> u32 \<Rightarrow> u32 \<Rightarrow> bool" where
  "close_permitted l cl p h \<longleftrightarrow> p \<noteq> 0 \<and> has_engine cl p h \<and>
     (case get_client cl p of Some i \<Rightarrow> \<forall>k\<in>#codecs_of (cl ! i). on_engine l k \<noteq> h | None \<Rightarrow> True)"

fun permitted :: "ledger \<Rightarrow> table \<Rightarrow> request \<Rightarrow> bool" where
  "permitted l cl (Message F_Engine_open d) \<longleftrightarrow> 32 \<le> length d \<and>
     open_permitted cl (getf Engine_open_args [''in'', ''pid''] d)"
| "permitted l cl (Message F_Engine_close d) \<longleftrightarrow>
     close_permitted l cl (getf Engine_close_args [''in'', ''pid''] d) (getf Engine_close_args [''in'', ''engine''] d)"
| "permitted l cl (Message F_VIDDEC3_create d) \<longleftrightarrow>
     (let pid = getf VIDDEC3_create_args [''in'', ''pid''] d
      in 40 \<le> length d \<and> pid \<noteq> 0 \<and> room_for_codec cl pid \<and>
         has_engine cl pid (getf VIDDEC3_create_args [''in'', ''engine''] d))"
| "permitted l cl (Message F_VIDDEC3_control d) \<longleftrightarrow> True"
| "permitted l cl (Message F_VIDDEC3_process d) \<longleftrightarrow> True"
| "permitted l cl (Message F_VIDDEC3_delete d) \<longleftrightarrow>
     (let pid = getf VIDDEC3_delete_args [''in'', ''pid''] d
      in pid \<noteq> 0 \<and> has_codec cl pid (getf VIDDEC3_delete_args [''in'', ''codec''] d))"
| "permitted l cl (Obituary p) \<longleftrightarrow> p \<noteq> 0"

lemma agrees_engine_open:
  fixes pid :: u32
  assumes "agrees cl l" "has_engine cl pid h"
  shows "h \<in># engines_open l"
proof -
  obtain i where i: "get_client cl pid = Some i" "h \<in># engines_of (cl ! i)"
    using assms(2) by (auto simp: has_engine_def split: option.splits)
  then have "cl ! i \<in> set cl" by (auto dest: get_client_SomeD)
  with i(2) agreesD(2) [OF assms(1)] show ?thesis by (metis in_all_of)
qed

lemma in_step_open:
  assumes "keeps_contract A G" "in_step G s" "permitted (ghost G s) (clients s) (Message F_Engine_open d)"
    and "rpc_Engine_open A d s = Some (v, d', s')"
  shows "in_step G s'"
proof -
  let ?pid = "getf Engine_open_args [''in'', ''pid''] d"
  from assms(4) obtain name where name: "name_at Engine_open_args [''in'', ''name''] d = Some name"
    by (auto simp: rpc_Engine_open_def Let_def split: Option.bind_splits)
  obtain h ec m w where o: "ce_open A name (smem s, set_env A ?pid (hw (power s))) = ((h, ec), m, w)"
    by (metis surj_pair)
  have p: "32 \<le> length d" "open_permitted (clients s) ?pid" using assms(3) by simp_all
  have s': "hw (power s') = w"
    "clients s' = (if h \<noteq> 0 then dce_register_engine (clients s) ?pid h else clients s)"
    using assms(4) name o p(1)
    by (auto simp: rpc_Engine_open_def Let_def call_def world_def with_world_def task_set_env_def run_def
        getf_putf_same getf_putf_other split: if_splits)
  from contract(2) [OF assms(1) o] show ?thesis
    using assms(2) s' agrees_register_engine [of "clients s" "ghost G s" h ?pid] p(2)
    by (auto simp: in_step_def contract(1) [OF assms(1)] open_permitted_def split: if_splits)
qed

lemma in_step_create:
  assumes "keeps_contract A G" "in_step G s" "permitted (ghost G s) (clients s) (Message F_VIDDEC3_create d)"
    and "rpc_VIDDEC3_create A d s = Some (v, d', s')"
  shows "in_step G s'"
proof -
  let ?pid = "getf VIDDEC3_create_args [''in'', ''pid''] d" and ?e = "getf VIDDEC3_create_args [''in'', ''engine''] d"
  let ?q = "getf VIDDEC3_create_args [''in'', ''params''] d"
  from assms(4) obtain name where name: "name_at VIDDEC3_create_args [''in'', ''name''] d = Some name"
    by (auto simp: rpc_VIDDEC3_create_def Let_def split: Option.bind_splits)
  obtain c m w where o: "ce_create A ?e name ?q (smem s, set_env A ?pid (hw (power s))) = (c, m, w)"
    by (metis surj_pair)
  let ?s = "with_world (m, w) (task_set_env A ?pid s)"
  have p: "40 \<le> length d" "?pid \<noteq> 0" "room_for_codec (clients s) ?pid" "has_engine (clients s) ?pid ?e"
    using assms(3) by (simp_all add: Let_def)
  have call: "call (ce_create A ?e name ?q) (task_set_env A ?pid s) = (c, ?s)"
    using o by (simp add: call_def world_def)
  obtain s1 where s1: "clean A ?q ?s = Some s1"
    and s': "s' = (if c \<noteq> 0 then s1\<lparr>clients := dce_register_codec (clients s1) ?pid c\<rparr> else s1)"
    using assms(4) name call p(1)
    by (auto simp: rpc_VIDDEC3_create_def Let_def getf_putf_same split: Option.bind_splits)
  have 1: "ghost G s1 = G w" "clients s1 = clients s"
    using ghost_frame(2) [OF assms(1) s1] clients_clean [OF s1] by simp_all
  note ag = assms(2) [unfolded in_step_def]
  have "?e \<in># engines_open (G (set_env A ?pid (hw (power s))))"
    using agrees_engine_open [OF ag p(4)] contract(1) [OF assms(1)] by simp
  note new = contract(4) [OF assms(1), OF o this, unfolded contract(1) [OF assms(1)]]
  show ?thesis
  proof (cases "c = 0")
    case True
    with new s' 1 ag show ?thesis by (simp add: in_step_def)
  next
    case False
    with new have "c \<notin># codecs_live (ghost G s)" by (simp del: in_owned)
    from agrees_register_codec [OF ag False p(2,3,4) this] False new s' 1 show ?thesis
      by (simp add: in_step_def)
  qed
qed

lemma ghost_call:
  "call f s = (x, s') \<Longrightarrow> (\<And>mw. G (snd (snd (f mw))) = G (snd mw)) \<Longrightarrow> ghost G s' = ghost G s"
  by (auto simp: call_def with_world_def world_def split: prod.splits) (metis snd_conv)

lemma in_step_same: "in_step G s \<Longrightarrow> ghost G s' = ghost G s \<Longrightarrow> clients s' = clients s \<Longrightarrow> in_step G s'"
  by (simp add: in_step_def)

lemma in_step_control:
  assumes "keeps_contract A G" "in_step G s" "rpc_VIDDEC3_control A d s = Some (v, d', s')"
  shows "in_step G s'"
proof -
  let ?t = "task_set_env A (getf VIDDEC3_control_args [''in'', ''pid''] d) s"
  obtain c i q1 q2 r s1 s2 where 1: "call (ce_control A c i q1 q2) ?t = (r, s1)"
    and 2: "clean A q1 s1 = Some s2" "clean A q2 s2 = Some s'"
    using assms(3) by (auto simp: rpc_VIDDEC3_control_def Let_def split: Option.bind_splits prod.splits)
  note g = ghost_frame(1,2) [OF assms(1)]
  have "ghost G s1 = ghost G s" using ghost_call [OF 1, of G] contract(6) [OF assms(1)] g(1) by simp
  moreover have "clients s1 = clients s" using clients_call [OF 1] by simp
  ultimately show ?thesis
    using in_step_same [OF assms(2)] g(2) [OF 2(1)] g(2) [OF 2(2)] clients_clean [OF 2(1)] clients_clean [OF 2(2)] by simp
qed

lemma in_step_process:
  assumes "keeps_contract A G" "in_step G s" "rpc_VIDDEC3_process A d s = Some (v, d', s')"
  shows "in_step G s'"
proof -
  let ?t = "task_set_env A (getf VIDDEC3_process_args [''in'', ''pid''] d) s"
  obtain c q1 q2 q3 q4 r s1 s2 s3 s4 where
    1: "call (ce_process A c q1 q2 q3 q4) (?t\<lparr>power := ivahd_acquire (bus A) (power ?t)\<rparr>) = (r, s1)"
    and 2: "clean A q1 (s1\<lparr>power := ivahd_release (bus A) (power s1)\<rparr>) = Some s2" "clean A q2 s2 = Some s3"
      "clean A q3 s3 = Some s4" "clean A q4 s4 = Some s'"
    using assms(3) by (auto simp: rpc_VIDDEC3_process_def Let_def split: Option.bind_splits prod.splits)
  note g = ghost_frame [OF assms(1)]
  have "ghost G s1 = ghost G s"
    using ghost_call [OF 1, of G] contract(7) [OF assms(1)] contract(1) [OF assms(1)] g(3) by simp
  moreover have "clients s1 = clients s" using clients_call [OF 1] by simp
  ultimately show ?thesis
    using in_step_same [OF assms(2)] 2 [THEN g(2)] 2 [THEN clients_clean] g(4) by simp
qed

subsection \<open>The death of a process\<close>

lemma in_step_inv: "in_step G s \<Longrightarrow> table_inv (clients s)"
  by (simp add: in_step_def agreesD(1))

lemma ghost_delete_step:
  fixes pid :: u32
  assumes "keeps_contract A G" "in_step G s" "pid \<noteq> 0" "has_codec (clients s) pid h"
  shows "ghost G (delete_step A pid h s) = (ghost G s)\<lparr>codecs_live := codecs_live (ghost G s) - {#h#}\<rparr>"
  using contract(5) [OF assms(1), of h "set_env A pid (hw (power s))"]
    agrees_unregister_codec(2) [OF assms(2) [unfolded in_step_def] assms(3,4)]
  by (simp add: delete_step_def run_def world_def contract(1) [OF assms(1)])

lemma in_step_deletes:
  fixes pid :: u32
  assumes "keeps_contract A G" "in_step G s" "registry_of (clients s) pid = Some (E, mset hs + C)"
  shows "in_step G (fold (delete_step A pid) hs s) \<and>
     registry_of (clients (fold (delete_step A pid) hs s)) = (registry_of (clients s))(pid \<mapsto> (E, C)) \<and>
     engines_open (ghost G (fold (delete_step A pid) hs s)) = engines_open (ghost G s) \<and>
     codecs_live (ghost G (fold (delete_step A pid) hs s)) = codecs_live (ghost G s) - mset hs"
  using assms(2,3)
proof (induction hs arbitrary: s)
  case Nil
  then show ?case by (simp add: fun_upd_idem)
next
  case (Cons h hs)
  note p = registry_pid_nonzero [OF Cons.prems(2)]
  have reg: "registry_of (clients s) pid = Some (E, add_mset h (mset hs + C))" using Cons.prems(2) by simp
  have h: "has_codec (clients s) pid h"
    using limits_simps(4) [OF p, where cl = "clients s" and h = h] reg by simp
  let ?s = "delete_step A pid h s"
  note reg' = delete_step_table(2) [OF in_step_inv [OF Cons.prems(1)] reg, of A]
  have "registry_of (clients ?s) pid = Some (E, mset hs + C)" by (simp only: reg' fun_upd_same)
  from Cons.IH [OF in_step_delete [OF assms(1) Cons.prems(1) p h] this]
    ghost_delete_step [OF assms(1) Cons.prems(1) p h]
  show ?case by (simp add: reg' fun_upd_def cong: if_cong del: delete_step_clients)
qed

lemma in_step_closes:
  fixes pid :: u32
  assumes "keeps_contract A G" "in_step G s" "registry_of (clients s) pid = Some (mset hs, {#})"
  shows "in_step G (fold (close_step A pid) hs s) \<and>
     engines_open (ghost G (fold (close_step A pid) hs s)) = engines_open (ghost G s) - mset hs \<and>
     codecs_live (ghost G (fold (close_step A pid) hs s)) = codecs_live (ghost G s)"
  using assms(2,3)
proof (induction hs arbitrary: s)
  case Nil
  then show ?case by simp
next
  case (Cons h hs)
  note p = registry_pid_nonzero [OF Cons.prems(2)]
  have reg: "registry_of (clients s) pid = Some (add_mset h (mset hs), {#})" using Cons.prems(2) by simp
  have h: "has_engine (clients s) pid h"
    using limits_simps(3) [OF p, where cl = "clients s" and h = h] reg by simp
  have none: "on_engine (ghost G s) k \<noteq> h"
    if "get_client (clients s) pid = Some i" "k \<in># codecs_of (clients s ! i)" for i k
    using registry_entry [OF that(1) reg] that(2) by (metis empty_iff prod.inject set_mset_empty)
  let ?s = "close_step A pid h s"
  note step = in_step_close [OF assms(1) Cons.prems(1) p h none]
  have ghost: "ghost G ?s = (ghost G s)\<lparr>engines_open := engines_open (ghost G s) - {#h#}\<rparr>"
    using contract(3) [OF assms(1), of h "set_env A pid (hw (power s))"]
      agrees_unregister_engine(2,3) [OF Cons.prems(1) [unfolded in_step_def] p h none]
    by (simp add: close_step_def run_def world_def contract(1) [OF assms(1)])
  show ?case
  proof (cases "hs = []")
    case True
    with step ghost show ?thesis by simp
  next
    case False
    have "registry_of (clients ?s) pid = Some (mset hs, {#})"
      using close_step_table(2) [OF in_step_inv [OF Cons.prems(1)] reg, of A] False by simp
    from Cons.IH [OF step this] ghost show ?thesis by simp
  qed
qed

text \<open>The handles recorded for a process; none for a process that is not in the table.\<close>

definition held_by :: "table \<Rightarrow> u32 \<Rightarrow> u32 multiset \<times> u32 multiset" where
  "held_by cl p = (case registry_of cl p of Some x \<Rightarrow> x | None \<Rightarrow> ({#}, {#}))"

lemma in_step_cleanup:
  assumes "keeps_contract A G" "in_step G s" "p \<noteq> 0"
  shows "\<exists>s'. dce_cleanup_cb A True p s = Some s' \<and> in_step G s' \<and>
     engines_open (ghost G s') = engines_open (ghost G s) - fst (held_by (clients s) p) \<and>
     codecs_live (ghost G s') = codecs_live (ghost G s) - snd (held_by (clients s) p) \<and>
     held_by (clients s') = (held_by (clients s))(p := ({#}, {#}))"
proof (cases "get_client (clients s) p")
  case None
  then have "registry_of (clients s) p = None" by (simp add: registry_of_def)
  with None assms(2) show ?thesis by (auto simp: dce_cleanup_cb_def held_by_def)
next
  case (Some c)
  note inv = in_step_inv [OF assms(2)]
  let ?es = "recorded (c_engines (clients s ! c))" and ?cs = "recorded (c_codecs (clients s ! c))"
  have reg: "registry_of (clients s) p = Some (mset ?es, mset ?cs + {#})"
    using registry_at [OF Some assms(3)] by (simp add: mset_recorded)
  note d = in_step_deletes [OF assms(1,2) reg]
  then have reg': "registry_of (clients (fold (delete_step A p) ?cs s)) p = Some (mset ?es, {#})" by simp
  obtain s' where s': "dce_cleanup_cb A True p s = Some s'"
    "s' = fold (close_step A p) ?es (fold (delete_step A p) ?cs s)"
    "registry_of (clients s') = (registry_of (clients s))
       (p := if engines_of (clients s ! c) = {#} then Some ({#}, {#}) else None)"
    using cleanup_result [OF inv Some assms(3), of A] by blast
  from in_step_closes [OF assms(1) _ reg'] d s' reg show ?thesis
    by (auto simp: held_by_def fun_eq_iff)
qed

subsection \<open>The life of a server\<close>

lemma serve_in_step:
  assumes "keeps_contract A G" "in_step G s" "permitted (ghost G s) (clients s) r" "serve A r s = Some s'"
  shows "in_step G s'"
proof (cases r)
  case (Obituary p)
  with assms in_step_cleanup [OF assms(1,2), of p] show ?thesis by auto
next
  case (Message f d)
  with assms(4) obtain v d' where h: "handler A f d s = Some (v, d', s')" by auto
  show ?thesis
  proof (cases f)
    case F_Engine_open
    with h assms Message show ?thesis by (auto simp: handler_def intro: in_step_open)
  next
    case F_Engine_close
    let ?p = "getf Engine_close_args [''in'', ''pid''] d" and ?h = "getf Engine_close_args [''in'', ''engine''] d"
    have "s' = close_step A ?p ?h s"
      using h F_Engine_close by (auto simp: handler_def rpc_Engine_close_def close_step_def Let_def)
    with assms(3) F_Engine_close Message show ?thesis
      by (auto simp: close_permitted_def intro!: in_step_close [OF assms(1,2)])
  next
    case F_VIDDEC3_create
    with h assms Message show ?thesis by (auto simp: handler_def simp del: permitted.simps intro: in_step_create)
  next
    case F_VIDDEC3_control
    with h assms show ?thesis by (auto simp: handler_def intro: in_step_control)
  next
    case F_VIDDEC3_process
    with h assms show ?thesis by (auto simp: handler_def intro: in_step_process)
  next
    case F_VIDDEC3_delete
    let ?p = "getf VIDDEC3_delete_args [''in'', ''pid''] d" and ?h = "getf VIDDEC3_delete_args [''in'', ''codec''] d"
    have "s' = delete_step A ?p ?h s"
      using h F_VIDDEC3_delete by (auto simp: handler_def rpc_VIDDEC3_delete_def delete_step_def Let_def)
    with assms(3) F_VIDDEC3_delete Message show ?thesis
      by (auto simp: Let_def intro!: in_step_delete [OF assms(1,2)])
  qed
qed

text \<open>The states of a server that serves permitted requests.\<close>

inductive served :: "'w ce_api \<Rightarrow> ('w \<Rightarrow> ledger) \<Rightarrow> 'w server \<Rightarrow> 'w server \<Rightarrow> bool" for A G s0 where
  served_start: "served A G s0 s0"
| served_request: "served A G s0 s \<Longrightarrow> permitted (ghost G s) (clients s) r \<Longrightarrow> serve A r s = Some s' \<Longrightarrow>
    served A G s0 s'"

definition just_started :: "('w \<Rightarrow> ledger) \<Rightarrow> 'w server \<Rightarrow> bool" where
  "just_started G s \<longleftrightarrow> clients s = init_clients \<and> engines_open (ghost G s) = {#} \<and> codecs_live (ghost G s) = {#}"

lemma just_started_in_step: "just_started G s \<Longrightarrow> in_step G s"
  by (auto simp: just_started_def in_step_def agrees_def init_clients_inv)
     (auto simp: init_clients_def free_client_def)

lemma served_in_step:
  assumes "keeps_contract A G" "just_started G s0" "served A G s0 s"
  shows "in_step G s"
  using assms(3)
  by induction (auto intro: just_started_in_step [OF assms(2)] serve_in_step [OF assms(1)])

fun serve_all :: "'w ce_api \<Rightarrow> request list \<Rightarrow> 'w server \<Rightarrow> 'w server option" where
  "serve_all A [] s = Some s"
| "serve_all A (r # rs) s = do { s \<leftarrow> serve A r s; serve_all A rs s }"

lemma all_held:
  assumes "table_inv cl" "\<And>p. held_by cl p = ({#}, {#})"
  shows "all_of engines_of cl = {#}" "all_of codecs_of cl = {#}"
proof -
  have "engines_of c = {#} \<and> codecs_of c = {#}" if "c \<in> set cl" for c
  proof -
    from that obtain i where i: "i < length cl" "cl ! i = c" by (auto simp: in_set_conv_nth)
    note inv = table_inv_nth [OF assms(1) i(1)]
    show ?thesis
    proof (cases "c_pid c = 0")
      case True
      with inv i(2) show ?thesis by (simp add: client_inv_def)
    next
      case False
      then have "get_client cl (c_pid c) = Some i"
        using get_client_iff [OF table_inv_distinct [OF assms(1)] False] i by simp
      from registry_at [OF this False] assms(2) [of "c_pid c"] i(2) show ?thesis by (simp add: held_by_def)
    qed
  qed
  then have "h \<notin># all_of engines_of cl" "h \<notin># all_of codecs_of cl" for h
    unfolding in_all_of by auto
  then show "all_of engines_of cl = {#}" "all_of codecs_of cl = {#}"
    using multiset_nonemptyE by blast+
qed

lemma obituaries:
  assumes "keeps_contract A G" "in_step G s" "0 \<notin> set ps" "\<And>p. p \<notin> set ps \<Longrightarrow> held_by (clients s) p = ({#}, {#})"
  shows "\<exists>s'. serve_all A (map Obituary ps) s = Some s' \<and> in_step G s' \<and>
     engines_open (ghost G s') = {#} \<and> codecs_live (ghost G s') = {#}"
  using assms(2-4)
proof (induction ps arbitrary: s)
  case Nil
  then have "engines_open (ghost G s) = {#}" "codecs_live (ghost G s) = {#}"
    using all_held [OF in_step_inv [OF Nil.prems(1)]] agreesD(2,3) [OF Nil.prems(1) [unfolded in_step_def]] by simp_all
  with Nil show ?case by simp
next
  case (Cons p ps)
  then obtain s1 where s1: "dce_cleanup_cb A True p s = Some s1" "in_step G s1"
    "held_by (clients s1) = (held_by (clients s))(p := ({#}, {#}))"
    using in_step_cleanup [OF assms(1) Cons.prems(1), of p] by auto
  have "held_by (clients s1) q = ({#}, {#})" if "q \<notin> set ps" for q
    using that Cons.prems(3) [of q] s1(3) by (cases "q = p") simp_all
  from Cons.IH [OF s1(2) _ this] Cons.prems(2) s1(1) show ?case by auto
qed

text \<open>
  C4: whatever permitted messages of any clients and deaths of clients a server has seen, in
  whatever order, its table records exactly the engines that are open and the codecs that
  exist in the codec engine: none is forgotten, none is recorded that is gone.
\<close>

theorem server_records_open_handles:
  assumes "keeps_contract A G" "just_started G s0" "served A G s0 s"
  shows "table_inv (clients s) \<and> engines_open (ghost G s) = all_of engines_of (clients s) \<and>
     codecs_live (ghost G s) = all_of codecs_of (clients s)"
  using agreesD(1-3) [OF served_in_step [OF assms, unfolded in_step_def]] by simp

text \<open>
  C9: when a process dies, at any moment of the life of such a server, the cleanup returns, and
  exactly the engines and codecs of that process are closed, each within the contract of the codec
  engine; when all processes that hold handles have died, in any order, nothing is open.
\<close>

theorem deaths_close_everything:
  assumes "keeps_contract A G" "just_started G s0" "served A G s0 s"
  shows "(\<forall>p. p \<noteq> 0 \<longrightarrow> (\<exists>s'. serve A (Obituary p) s = Some s' \<and>
        engines_open (ghost G s') = engines_open (ghost G s) - fst (held_by (clients s) p) \<and>
        codecs_live (ghost G s') = codecs_live (ghost G s) - snd (held_by (clients s) p) \<and>
        held_by (clients s') = (held_by (clients s))(p := ({#}, {#})))) \<and>
     (\<forall>ps. 0 \<notin> set ps \<longrightarrow> (\<forall>p. p \<notin> set ps \<longrightarrow> held_by (clients s) p = ({#}, {#})) \<longrightarrow>
        (\<exists>s'. serve_all A (map Obituary ps) s = Some s' \<and>
           engines_open (ghost G s') = {#} \<and> codecs_live (ghost G s') = {#}))"
proof (intro conjI allI impI)
  note i = served_in_step [OF assms]
  fix p :: u32
  assume "p \<noteq> 0"
  from in_step_cleanup [OF assms(1) i this] show "\<exists>s'. serve A (Obituary p) s = Some s' \<and>
        engines_open (ghost G s') = engines_open (ghost G s) - fst (held_by (clients s) p) \<and>
        codecs_live (ghost G s') = codecs_live (ghost G s) - snd (held_by (clients s) p) \<and>
        held_by (clients s') = (held_by (clients s))(p := ({#}, {#}))" by auto
next
  note i = served_in_step [OF assms]
  fix ps
  assume "0 \<notin> set ps" "\<forall>p. p \<notin> set ps \<longrightarrow> held_by (clients s) p = ({#}, {#})"
  with obituaries [OF assms(1) i, of ps] show "\<exists>s'. serve_all A (map Obituary ps) s = Some s' \<and>
      engines_open (ghost G s') = {#} \<and> codecs_live (ghost G s') = {#}" by blast
qed

subsection \<open>An engine that keeps the contract\<close>

text \<open>Two engines and two codecs at most; the world is the ledger itself.\<close>

definition pick :: "u32 multiset \<Rightarrow> u32 \<Rightarrow> u32 \<Rightarrow> u32" where
  "pick M a b = (if a \<notin># M then a else if b \<notin># M then b else 0)"

definition ledger_api :: "ledger ce_api" where
  "ledger_api = \<lparr>set_env = (\<lambda>p w. w),
     ce_open = (\<lambda>n (m, w). let h = pick (engines_open w) 1 2
       in ((h, 0), m, if h = 0 then w else w\<lparr>engines_open := add_mset h (engines_open w)\<rparr>)),
     ce_close = (\<lambda>e (m, w). (m, w\<lparr>engines_open := engines_open w - {#e#}\<rparr>)),
     ce_create = (\<lambda>e n p (m, w). let c = pick (codecs_live w) 3 4
       in (c, m, if c = 0 then w
          else w\<lparr>codecs_live := add_mset c (codecs_live w), on_engine := (on_engine w)(c := e)\<rparr>)),
     ce_control = (\<lambda>c i d s w. (0, w)), ce_process = (\<lambda>c ib ob ia oa w. (0, w)),
     ce_delete = (\<lambda>c (m, w). (m, w\<lparr>codecs_live := codecs_live w - {#c#}\<rparr>)), cache_wbinv = (\<lambda>p n w. w),
     bus = \<lparr>rd = (\<lambda>a h. (0, h)), wr = (\<lambda>a v h. h)\<rparr>\<rparr>"

lemma ledger_api_contract: "keeps_contract ledger_api id"
  by (auto simp: keeps_contract_def ledger_api_def Let_def pick_def split: if_splits)

definition new_server :: "ledger server" where
  "new_server = \<lparr>clients = init_clients, smem = (\<lambda>a. Some 0),
     power = \<lparr>use_cnt = 0, hw = \<lparr>engines_open = {#}, codecs_live = {#}, on_engine = (\<lambda>c. 0)\<rparr>\<rparr>\<rparr>"

text \<open>Process 7 opens an engine and creates a codec on it.\<close>

lemma example_life:
  "\<exists>s. served ledger_api id new_server s \<and> registry_of (clients s) = [7 \<mapsto> ({#1#}, {#3#})]"
proof -
  let ?d = "fill_Engine_open 7 sample_name (replicate 32 0)"
  let ?w = "\<lparr>engines_open = {#1#}, codecs_live = {#}, on_engine = (\<lambda>c. 0)\<rparr>"
  have n: "cstr_ok sample_name" "length sample_name < 24" by (auto simp: sample_name_def cstr_ok_def)
  have o: "ce_open ledger_api sample_name (smem new_server, set_env ledger_api 7 (hw (power new_server))) =
      ((1, 0), (\<lambda>a. Some 0, ?w))"
    by (simp add: ledger_api_def new_server_def pick_def Let_def)
  obtain d s where 1: "rpc_Engine_open ledger_api ?d new_server = Some (0, d, s)"
    "clients s = dce_register_engine init_clients 7 1" "world s = (\<lambda>a. Some 0, ?w)"
    using rpc_Engine_open_result [OF _ n o, of "replicate 32 0"] by (auto simp: new_server_def)
  have g: "get_client init_clients 7 = None" "get_client init_clients 0 \<noteq> None"
    by (auto simp: get_client_None init_clients_def free_client_def intro: exI [of _ 0])
  have "permitted (ghost id new_server) (clients new_server) (Message F_Engine_open ?d)"
    using g by (simp add: read_Engine_open new_server_def open_permitted_def room_for_engine_def)
  from served_request [where A = ledger_api and G = id and ?s0.0 = new_server, OF served_start this] 1(1)
  have s: "served ledger_api id new_server s" by (simp add: handler_def)
  let ?e = "fill_VIDDEC3_create 7 1 sample_name 0x1000 (replicate 40 0)"
  let ?v = "?w\<lparr>codecs_live := {#3#}, on_engine := (\<lambda>c. 0)(3 := 1)\<rparr>"
  have c: "ce_create ledger_api 1 sample_name 0x1000 (smem s, set_env ledger_api 7 (hw (power s))) = (3, \<lambda>a. Some 0, ?v)"
    using 1(3) by (simp add: ledger_api_def world_def pick_def Let_def)
  obtain d' s' where 2: "rpc_VIDDEC3_create ledger_api ?e s = Some (0, d', s')"
    "clients s' = dce_register_codec (clients s) 7 3"
    using rpc_VIDDEC3_create_result [OF _ n _ _ c, of "replicate 40 0"]
    by (auto simp: ledger_api_def load32_def)
  have reg: "registry_of (clients s) = [7 \<mapsto> ({#1#}, {#})]" "table_inv (clients s)"
    using history_refines_from [OF init_clients_inv, of "[Register_Engine 7 1]"] 1(2)
    by (simp_all add: spec_register_engine_def)
  have "permitted (ghost id s) (clients s) (Message F_VIDDEC3_create ?e)"
    using limits_simps(2) [where pid = 7 and cl = "clients s"] limits_simps(3) [where pid = 7 and cl = "clients s" and h = 1] reg(1) by (simp add: read_VIDDEC3_create Let_def)
  from served_request [where A = ledger_api and G = id and ?s0.0 = new_server, OF s this] 2(1) have s': "served ledger_api id new_server s'" by (simp add: handler_def)
  have reg': "registry_of (clients s') = [7 \<mapsto> ({#1#}, {#3#})]"
    using step_refines [OF reg(2), of "Register_Codec 7 3"] 2(2) reg(1) by (simp add: spec_register_codec_def)
  with s' show ?thesis by blast
qed

lemma new_server_just_started: "just_started id new_server"
  by (simp add: just_started_def new_server_def)

lemma server_records_open_handles_witness:
  "\<exists>s. served ledger_api id new_server s \<and> registry_of (clients s) = [7 \<mapsto> ({#1#}, {#3#})] \<and>
     engines_open (hw (power s)) = all_of engines_of (clients s) \<and> codecs_live (hw (power s)) = all_of codecs_of (clients s)"
  using example_life server_records_open_handles [OF ledger_api_contract new_server_just_started] by auto

lemma deaths_close_everything_witness:
  "\<exists>s s'. served ledger_api id new_server s \<and> registry_of (clients s) = [7 \<mapsto> ({#1#}, {#3#})] \<and>
     serve_all ledger_api [Obituary 7] s = Some s' \<and> engines_open (hw (power s')) = {#} \<and> codecs_live (hw (power s')) = {#}"
proof -
  obtain s where s: "served ledger_api id new_server s" "registry_of (clients s) = [7 \<mapsto> ({#1#}, {#3#})]"
    using example_life by blast
  then have "\<forall>p. p \<notin> set [7] \<longrightarrow> held_by (clients s) p = ({#}, {#})" by (simp add: held_by_def)
  with deaths_close_everything [OF ledger_api_contract new_server_just_started s(1), THEN conjunct2,
      rule_format, of "[7]"] s
  show ?thesis by auto
qed

end
