(* ===== verification/Test_Buffers.thy ===== *)
theory Test_Buffers
  imports Rpc_Client Xdm_Types "HOL-Library.Signed_Division"
begin

text \<open>
  The output buffers of the test client \<^verbatim>\<open>test.c\<close>: \<open>tiler_alloc\<close>, and the pool of output
  buffers that the codec does not hold, a linked list that starts at \<open>head\<close>. The list cells
  (\<open>struct OutputBuffer\<close>) live on the C heap, a map from addresses to cells that \<open>calloc\<close> extends
  and \<open>free\<close> restricts, so that an access to a freed cell is an error of the execution
  (\<open>None\<close>). \<open>calloc\<close>, \<open>free\<close>, \<open>MemMgr_Alloc\<close>, \<open>MemMgr_Free\<close>, \<open>TilerMem_VirtToPhys\<close> and the file
  and time functions of the operating system are the fields of a record; signed arithmetic wraps.
\<close>

subsection \<open>State and environment\<close>

datatype pixel_format = PIXEL_FMT_8BIT | PIXEL_FMT_16BIT | PIXEL_FMT_PAGE

datatype block_dim = Len u32 | Area u32 u32

record MemAllocBlock =
  pixelFormat :: pixel_format
  dim :: block_dim

record OutputBuffer =
  ob_buf :: u32
  ob_y :: u32
  ob_uv :: u32
  ob_next :: u32

type_synonym cells = "u32 \<rightharpoonup> OutputBuffer"

record 'w test_api =
  t_calloc :: "cells \<Rightarrow> 'w \<Rightarrow> u32 \<times> 'w"
  t_free :: "u32 \<Rightarrow> 'w \<Rightarrow> 'w"
  tm_alloc :: "MemAllocBlock list \<Rightarrow> 'w \<times> mem \<Rightarrow> u32 \<times> 'w \<times> mem"
  tm_free :: "u32 \<Rightarrow> 'w \<times> mem \<Rightarrow> 'w \<times> mem"
  tm_phys :: "u32 \<Rightarrow> u32"
  t_open :: "cstr \<Rightarrow> bool \<Rightarrow> 'w \<Rightarrow> u32 \<times> 'w"
  t_read :: "u32 \<Rightarrow> u32 \<Rightarrow> u32 \<Rightarrow> 'w \<times> mem \<Rightarrow> u32 \<times> 'w \<times> mem"
  t_write :: "u32 \<Rightarrow> u32 \<Rightarrow> u32 \<Rightarrow> 'w \<times> mem \<Rightarrow> u32 \<times> 'w"
  t_close :: "u32 \<Rightarrow> 'w \<Rightarrow> 'w"
  t_usec :: "'w \<Rightarrow> u32 \<times> 'w"

text \<open>
  The variables of the client at file level, and the process that the stubs run in. \<open>path_len\<close> is
  the static variable \<open>len\<close> of \<open>get_path\<close>.
\<close>

record 'w test =
  tproc :: "'w proc"
  head :: u32
  cells :: cells
  path_len :: nat
  width :: u32
  height :: u32
  padded_width :: u32
  padded_height :: u32
  num_buffers :: u32

definition tworld :: "'w test \<Rightarrow> 'w \<times> mem" where
  "tworld t = (pw (tproc t), pmem (tproc t))"

definition set_world :: "'w \<times> mem \<Rightarrow> 'w test \<Rightarrow> 'w test" where
  "set_world wm t = t\<lparr>tproc := (tproc t)\<lparr>pw := fst wm, pmem := snd wm\<rparr>\<rparr>"

definition set_mem :: "mem \<Rightarrow> 'w test \<Rightarrow> 'w test" where
  "set_mem m t = t\<lparr>tproc := (tproc t)\<lparr>pmem := m\<rparr>\<rparr>"

abbreviation tmem :: "'w test \<Rightarrow> mem" where
  "tmem t \<equiv> pmem (tproc t)"

text \<open>Signed division of C, which rounds towards zero.\<close>

definition cdiv :: "u32 \<Rightarrow> u32 \<Rightarrow> u32" where
  "cdiv a b = word_of_int (sint a sdiv sint b)"

text \<open>Assignments to members of structures in memory: \<open>p->path = v\<close>.\<close>

definition member_at :: "ctype \<Rightarrow> string list \<Rightarrow> u32 \<Rightarrow> u32" where
  "member_at t p a = a + of_nat (fld t p)"

definition elem_at :: "ctype \<Rightarrow> string list \<Rightarrow> ctype \<Rightarrow> nat \<Rightarrow> u32 \<Rightarrow> u32" where
  "elem_at t p e i a = a + of_nat (fld t p + i * csize e)"

definition assign32 :: "u32 \<Rightarrow> u32 \<Rightarrow> 'w test \<Rightarrow> 'w test option" where
  "assign32 a v t = do { m \<leftarrow> store32 (tmem t) a v; Some (set_mem m t) }"

definition assign16 :: "u32 \<Rightarrow> u32 \<Rightarrow> 'w test \<Rightarrow> 'w test option" where
  "assign16 a v t = do { m \<leftarrow> store_bytes (tmem t) a (take 2 (bytes_of v)); Some (set_mem m t) }"

abbreviation desc :: "nat \<Rightarrow> u32 \<Rightarrow> u32" where
  "desc \<equiv> elem_at XDM2_BufDesc [''descs''] XDM2_SingleBufDesc"

definition set_memType :: "XDM_MemoryType \<Rightarrow> u32 \<Rightarrow> 'w test \<Rightarrow> 'w test option" where
  "set_memType v d = assign16 (member_at XDM2_SingleBufDesc [''memType''] d)
     (word_of_int (XDM_MemoryType_val v))"

definition set_buf :: "u32 \<Rightarrow> u32 \<Rightarrow> 'w test \<Rightarrow> 'w test option" where
  "set_buf v d = assign32 (member_at XDM2_SingleBufDesc [''buf''] d) v"

definition set_bytes :: "u32 \<Rightarrow> u32 \<Rightarrow> 'w test \<Rightarrow> 'w test option" where
  "set_bytes v d = assign32 (member_at XDM2_SingleBufDesc [''bufSize'', ''bytes''] d) v"

definition set_area :: "u32 \<Rightarrow> u32 \<Rightarrow> u32 \<Rightarrow> 'w test \<Rightarrow> 'w test option" where
  "set_area w h d t = do {
     t \<leftarrow> assign32 (member_at XDM2_SingleBufDesc [''bufSize'', ''tileMem'', ''width''] d) w t;
     assign32 (member_at XDM2_SingleBufDesc [''bufSize'', ''tileMem'', ''height''] d) h t }"

definition set_numBufs :: "u32 \<Rightarrow> u32 \<Rightarrow> 'w test \<Rightarrow> 'w test option" where
  "set_numBufs v p = assign32 (member_at XDM2_BufDesc [''numBufs''] p) v"

subsection \<open>Tiled memory and the pool\<close>

definition tiler_alloc :: "'w test_api \<Rightarrow> u32 \<Rightarrow> u32 \<Rightarrow> 'w test \<Rightarrow> u32 \<times> 'w test" where
  "tiler_alloc A w h t = (
     let block =
       (if h = 0 then [\<lparr>pixelFormat = PIXEL_FMT_PAGE, dim = Len w\<rparr>]
        else [\<lparr>pixelFormat = PIXEL_FMT_8BIT, dim = Area w h\<rparr>,
              \<lparr>pixelFormat = PIXEL_FMT_16BIT, dim = Area w (cdiv h 2)\<rparr>])
     in case tm_alloc A block (tworld t) of (p, wm) \<Rightarrow> (p, set_world wm t))"

definition init_descs :: "u32 \<Rightarrow> u32 \<Rightarrow> u32 \<Rightarrow> u32 \<Rightarrow> 'w test \<Rightarrow> ((u32 \<times> u32) \<times> 'w test) option" where
  "init_descs outBufs w h stride t = do {
     t \<leftarrow> set_numBufs 2 outBufs t;
     (if stride \<noteq> 4096 then
        let size_y = stride * h; size_uv = cdiv (stride * h) 2 in do {
          t \<leftarrow> set_memType XDM_MEMTYPE_TILEDPAGE (desc 0 outBufs) t;
          t \<leftarrow> set_bytes size_y (desc 0 outBufs) t;
          t \<leftarrow> set_memType XDM_MEMTYPE_TILEDPAGE (desc 1 outBufs) t;
          t \<leftarrow> set_bytes size_uv (desc 1 outBufs) t;
          Some ((size_y + size_uv, 0), t) }
      else do {
        t \<leftarrow> set_memType XDM_MEMTYPE_TILED8 (desc 0 outBufs) t;
        t \<leftarrow> set_area w h (desc 0 outBufs) t;
        t \<leftarrow> set_memType XDM_MEMTYPE_TILED16 (desc 1 outBufs) t;
        t \<leftarrow> set_area w (cdiv h 2) (desc 1 outBufs) t;
        Some ((w, h), t) }) }"

text \<open>
  The loop \<open>while (cnt)\<close> allocates one buffer and pushes it; the result of \<open>calloc\<close> is not
  tested, that of \<open>tiler_alloc\<close> neither. The counter of the model is the unsigned value of \<open>cnt\<close>.
\<close>

fun alloc_buffers :: "'w test_api \<Rightarrow> u32 \<Rightarrow> u32 \<Rightarrow> u32 \<Rightarrow> u32 \<Rightarrow> nat \<Rightarrow> 'w test \<Rightarrow> 'w test option" where
  "alloc_buffers A tw th h stride 0 t = Some t"
| "alloc_buffers A tw th h stride (Suc cnt) t =
     (case t_calloc A (cells t) (pw (tproc t)) of (p, w) \<Rightarrow>
        let t = t\<lparr>tproc := (tproc t)\<lparr>pw := w\<rparr>\<rparr>;
            (b, t) = tiler_alloc A tw th t
        in if p = 0 then None
           else alloc_buffers A tw th h stride cnt
             (t\<lparr>cells := (cells t)(p \<mapsto> \<lparr>ob_buf = b, ob_y = tm_phys A b, ob_uv = tm_phys A (b + h * stride),
                 ob_next = head t\<rparr>), head := p\<rparr>))"

definition output_allocate ::
  "'w test_api \<Rightarrow> u32 \<Rightarrow> u32 \<Rightarrow> u32 \<Rightarrow> u32 \<Rightarrow> u32 \<Rightarrow> 'w test \<Rightarrow> (u32 \<times> 'w test) option" where
  "output_allocate A outBufs cnt w h stride t = do {
     ((tw, th), t) \<leftarrow> init_descs outBufs w h stride t;
     t \<leftarrow> alloc_buffers A tw th h stride (unat cnt) t;
     Some (0, t) }"

definition output_get :: "'w test \<Rightarrow> (u32 \<times> 'w test) option" where
  "output_get t =
     (let b = head t
      in if b \<noteq> 0 then do { c \<leftarrow> cells t b; Some (b, t\<lparr>head := ob_next c\<rparr>) } else Some (b, t))"

definition output_release :: "u32 \<Rightarrow> 'w test \<Rightarrow> 'w test option" where
  "output_release b t = do {
     c \<leftarrow> cells t b;
     Some (t\<lparr>cells := (cells t)(b \<mapsto> c\<lparr>ob_next := head t\<rparr>), head := b\<rparr>) }"

text \<open>One turn of the loop of \<open>output_free\<close>.\<close>

definition free_head :: "'w test_api \<Rightarrow> OutputBuffer \<Rightarrow> 'w test \<Rightarrow> 'w test" where
  "free_head A c t =
     (let b = head t;
          t = set_world (tm_free A (ob_buf c) (tworld t)) t;
          t = t\<lparr>head := ob_next c\<rparr>
      in t\<lparr>cells := (cells t)(b := None), tproc := (tproc t)\<lparr>pw := t_free A b (pw (tproc t))\<rparr>\<rparr>)"

partial_function (option) output_free :: "'w test_api \<Rightarrow> 'w test \<Rightarrow> 'w test option" where
  "output_free A t =
     (if head t = 0 then Some t
      else do { c \<leftarrow> cells t (head t); output_free A (free_head A c t) })"

end
