(* ===== verification/Test_Io.thy ===== *)
theory Test_Io
  imports Test_Buffers
begin

text \<open>
  The file helpers of the test client \<^verbatim>\<open>test.c\<close>: the name of a frame's file, reading a frame
  and writing one, and the time difference. A pattern is formatted by \<open>snprintf\<close> with one
  \<open>int\<close>: literal characters, \<open>%%\<close>, and \<open>%d\<close>, \<open>%i\<close> with an optional \<open>0\<close> flag and width are
  modelled, any other conversion or a second one (for which no argument is passed) is \<open>None\<close>.
  The loops over \<open>read\<close> and \<open>write\<close> end only when the system does its part: they are partial
  functions.
\<close>

subsection \<open>Formatting a number\<close>

fun decimal :: "nat \<Rightarrow> bytes" where
  "decimal n = (if n < 10 then [48 + of_nat n] else decimal (n div 10) @ [48 + of_nat (n mod 10)])"

declare decimal.simps [simp del]

definition format_int :: "bool \<Rightarrow> nat \<Rightarrow> int \<Rightarrow> bytes" where
  "format_int zero w v =
     (let ds = decimal (nat \<bar>v\<bar>);
          sgn = (if v < 0 then [45] else []);
          pad = w - length (sgn @ ds)
      in if zero then sgn @ replicate pad 48 @ ds else replicate pad 32 @ sgn @ ds)"

text \<open>A run of digits and its value.\<close>

fun read_num :: "nat \<Rightarrow> cstr \<Rightarrow> nat \<times> cstr" where
  "read_num n (c # cs) = (if 48 \<le> c \<and> c \<le> 57 then read_num (10 * n + (unat c - 48)) cs else (n, c # cs))"
| "read_num n [] = (n, [])"

lemma length_read_num: "length (snd (read_num n cs)) \<le> length cs"
  by (induction n cs rule: read_num.induct) auto

text \<open>The flag, the width and the conversion letter behind a percent sign.\<close>

fun zero_flag :: "cstr \<Rightarrow> bool \<times> cstr" where
  "zero_flag (c # cs) = (if c = 48 then (True, cs) else (False, c # cs))"
| "zero_flag [] = (False, [])"

lemma length_zero_flag: "length (snd (zero_flag cs)) \<le> length cs"
  by (cases cs) auto

definition read_spec :: "cstr \<Rightarrow> (bool \<times> nat \<times> cstr) option" where
  "read_spec cs =
     (let (zero, cs) = zero_flag cs;
          (w, cs) = read_num 0 cs
      in case cs of c # r \<Rightarrow> if c = 100 \<or> c = 105 then Some (zero, w, r) else None | [] \<Rightarrow> None)"

lemma length_read_spec: "read_spec cs = Some (z, w, r) \<Longrightarrow> length r < length cs"
  using length_zero_flag [of cs] length_read_num [of 0 "snd (zero_flag cs)"]
  by (auto simp: read_spec_def Let_def split: list.splits if_splits prod.splits)

function format_str :: "cstr \<Rightarrow> int list \<Rightarrow> bytes option" where
  "format_str [] args = Some []"
| "format_str (c # cs) args =
     (if c \<noteq> 37 then map_option ((#) c) (format_str cs args)
      else case cs of
        [] \<Rightarrow> None
      | d # r \<Rightarrow> if d = 37 then map_option ((#) 37) (format_str r args)
          else (case read_spec cs of
              None \<Rightarrow> None
            | Some (zero, w, rest) \<Rightarrow> (case args of
                [] \<Rightarrow> None
              | v # vs \<Rightarrow> map_option ((@) (format_int zero w v)) (format_str rest vs))))"
  by pat_completeness auto
termination
  by (relation "measure (\<lambda>(cs, args). length cs)") (auto dest: length_read_spec)

text \<open>
  \<open>snprintf (path, len - 1, pattern, cnt)\<close> stores at most \<open>len - 2\<close> characters and a terminator.
  The buffer only grows: \<open>len\<close> is the largest length asked for so far. The lengths of
  the program's arguments are far below the range of \<open>int\<close>.
\<close>

definition get_path :: "cstr \<Rightarrow> u32 \<Rightarrow> 'w test \<Rightarrow> (cstr \<times> 'w test) option" where
  "get_path pattern cnt t =
     (let t = (if path_len t < length pattern + 10 then t\<lparr>path_len := length pattern + 10\<rparr> else t)
      in map_option (\<lambda>s. (take (path_len t - 2) s, t)) (format_str pattern [sint cnt]))"

subsection \<open>Reading and writing\<close>

text \<open>\<open>while ((n = read (fd, input, width * height)) > 0)\<close>\<close>

partial_function (option) read_loop ::
  "'w test_api \<Rightarrow> u32 \<Rightarrow> u32 \<Rightarrow> u32 \<Rightarrow> u32 \<Rightarrow> 'w \<times> mem \<Rightarrow> (u32 \<times> 'w \<times> mem) option" where
  "read_loop A fd n0 input sz wm =
     (case t_read A fd input n0 wm of (n, wm) \<Rightarrow>
        if cpos n then read_loop A fd n0 (input + n) (sz + n) wm else Some (sz, wm))"

definition read_input :: "'w test_api \<Rightarrow> cstr \<Rightarrow> u32 \<Rightarrow> u32 \<Rightarrow> 'w test \<Rightarrow> (u32 \<times> 'w test) option" where
  "read_input A pattern cnt input t = do {
     (path, t) \<leftarrow> get_path pattern cnt t;
     let (fd, w) = t_open A path False (pw (tproc t));
     let t = set_world (w, tmem t) t;
     (if cneg fd then Some (0, t)
      else do {
        (sz, w, m) \<leftarrow> read_loop A fd (width t * height t) input 0 (tworld t);
        Some (sz, set_world (t_close A fd w, m) t) }) }"

text \<open>\<open>while (len && ((n = write (fd, p, len)) > 0))\<close>: the rest of one line.\<close>

partial_function (option) write_loop ::
  "'w test_api \<Rightarrow> u32 \<Rightarrow> u32 \<Rightarrow> u32 \<Rightarrow> u32 \<Rightarrow> 'w \<times> mem \<Rightarrow> (u32 \<times> 'w) option" where
  "write_loop A fd p len sz wm =
     (if len = 0 then Some (sz, fst wm)
      else case t_write A fd p len wm of (n, w) \<Rightarrow>
        if cpos n then write_loop A fd (p + n) (len - n) (sz + n) (w, snd wm) else Some (sz, w))"

text \<open>\<open>n\<close> lines of a plane, \<open>stride\<close> bytes apart.\<close>

fun write_lines :: "'w test_api \<Rightarrow> u32 \<Rightarrow> nat \<Rightarrow> u32 \<Rightarrow> u32 \<Rightarrow> u32 \<Rightarrow> u32 \<Rightarrow> 'w \<times> mem \<Rightarrow> (u32 \<times> 'w) option" where
  "write_lines A fd 0 p len stride sz wm = Some (sz, fst wm)"
| "write_lines A fd (Suc n) p len stride sz wm = do {
     (sz, w) \<leftarrow> write_loop A fd p len sz wm;
     write_lines A fd n (p + stride) len stride sz (w, snd wm) }"

definition write_output ::
  "'w test_api \<Rightarrow> cstr \<Rightarrow> u32 \<Rightarrow> u32 \<Rightarrow> u32 \<Rightarrow> u32 \<Rightarrow> 'w test \<Rightarrow> (u32 \<times> 'w test) option" where
  "write_output A pattern cnt y uv stride t = do {
     (path, t) \<leftarrow> get_path pattern cnt t;
     let (fd, w) = t_open A path True (pw (tproc t));
     let t = set_world (w, tmem t) t;
     (if cneg fd then Some (0, t)
      else do {
        (sz, w) \<leftarrow> write_lines A fd (nat (sint (height t))) y (width t) stride 0 (tworld t);
        (sz, w) \<leftarrow> write_lines A fd (nat (sint (cdiv (height t) 2))) uv (width t) stride sz (w, tmem t);
        Some (sz, set_world (t_close A fd w, tmem t) t) }) }"

text \<open>\<open>mark\<close> returns the microseconds of the second, or their difference to an earlier result.\<close>

definition mark :: "'w test_api \<Rightarrow> u32 option \<Rightarrow> 'w test \<Rightarrow> u32 \<times> 'w test" where
  "mark A prev t = (case t_usec A (pw (tproc t)) of (us, w) \<Rightarrow>
     (case prev of Some l \<Rightarrow> us - l | None \<Rightarrow> us, set_world (w, tmem t) t))"

end
