(* ===== verification/Test_Main.thy ===== *)
theory Test_Main
  imports Test_Io Ividdec3_Types
begin

text \<open>
  The decoder body of the test client, \<open>main\<close> of \<^verbatim>\<open>test.c\<close>: arguments and dimensions, setup of
  engine, codec and buffers, the decoding loop and the cleanup at the label \<open>out\<close>. The calls
  of the codec interface are the stubs of \<^verbatim>\<open>dce.c\<close>; the global pointers of the file are the record
  \<open>ptrs\<close>. A jump to \<open>out\<close> during setup is the outcome \<open>Out\<close>. The decoding loop runs as long as
  there is input, so that it is a partial function. Reading an uninitialised result is \<open>None\<close>.
\<close>

subsection \<open>Arguments and dimensions\<close>

definition chars :: "string \<Rightarrow> cstr" where
  "chars = map of_char"

text \<open>\<open>atoi\<close>: white space, a sign, and the digits that follow; 0 when there are none.\<close>

definition atoi :: "cstr \<Rightarrow> u32" where
  "atoi s =
     (let s = dropWhile (\<lambda>c. c = 32 \<or> 9 \<le> c \<and> c \<le> 13) s
      in case s of
           [] \<Rightarrow> 0
         | c # r \<Rightarrow>
             if c = 45 then - of_nat (fst (read_num 0 r))
             else if c = 43 then of_nat (fst (read_num 0 r))
             else of_nat (fst (read_num 0 s)))"

record args =
  a_oned :: bool
  a_width :: cstr
  a_height :: cstr
  a_in :: cstr
  a_out :: cstr

text \<open>\<open>None\<close>: the usage message, and \<open>main\<close> returns 1.\<close>

definition parse_args :: "cstr list \<Rightarrow> args option" where
  "parse_args argv =
     (let (oned, argv) =
        (if 2 \<le> length argv \<and> argv ! 1 = chars ''-1'' then (True, tl argv) else (False, argv))
      in if length argv \<noteq> 5 then None
         else Some \<lparr>a_oned = oned, a_width = argv ! 1, a_height = argv ! 2, a_in = argv ! 3,
           a_out = argv ! 4\<rparr>)"

definition ALIGN2 :: "u32 \<Rightarrow> nat \<Rightarrow> u32" where
  "ALIGN2 x n = (x + (push_bit n 1 - 1)) AND NOT (push_bit n 1 - 1)"

definition PADX :: u32 where "PADX = 32"
definition PADY :: u32 where "PADY = 24"

definition C_MIN :: "u32 \<Rightarrow> u32 \<Rightarrow> u32" where
  "C_MIN a b = (if sint a < sint b then a else b)"

text \<open>The dimensions and the stride; \<open>None\<close> is the division by zero.\<close>

definition set_dims :: "args \<Rightarrow> 'w test \<Rightarrow> (u32 \<times> 'w test) option" where
  "set_dims a t =
     (let w = ALIGN2 (atoi (a_width a)) 4;
          h = ALIGN2 (atoi (a_height a)) 4;
          pw = ALIGN2 (w + 2 * PADX) 7;
          blocks = cdiv w 16 * cdiv h 16
      in if blocks = 0 then None
         else Some (if a_oned a then pw else 4096,
           t\<lparr>width := w, height := h, padded_width := pw, padded_height := h + 4 * PADY,
             num_buffers := C_MIN 16 (cdiv 32768 blocks) + 3\<rparr>))"

subsection \<open>Blocks and calls\<close>

record ptrs =
  p_engine :: u32
  p_params :: u32
  p_dynParams :: u32
  p_status :: u32
  p_inBufs :: u32
  p_outBufs :: u32
  p_inArgs :: u32
  p_outArgs :: u32
  p_input :: u32

definition no_ptrs :: ptrs where
  "no_ptrs = \<lparr>p_engine = 0, p_params = 0, p_dynParams = 0, p_status = 0, p_inBufs = 0,
     p_outBufs = 0, p_inArgs = 0, p_outArgs = 0, p_input = 0\<rparr>"

text \<open>\<open>dce_alloc\<close> asks \<open>MemMgr_Alloc\<close> for one block in page mode.\<close>

definition memmgr_of :: "'w test_api \<Rightarrow> 'w memmgr" where
  "memmgr_of A = \<lparr>mm_alloc = (\<lambda>len. tm_alloc A [\<lparr>pixelFormat = PIXEL_FMT_PAGE, dim = Len len\<rparr>]),
     mm_free = tm_free A, virt_to_phys = tm_phys A\<rparr>"

definition talloc :: "'w test_api \<Rightarrow> ctype \<Rightarrow> 'w test \<Rightarrow> (u32 \<times> 'w test) option" where
  "talloc A ty t = do {
     (p, wm) \<leftarrow> dce_alloc (memmgr_of A) (of_nat (csize ty)) (tworld t);
     Some (p, set_world wm t) }"

definition tfree :: "'w test_api \<Rightarrow> u32 \<Rightarrow> 'w test \<Rightarrow> 'w test" where
  "tfree A p t = (if p \<noteq> 0 then set_world (dce_free (memmgr_of A) p (tworld t)) t else t)"

definition stub :: "('w proc \<Rightarrow> ('a \<times> 'w proc) option) \<Rightarrow> 'w test \<Rightarrow> ('a \<times> 'w test) option" where
  "stub f t = do { (r, p) \<leftarrow> f (tproc t); Some (r, t\<lparr>tproc := p\<rparr>) }"

definition stub_void :: "('w proc \<Rightarrow> 'w proc option) \<Rightarrow> 'w test \<Rightarrow> 'w test option" where
  "stub_void f t = do { p \<leftarrow> f (tproc t); Some (t\<lparr>tproc := p\<rparr>) }"

fun ret_value :: "ret \<Rightarrow> u32 option" where
  "ret_value (Value v) = Some v"
| "ret_value Indeterminate = None"

fun assign_members :: "ctype \<Rightarrow> u32 \<Rightarrow> (string list \<times> u32) list \<Rightarrow> 'w test \<Rightarrow> 'w test option" where
  "assign_members ty p [] t = Some t"
| "assign_members ty p ((path, v) # ms) t = do {
     t \<leftarrow> assign32 (member_at ty path p) v t;
     assign_members ty p ms t }"

text \<open>An array member of 32-bit elements.\<close>

abbreviation array_at :: "ctype \<Rightarrow> string list \<Rightarrow> nat \<Rightarrow> u32 \<Rightarrow> u32" where
  "array_at ty path \<equiv> elem_at ty path CI32"

subsection \<open>Setup\<close>

definition fill_params :: "u32 \<Rightarrow> 'w test \<Rightarrow> 'w test option" where
  "fill_params p t = do {
     t \<leftarrow> assign_members IVIDDEC3_Params p [
       ([''size''], of_nat (csize IVIDDEC3_Params)),
       ([''maxWidth''], width t),
       ([''maxHeight''], height t),
       ([''maxFrameRate''], 30000),
       ([''maxBitRate''], 10000000),
       ([''dataEndianness''], word_of_int (XDM_DataFormat_val XDM_BYTE)),
       ([''forceChromaFormat''], word_of_int (XDM_ChromaFormat_val XDM_YUV_420SP)),
       ([''operatingMode''], word_of_int (IVIDEO_OperatingMode_val IVIDEO_DECODE_ONLY)),
       ([''displayDelay''], word_of_int (IVIDDEC3_displayDelay_val IVIDDEC3_DISPLAY_DELAY_AUTO)),
       ([''displayBufsMode''], word_of_int (IVIDDEC3_DisplayBufsMode_val IVIDDEC3_DISPLAYBUFS_EMBEDDED)),
       ([''inputDataMode''], word_of_int (IVIDEO_DataMode_val IVIDEO_ENTIREFRAME))] t;
     t \<leftarrow> assign32 (array_at IVIDDEC3_Params [''metadataType''] 0 p)
       (word_of_int (IVIDEO_MetadataType_val IVIDEO_METADATAPLANE_NONE)) t;
     t \<leftarrow> assign32 (array_at IVIDDEC3_Params [''metadataType''] 1 p)
       (word_of_int (IVIDEO_MetadataType_val IVIDEO_METADATAPLANE_NONE)) t;
     t \<leftarrow> assign32 (array_at IVIDDEC3_Params [''metadataType''] 2 p)
       (word_of_int (IVIDEO_MetadataType_val IVIDEO_METADATAPLANE_NONE)) t;
     assign_members IVIDDEC3_Params p [
       ([''numInputDataUnits''], 0),
       ([''outputDataMode''], word_of_int (IVIDEO_DataMode_val IVIDEO_ENTIREFRAME)),
       ([''numOutputDataUnits''], 0),
       ([''errorInfoMode''], word_of_int (IVIDEO_ErrorInfoMode_val IVIDEO_ERRORINFO_OFF))] t }"

definition fill_dynParams :: "u32 \<Rightarrow> 'w test \<Rightarrow> 'w test option" where
  "fill_dynParams p = assign_members IVIDDEC3_DynamicParams p [
     ([''size''], of_nat (csize IVIDDEC3_DynamicParams)),
     ([''decodeHeader''], word_of_int (XDM_DecMode_val XDM_DECODE_AU)),
     ([''displayWidth''], 0),
     ([''frameSkipMode''], word_of_int (IVIDEO_FrameSkip_val IVIDEO_NO_SKIP)),
     ([''newFrameFlag''], 1)]"

datatype outcome = Out ptrs | Ready ptrs u32

text \<open>The setup of the codec, up to its second control call.\<close>

definition configure :: "'w test_api \<Rightarrow> 'w rcm_api \<Rightarrow> ptrs \<Rightarrow> u32 \<Rightarrow> 'w test \<Rightarrow> (outcome \<times> 'w test) option" where
  "configure A R g codec t = do {
     (dyn, t) \<leftarrow> talloc A IVIDDEC3_DynamicParams t;
     t \<leftarrow> fill_dynParams dyn t;
     (status, t) \<leftarrow> talloc A IVIDDEC3_Status t;
     t \<leftarrow> assign_members IVIDDEC3_Status status [([''size''], of_nat (csize IVIDDEC3_Status))] t;
     let g = g\<lparr>p_dynParams := dyn, p_status := status\<rparr>;
     (r, t) \<leftarrow> stub (VIDDEC3_control R codec (word_of_int (XDM_CmdId_val XDM_SETPARAMS)) dyn status) t;
     err \<leftarrow> ret_value r;
     (if err \<noteq> 0 then Some (Out g, t)
      else do {
        (r, t) \<leftarrow> stub (VIDDEC3_control R codec (word_of_int (XDM_CmdId_val XDM_GETBUFINFO)) dyn status) t;
        err \<leftarrow> ret_value r;
        Some (if err \<noteq> 0 then Out g else Ready g codec, t) }) }"

definition setup_codec :: "'w test_api \<Rightarrow> 'w rcm_api \<Rightarrow> 'w test \<Rightarrow> (outcome \<times> 'w test) option" where
  "setup_codec A R t = do {
     ((engine, _), t) \<leftarrow> stub (Engine_open R (chars ''ivahd_vidsvr'')) t;
     let g = no_ptrs\<lparr>p_engine := engine\<rparr>;
     (if engine = 0 then Some (Out g, t)
      else do {
        (params, t) \<leftarrow> talloc A IVIDDEC3_Params t;
        t \<leftarrow> fill_params params t;
        let g = g\<lparr>p_params := params\<rparr>;
        (r, t) \<leftarrow> stub (VIDDEC3_create R engine (chars ''ivahd_h264dec'') params) t;
        codec \<leftarrow> ret_value r;
        (if codec = 0 then Some (Out g, t) else configure A R g codec t) }) }"

text \<open>The buffers of the decoding loop; the result of \<open>output_allocate\<close> is tested as in the code.\<close>

definition setup_buffers :: "'w test_api \<Rightarrow> u32 \<Rightarrow> ptrs \<Rightarrow> u32 \<Rightarrow> 'w test \<Rightarrow> (outcome \<times> 'w test) option" where
  "setup_buffers A stride g codec t = do {
     (ib, t) \<leftarrow> talloc A XDM2_BufDesc t;
     t \<leftarrow> set_numBufs 1 ib t;
     let (input, t) = tiler_alloc A (width t * height t) 0 t;
     t \<leftarrow> set_buf (tm_phys A input) (desc 0 ib) t;
     t \<leftarrow> set_memType XDM_MEMTYPE_RAW (desc 0 ib) t;
     (ob, t) \<leftarrow> talloc A XDM2_BufDesc t;
     let g = g\<lparr>p_inBufs := ib, p_input := input, p_outBufs := ob\<rparr>;
     (err, t) \<leftarrow> output_allocate A ob (num_buffers t) (padded_width t) (padded_height t) stride t;
     (if err \<noteq> 0 then Some (Out g, t)
      else do {
        (ia, t) \<leftarrow> talloc A IVIDDEC3_InArgs t;
        t \<leftarrow> assign_members IVIDDEC3_InArgs ia [([''size''], of_nat (csize IVIDDEC3_InArgs))] t;
        (oa, t) \<leftarrow> talloc A IVIDDEC3_OutArgs t;
        t \<leftarrow> assign_members IVIDDEC3_OutArgs oa [([''size''], of_nat (csize IVIDDEC3_OutArgs))] t;
        Some (Ready (g\<lparr>p_inArgs := ia, p_outArgs := oa\<rparr>) codec, t) }) }"
subsection \<open>The decoding loop\<close>

definition load_t :: "u32 \<Rightarrow> 'w test \<Rightarrow> u32 option" where
  "load_t a t = load32 (tmem t) a"

text \<open>
  Position of the visible region of the first display buffer:
  \<open>outArgs->displayBufs.bufDesc[0].activeFrameRegion.topLeft\<close>.
\<close>

definition top_left :: "string \<Rightarrow> u32 \<Rightarrow> u32" where
  "top_left f oa = member_at IVIDEO2_BufDesc [''activeFrameRegion'', ''topLeft'', f]
     (elem_at IVIDDEC3_OutArgs [''displayBufs'', ''bufDesc''] IVIDEO2_BufDesc 0 oa)"

text \<open>\<open>for (i = 0; outArgs->outputID[i]; i++)\<close>: write every frame the codec put out.\<close>

partial_function (option) output_loop ::
  "'w test_api \<Rightarrow> cstr \<Rightarrow> u32 \<Rightarrow> u32 \<Rightarrow> nat \<Rightarrow> u32 \<Rightarrow> 'w test \<Rightarrow> (u32 \<times> 'w test) option" where
  "output_loop A pattern stride oa i out_cnt t = do {
     buf \<leftarrow> load_t (array_at IVIDDEC3_OutArgs [''outputID''] i oa) t;
     (if buf = 0 then Some (out_cnt, t)
      else do {
        x \<leftarrow> load_t (top_left ''x'' oa) t;
        y \<leftarrow> load_t (top_left ''y'' oa) t;
        let yoff = y * stride + x;
        let uvoff = cdiv (y * stride) 2 + x;
        c \<leftarrow> cells t buf;
        (_, t) \<leftarrow> write_output A pattern out_cnt (ob_buf c + yoff)
          (ob_buf c + uvoff + stride * padded_height t) stride t;
        output_loop A pattern stride oa (Suc i) (out_cnt + 1) t }) }"

text \<open>\<open>for (i = 0; outArgs->freeBufID[i]; i++)\<close>: put back the buffers the codec released.\<close>

partial_function (option) release_loop :: "u32 \<Rightarrow> nat \<Rightarrow> 'w test \<Rightarrow> 'w test option" where
  "release_loop oa i t = do {
     buf \<leftarrow> load_t (array_at IVIDDEC3_OutArgs [''freeBufID''] i oa) t;
     (if buf = 0 then Some t
      else do { t \<leftarrow> output_release buf t; release_loop oa (Suc i) t }) }"

datatype progress = Shutdown | Go u32 u32

text \<open>
  The part of one turn before the call of the codec, given the buffer \<open>b\<close> taken from the pool. The
  result is the count of inputs.
\<close>

definition prepare :: "'w test_api \<Rightarrow> ptrs \<Rightarrow> cstr \<Rightarrow> u32 \<Rightarrow> u32 \<Rightarrow> 'w test \<Rightarrow> (u32 \<times> 'w test) option" where
  "prepare A g inpat in_cnt b t = do {
     (n, t) \<leftarrow> read_input A inpat in_cnt (p_input g) t;
     t \<leftarrow> (if n \<noteq> 0 then do {
            t \<leftarrow> set_bytes n (desc 0 (p_inBufs g)) t;
            assign32 (member_at IVIDDEC3_InArgs [''numBytes''] (p_inArgs g)) n t }
          else do {
            t \<leftarrow> set_numBufs 0 (p_inBufs g) t;
            assign32 (member_at IVIDDEC3_InArgs [''inputID''] (p_inArgs g)) 0 t });
     t \<leftarrow> assign32 (member_at IVIDDEC3_InArgs [''inputID''] (p_inArgs g)) b t;
     c \<leftarrow> cells t b;
     t \<leftarrow> set_buf (ob_y c) (desc 0 (p_outBufs g)) t;
     t \<leftarrow> set_buf (ob_uv c) (desc 1 (p_outBufs g)) t;
     Some (if n \<noteq> 0 then in_cnt + 1 else in_cnt, t) }"

text \<open>The part after the call, when the codec reported no error.\<close>

definition collect :: "'w test_api \<Rightarrow> ptrs \<Rightarrow> cstr \<Rightarrow> u32 \<Rightarrow> u32 \<Rightarrow> 'w test \<Rightarrow> (u32 \<times> 'w test) option" where
  "collect A g outpat stride out_cnt t = do {
     (out_cnt, t) \<leftarrow> output_loop A outpat stride (p_outArgs g) 0 out_cnt t;
     t \<leftarrow> release_loop (p_outArgs g) 0 t;
     _ \<leftarrow> load_t (member_at IVIDDEC3_OutArgs [''outBufsInUseFlag''] (p_outArgs g)) t;
     Some (out_cnt, t) }"

definition decode_step ::
  "'w test_api \<Rightarrow> 'w rcm_api \<Rightarrow> args \<Rightarrow> u32 \<Rightarrow> ptrs \<Rightarrow> u32 \<Rightarrow> u32 \<Rightarrow> u32 \<Rightarrow> 'w test \<Rightarrow>
     (progress \<times> 'w test) option" where
  "decode_step A R a stride g codec in_cnt out_cnt t = do {
     (b, t) \<leftarrow> output_get t;
     (if b = 0 then Some (Shutdown, t)
      else do {
        (in_cnt, t) \<leftarrow> prepare A g (a_in a) in_cnt b t;
        let (us, t) = mark A None t;
        (r, t) \<leftarrow> stub (VIDDEC3_process R codec (p_inBufs g) (p_outBufs g) (p_inArgs g) (p_outArgs g)) t;
        let (_, t) = mark A (Some us) t;
        err \<leftarrow> ret_value r;
        (if err \<noteq> 0 then do {
           _ \<leftarrow> load_t (member_at IVIDDEC3_OutArgs [''extendedError''] (p_outArgs g)) t;
           Some (Shutdown, t) }
         else do {
           (out_cnt, t) \<leftarrow> collect A g (a_out a) stride out_cnt t;
           Some (Go in_cnt out_cnt, t) }) }) }"

partial_function (option) decode_loop ::
  "'w test_api \<Rightarrow> 'w rcm_api \<Rightarrow> args \<Rightarrow> u32 \<Rightarrow> ptrs \<Rightarrow> u32 \<Rightarrow> u32 \<Rightarrow> u32 \<Rightarrow> 'w test \<Rightarrow> 'w test option" where
  "decode_loop A R a stride g codec in_cnt out_cnt t = do {
     n \<leftarrow> load_t (member_at XDM2_BufDesc [''numBufs''] (p_inBufs g)) t;
     k \<leftarrow> (if n \<noteq> 0 then load_t (member_at XDM2_BufDesc [''numBufs''] (p_outBufs g)) t else Some 0);
     (if n \<noteq> 0 \<and> k \<noteq> 0 then do {
        (pr, t) \<leftarrow> decode_step A R a stride g codec in_cnt out_cnt t;
        (case pr of
           Shutdown \<Rightarrow> Some t
         | Go ic oc \<Rightarrow> decode_loop A R a stride g codec ic oc t) }
      else Some t) }"

subsection \<open>The program\<close>

text \<open>The label \<open>out\<close>.\<close>

definition out_label :: "'w test_api \<Rightarrow> 'w rcm_api \<Rightarrow> ptrs \<Rightarrow> 'w test \<Rightarrow> (u32 \<times> 'w test) option" where
  "out_label A R g t = do {
     t \<leftarrow> (if p_engine g \<noteq> 0 then stub_void (Engine_close R (p_engine g)) t else Some t);
     let t = fold (tfree A) [p_params g, p_dynParams g, p_status g, p_inBufs g, p_outBufs g,
       p_inArgs g, p_outArgs g] t;
     let t = (if p_input g \<noteq> 0 then set_world (tm_free A (p_input g) (tworld t)) t else t);
     t \<leftarrow> output_free A t;
     Some (0, t) }"

definition test_main :: "'w test_api \<Rightarrow> 'w rcm_api \<Rightarrow> cstr list \<Rightarrow> 'w test \<Rightarrow> (u32 \<times> 'w test) option" where
  "test_main A R argv t =
     (case parse_args argv of
        None \<Rightarrow> Some (1, t)
      | Some a \<Rightarrow> do {
          (stride, t) \<leftarrow> set_dims a t;
          (st, t) \<leftarrow> setup_codec A R t;
          (case st of
             Out g \<Rightarrow> out_label A R g t
           | Ready g codec \<Rightarrow> do {
               (st, t) \<leftarrow> setup_buffers A stride g codec t;
               (case st of
                  Out g \<Rightarrow> out_label A R g t
                | Ready g codec \<Rightarrow> do {
                    t \<leftarrow> decode_loop A R a stride g codec 0 0 t;
                    t \<leftarrow> stub_void (VIDDEC3_delete R codec) t;
                    out_label A R g t }) }) })"

end
