(* ===== verification/Test_Pool.thy ===== *)
theory Test_Pool
  imports Test_Buffers
begin

text \<open>
  Properties of the buffer pool of \<^verbatim>\<open>test.c\<close>. The list that starts at \<open>head\<close> is related to the
  list of its addresses; \<open>output_get\<close> and \<open>output_release\<close> are its pop and push; \<open>output_free\<close>
  walks it and gives every block back. The contract that a user of such a pool relies on is the
  locale \<open>buffer_pool\<close>, its consequence that a buffer is either free or held, and never both.
\<close>

subsection \<open>List segments\<close>

fun lseg :: "cells \<Rightarrow> u32 \<Rightarrow> u32 list \<Rightarrow> u32 \<Rightarrow> bool" where
  "lseg st p [] q \<longleftrightarrow> p = q"
| "lseg st p (x # xs) q \<longleftrightarrow>
     p = x \<and> x \<noteq> 0 \<and> (case st x of Some c \<Rightarrow> lseg st (ob_next c) xs q | None \<Rightarrow> False)"

definition free_list :: "'w test \<Rightarrow> u32 list \<Rightarrow> bool" where
  "free_list t xs \<longleftrightarrow> lseg (cells t) (head t) xs 0 \<and> distinct xs"

lemma lseg_cong: "(\<And>x. x \<in> set xs \<Longrightarrow> st x = st' x) \<Longrightarrow> lseg st p xs q = lseg st' p xs q"
  by (induction xs arbitrary: p) (auto split: option.splits)

lemma lseg_upd [simp]: "x \<notin> set xs \<Longrightarrow> lseg (st(x := c)) p xs q = lseg st p xs q"
  by (rule lseg_cong) auto

lemma lseg_append: "lseg st p (xs @ ys) q \<longleftrightarrow> (\<exists>r. lseg st p xs r \<and> lseg st r ys q)"
  by (induction xs arbitrary: p) (auto split: option.splits)

lemma lseg_dom: "lseg st p xs q \<Longrightarrow> set xs \<subseteq> dom st \<and> 0 \<notin> set xs"
  by (induction xs arbitrary: p) (auto split: option.splits)

lemma lseg_head: "lseg st p xs q \<Longrightarrow> p = (case xs of [] \<Rightarrow> q | x # _ \<Rightarrow> x)"
  by (cases xs) auto

lemma lseg_unique: "lseg st p xs 0 \<Longrightarrow> lseg st p ys 0 \<Longrightarrow> xs = ys"
proof (induction xs arbitrary: p ys)
  case (Cons x xs)
  then show ?case by (cases ys) (auto split: option.splits)
next
  case Nil
  then show ?case by (cases ys) auto
qed

subsection \<open>Operations on the free list\<close>

lemma get_empty: "free_list t [] \<Longrightarrow> output_get t = Some (0, t)"
  by (simp add: free_list_def output_get_def)

lemma get_first:
  assumes "free_list t (x # xs)"
  shows "\<exists>t'. output_get t = Some (x, t') \<and> free_list t' xs \<and> cells t' = cells t \<and>
     tproc t' = tproc t \<and> x \<noteq> 0"
  using assms by (auto simp: free_list_def output_get_def split: option.splits)

lemma release_first:
  assumes "free_list t xs" "x \<in> dom (cells t)" "x \<noteq> 0" "x \<notin> set xs"
  shows "\<exists>t'. output_release x t = Some t' \<and> free_list t' (x # xs) \<and> dom (cells t') = dom (cells t) \<and>
     tproc t' = tproc t"
  using assms by (auto simp: free_list_def output_release_def)

subsection \<open>The contract of a pool of buffers\<close>

text \<open>
  A user of the pool takes a buffer, and puts buffers back; \<open>avail\<close> is the abstract free list and
  \<open>live\<close> the buffers that exist. Buffers are put back in any order and number.
\<close>

fun put_all :: "('b \<Rightarrow> 's \<Rightarrow> 's option) \<Rightarrow> 'b list \<Rightarrow> 's \<Rightarrow> 's option" where
  "put_all put [] s = Some s"
| "put_all put (b # bs) s = do { s \<leftarrow> put b s; put_all put bs s }"

locale buffer_pool =
  fixes take1 :: "'s \<Rightarrow> ('b \<times> 's) option"
    and put1 :: "'b \<Rightarrow> 's \<Rightarrow> 's option"
    and avail :: "'s \<Rightarrow> 'b list \<Rightarrow> bool"
    and live :: "'s \<Rightarrow> 'b set"
  assumes take1_law: "avail s (x # xs) \<Longrightarrow>
      \<exists>s'. take1 s = Some (x, s') \<and> avail s' xs \<and> live s' = live s"
    and put1_law: "avail s xs \<Longrightarrow> x \<in> live s \<Longrightarrow> x \<notin> set xs \<Longrightarrow>
      \<exists>s'. put1 x s = Some s' \<and> avail s' (x # xs) \<and> live s' = live s"
    and avail_live: "avail s xs \<Longrightarrow> set xs \<subseteq> live s \<and> distinct xs"
begin

text \<open>The buffers of a state are split between the free ones and those somebody holds.\<close>

definition split_up :: "'s \<Rightarrow> 'b list \<Rightarrow> 'b set \<Rightarrow> bool" where
  "split_up s xs H \<longleftrightarrow> avail s xs \<and> H \<subseteq> live s \<and> H \<inter> set xs = {}"

lemma take_splits:
  assumes "split_up s (x # xs) H"
  shows "\<exists>s'. take1 s = Some (x, s') \<and> split_up s' xs (insert x H) \<and> x \<notin> H \<and> live s' = live s"
proof -
  from assms have "avail s (x # xs)" by (simp add: split_up_def)
  from take1_law [OF this] obtain s' where "take1 s = Some (x, s')" "avail s' xs" "live s' = live s"
    by blast
  with assms avail_live show ?thesis by (fastforce simp: split_up_def)
qed

lemma put_all_splits:
  assumes "split_up s xs H" "distinct bs" "set bs \<subseteq> H"
  shows "\<exists>s'. put_all put1 bs s = Some s' \<and> split_up s' (rev bs @ xs) (H - set bs) \<and> live s' = live s"
  using assms
proof (induction bs arbitrary: s xs H)
  case (Cons b bs)
  then have "avail s xs" "b \<in> live s" "b \<notin> set xs" by (auto simp: split_up_def)
  with put1_law obtain s1 where p: "put1 b s = Some s1" "avail s1 (b # xs)" "live s1 = live s" by metis
  then have "split_up s1 (b # xs) (H - {b})" using Cons.prems(1) by (auto simp: split_up_def)
  moreover have "distinct bs" "set bs \<subseteq> H - {b}" using Cons.prems(2,3) by auto
  ultimately obtain s2 where "put_all put1 bs s1 = Some s2"
    "split_up s2 (rev bs @ b # xs) (H - {b} - set bs)" "live s2 = live s1"
    using Cons.IH by metis
  moreover have "H - set (b # bs) = H - {b} - set bs" by auto
  ultimately show ?case using p(1,3) by simp
qed simp

text \<open>A round: take a buffer, hand it over, put back some of the buffers that are held now.\<close>

lemma round_splits:
  assumes "split_up s (x # xs) H" "distinct bs" "set bs \<subseteq> insert x H"
  shows "\<exists>s1 s2. take1 s = Some (x, s1) \<and> put_all put1 bs s1 = Some s2 \<and>
     split_up s2 (rev bs @ xs) (insert x H - set bs) \<and> live s2 = live s"
  using take_splits [OF assms(1)] put_all_splits [OF _ assms(2,3)] by metis

end

definition pool_cells :: "'w test \<Rightarrow> u32 set" where
  "pool_cells t = dom (cells t) - {0}"

interpretation pool: buffer_pool output_get output_release free_list pool_cells
proof
  fix t :: "'a test" and x xs
  assume "free_list t (x # xs)"
  then show "\<exists>t'. output_get t = Some (x, t') \<and> free_list t' xs \<and> pool_cells t' = pool_cells t"
    using get_first [of t x xs] by (auto simp: pool_cells_def)
next
  fix t :: "'a test" and x xs
  assume "free_list t xs" "x \<in> pool_cells t" "x \<notin> set xs"
  then show "\<exists>t'. output_release x t = Some t' \<and> free_list t' (x # xs) \<and> pool_cells t' = pool_cells t"
    using release_first [of t xs x] by (auto simp: pool_cells_def)
next
  fix t :: "'a test" and xs
  assume "free_list t xs"
  then show "set xs \<subseteq> pool_cells t \<and> distinct xs"
    using lseg_dom [of "cells t" "head t" xs 0] by (auto simp: free_list_def pool_cells_def)
qed
subsection \<open>Giving all free buffers back\<close>

text \<open>The effect of freeing one cell on the allocators, and of a sequence of cells.\<close>

definition free_cell :: "'w test_api \<Rightarrow> u32 \<times> u32 \<Rightarrow> 'w \<times> mem \<Rightarrow> 'w \<times> mem" where
  "free_cell A pb wm = (case tm_free A (snd pb) wm of (w, m) \<Rightarrow> (t_free A (fst pb) w, m))"

lemma free_head_parts:
  assumes "cells t (head t) = Some c"
  shows "head (free_head A c t) = ob_next c" "cells (free_head A c t) = (cells t)(head t := None)"
    "tworld (free_head A c t) = free_cell A (head t, ob_buf c) (tworld t)"
  using assms by (simp_all add: free_head_def tworld_def set_world_def free_cell_def Let_def case_prod_beta)

text \<open>The loop runs along a list segment, freeing its cells in order.\<close>

lemma output_free_segment:
  assumes "lseg (cells t) (head t) xs q" "distinct xs"
  shows "\<exists>t'. output_free A t = output_free A t' \<and> head t' = q \<and> cells t' = cells t |` (- set xs) \<and>
     tworld t' = fold (free_cell A) (map (\<lambda>x. (x, ob_buf (the (cells t x)))) xs) (tworld t)"
  using assms
proof (induction xs arbitrary: t)
  case Nil
  then show ?case by (intro exI [of _ t]) (simp add: restrict_map_def)
next
  case (Cons x xs)
  then obtain c where c: "head t = x" "x \<noteq> 0" "cells t x = Some c" "lseg (cells t) (ob_next c) xs q"
    "x \<notin> set xs" "distinct xs" by (auto split: option.splits)
  let ?u = "free_head A c t"
  have u: "head ?u = ob_next c" "cells ?u = (cells t)(x := None)"
    "tworld ?u = free_cell A (x, ob_buf c) (tworld t)"
    using free_head_parts [of t c A] c(1,3) by simp_all
  have "lseg (cells ?u) (head ?u) xs q" using c(4,5) u(1,2) by simp
  from Cons.IH [OF this c(6)] obtain t' where t': "output_free A ?u = output_free A t'" "head t' = q"
    "cells t' = cells ?u |` (- set xs)"
    "tworld t' = fold (free_cell A) (map (\<lambda>x. (x, ob_buf (the (cells ?u x)))) xs) (tworld ?u)" by blast
  have "output_free A t = output_free A ?u" using c(1-3) by (subst output_free.simps) simp
  moreover have "cells ?u |` (- set xs) = cells t |` (- set (x # xs))"
    using u(2) by (auto simp: restrict_map_def fun_eq_iff)
  moreover have m: "map (\<lambda>x. (x, ob_buf (the (cells ?u x)))) xs = map (\<lambda>x. (x, ob_buf (the (cells t x)))) xs"
    using u(2) c(5) by auto
  moreover have "tworld t' = fold (free_cell A) (map (\<lambda>x. (x, ob_buf (the (cells t x)))) (x # xs)) (tworld t)"
    using t'(4) u(3) c(1,3) unfolding m by simp
  ultimately show ?case using t'(1-3) by (intro exI [of _ t']) simp
qed

lemma output_free_result:
  assumes "free_list t xs"
  shows "\<exists>t'. output_free A t = Some t' \<and> free_list t' [] \<and> cells t' = cells t |` (- set xs) \<and>
     tworld t' = fold (free_cell A) (map (\<lambda>x. (x, ob_buf (the (cells t x)))) xs) (tworld t)"
proof -
  obtain t' where "output_free A t = output_free A t'" "head t' = 0" "cells t' = cells t |` (- set xs)"
    "tworld t' = fold (free_cell A) (map (\<lambda>x. (x, ob_buf (the (cells t x)))) xs) (tworld t)"
    using output_free_segment [of t xs 0 A] assms by (auto simp: free_list_def)
  then show ?thesis by (simp add: free_list_def output_free.simps)
qed

subsection \<open>Filling the pool\<close>

lemma desc_offsets [simp]:
  "fld XDM2_BufDesc [''numBufs''] = 0" "fld XDM2_BufDesc [''descs''] = 4"
  "fld XDM2_SingleBufDesc [''buf''] = 0" "fld XDM2_SingleBufDesc [''memType''] = 4"
  "fld XDM2_SingleBufDesc [''bufSize'', ''bytes''] = 8"
  "fld XDM2_SingleBufDesc [''bufSize'', ''tileMem'', ''width''] = 8"
  "fld XDM2_SingleBufDesc [''bufSize'', ''tileMem'', ''height''] = 12"
  by code_simp+

lemma set_mem_simps [simp]:
  "tmem (set_mem m t) = m" "cells (set_mem m t) = cells t" "head (set_mem m t) = head t"
  "set_mem m (set_mem m' t) = set_mem m t" "tworld (set_mem m t) = (pw (tproc t), m)"
  by (simp_all add: set_mem_def tworld_def)

lemma set_world_simps [simp]:
  "cells (set_world wm t) = cells t" "head (set_world wm t) = head t"
  by (simp_all add: set_world_def)

definition same_map :: "mem \<Rightarrow> mem \<Rightarrow> bool" where
  "same_map m m' \<longleftrightarrow> dom m' = dom m"

lemma same_map_mapped: "same_map m m' \<Longrightarrow> mapped m' a n = mapped m a n"
  by (auto simp: same_map_def mapped_iff domIff set_eq_iff)

lemma same_map_trans: "same_map m m' \<Longrightarrow> same_map m' m'' \<Longrightarrow> same_map m m''"
  by (simp add: same_map_def)

lemma store_bytes_same_map:
  "mapped m a (length bs) \<Longrightarrow> \<exists>m'. store_bytes m a bs = Some m' \<and> same_map m m'"
proof (induction bs arbitrary: m a)
  case Nil
  then show ?case by (simp add: same_map_def)
next
  case (Cons b bs)
  then obtain c where c: "m a = Some c" and r: "mapped m (a + 1) (length bs)"
    by (auto simp: mapped_Suc)
  have s: "same_map m (m(a \<mapsto> b))" using c by (auto simp: same_map_def)
  with r have "mapped (m(a \<mapsto> b)) (a + 1) (length bs)" by (simp add: same_map_mapped)
  from Cons.IH [OF this] obtain m' where "store_bytes (m(a \<mapsto> b)) (a + 1) bs = Some m'"
    "same_map (m(a \<mapsto> b)) m'" by blast
  then show ?case using c same_map_trans [OF s] by (auto simp: store8_def)
qed

lemma assign32_ok:
  "mapped (tmem t) a 4 \<Longrightarrow> \<exists>m'. assign32 a v t = Some (set_mem m' t) \<and> same_map (tmem t) m'"
  using store_bytes_same_map [of "tmem t" a "bytes_of v"] by (auto simp: assign32_def store32_def)

lemma assign16_ok:
  "mapped (tmem t) a 2 \<Longrightarrow> \<exists>m'. assign16 a v t = Some (set_mem m' t) \<and> same_map (tmem t) m'"
  using store_bytes_same_map [of "tmem t" a "take 2 (bytes_of v)"] by (auto simp: assign16_def)

text \<open>A chain of assignments into a mapped block succeeds.\<close>

definition assigns :: "u32 \<Rightarrow> nat \<Rightarrow> ('w test \<Rightarrow> 'w test option) \<Rightarrow> bool" where
  "assigns a n f \<longleftrightarrow> (\<forall>t. mapped (tmem t) a n \<longrightarrow>
     (\<exists>m'. f t = Some (set_mem m' t) \<and> same_map (tmem t) m'))"

lemma assigns_at: "assigns (a + b) n f \<Longrightarrow> unat b + n \<le> l \<Longrightarrow> assigns a l f"
  using mapped_tail [of _ a l "unat b" n] by (auto simp: assigns_def)

lemma assigns_mono: "assigns a n f \<Longrightarrow> n \<le> l \<Longrightarrow> assigns a l f"
  by (auto simp: assigns_def dest: mapped_mono)

lemma assigns_seq:
  assumes "assigns a n f" "assigns a n g"
  shows "assigns a n (\<lambda>t. Option.bind (f t) g)"
  unfolding assigns_def
proof (intro allI impI)
  fix t :: "'a test"
  assume m: "mapped (tmem t) a n"
  then obtain m1 where 1: "f t = Some (set_mem m1 t)" "same_map (tmem t) m1"
    using assms(1) unfolding assigns_def by blast
  then have "mapped (tmem (set_mem m1 t)) a n" using m by (simp add: same_map_mapped)
  then obtain m2 where 2: "g (set_mem m1 t) = Some (set_mem m2 (set_mem m1 t))"
    "same_map (tmem (set_mem m1 t)) m2"
    using assms(2) unfolding assigns_def by blast
  then show "\<exists>m'. Option.bind (f t) g = Some (set_mem m' t) \<and> same_map (tmem t) m'"
    using 1 same_map_trans by auto
qed

lemma assign_assigns: "assigns b 4 (assign32 b x)" "assigns b 2 (assign16 b x)"
  using assign32_ok assign16_ok by (auto simp: assigns_def)

lemma set_desc_assigns:
  "assigns d 20 (set_memType v d)" "assigns d 20 (set_buf x d)" "assigns d 20 (set_bytes x d)"
  "assigns d 324 (set_numBufs x d)"
  by (auto simp: set_memType_def set_buf_def set_bytes_def set_numBufs_def member_at_def
      intro: assigns_at [OF assign_assigns(1)] assigns_at [OF assign_assigns(2)]
        assigns_mono [OF assign_assigns(1)])

lemma set_area_assigns: "assigns d 20 (set_area x y d)"
  unfolding set_area_def
  by (intro assigns_seq) (auto simp: member_at_def intro: assigns_at [OF assign_assigns(1)])

lemma desc_assigns: "i < 16 \<Longrightarrow> assigns (desc i p) 20 f \<Longrightarrow> assigns p 324 f"
  by (rule assigns_at [of p "of_nat (4 + i * 20)" 20])
     (simp_all add: elem_at_def layout unsigned_of_nat take_bit_nat_eq_self del: of_nat_add of_nat_mult)

text \<open>The sizes that \<open>output_allocate\<close> asks \<open>tiler_alloc\<close> for.\<close>

definition plane_dims :: "u32 \<Rightarrow> u32 \<Rightarrow> u32 \<Rightarrow> u32 \<times> u32" where
  "plane_dims w h stride =
     (if stride \<noteq> 4096 then (stride * h + cdiv (stride * h) 2, 0) else (w, h))"

lemma init_descs_ok:
  assumes "mapped (tmem t) p 324"
  shows "\<exists>m'. init_descs p w h stride t = Some (plane_dims w h stride, set_mem m' t) \<and> same_map (tmem t) m'"
proof -
  have d: "assigns p 324 (set_memType v (desc i p))" "assigns p 324 (set_bytes x (desc i p))"
    "assigns p 324 (set_area x y (desc i p))" if "i < 16" for v x y i
    using that desc_assigns set_desc_assigns set_area_assigns by blast+
  note seq = assigns_seq [OF _ assigns_seq [OF _ assigns_seq [OF _ assigns_seq]]]
  let ?n = "set_numBufs 2 p"
  show ?thesis
  proof (cases "stride = 4096")
    case False
    have "assigns p 324 (\<lambda>t. Option.bind (?n t) (\<lambda>t. Option.bind (set_memType XDM_MEMTYPE_TILEDPAGE (desc 0 p) t)
      (\<lambda>t. Option.bind (set_bytes (stride * h) (desc 0 p) t)
      (\<lambda>t. Option.bind (set_memType XDM_MEMTYPE_TILEDPAGE (desc 1 p) t)
        (set_bytes (cdiv (stride * h) 2) (desc 1 p))))))"
      by (intro assigns_seq d set_desc_assigns) simp_all
    then show ?thesis using False assms
      by (fastforce simp: assigns_def init_descs_def plane_dims_def Let_def split: Option.bind_splits)
  next
    case True
    have "assigns p 324 (\<lambda>t. Option.bind (?n t) (\<lambda>t. Option.bind (set_memType XDM_MEMTYPE_TILED8 (desc 0 p) t)
      (\<lambda>t. Option.bind (set_area w h (desc 0 p) t)
      (\<lambda>t. Option.bind (set_memType XDM_MEMTYPE_TILED16 (desc 1 p) t)
        (set_area w (cdiv h 2) (desc 1 p))))))"
      by (intro assigns_seq d set_desc_assigns) simp_all
    then show ?thesis using True assms
      by (fastforce simp: assigns_def init_descs_def plane_dims_def split: Option.bind_splits)
  qed
qed

text \<open>\<open>calloc\<close> returns a fresh address while fewer than \<open>N\<close> cells are live.\<close>

definition calloc_fresh :: "'w test_api \<Rightarrow> nat \<Rightarrow> bool" where
  "calloc_fresh A N \<longleftrightarrow> (\<forall>st w. card (dom st) < N \<longrightarrow>
     fst (t_calloc A st w) \<notin> dom st \<and> fst (t_calloc A st w) \<noteq> 0)"

text \<open>The two planes of a buffer: \<open>Y\<close> at its start, \<open>UV\<close> behind the lines of \<open>Y\<close>.\<close>

definition planes_ok :: "'w test_api \<Rightarrow> u32 \<Rightarrow> u32 \<Rightarrow> OutputBuffer \<Rightarrow> bool" where
  "planes_ok A h stride c \<longleftrightarrow>
     ob_y c = tm_phys A (ob_buf c) \<and> ob_uv c = tm_phys A (ob_buf c + h * stride)"

lemma alloc_buffers_fills:
  assumes "calloc_fresh A (card (dom (cells t)) + n)" "free_list t xs"
  shows "\<exists>t' new. alloc_buffers A tw th h stride n t = Some t' \<and> free_list t' (new @ xs) \<and>
     length new = n \<and> set new \<inter> dom (cells t) = {} \<and>
     (\<forall>p\<in>set new. \<exists>c. cells t' p = Some c \<and> planes_ok A h stride c) \<and>
     (\<forall>p\<in>dom (cells t). cells t' p = cells t p)"
  using assms
proof (induction n arbitrary: t xs)
  case 0
  then show ?case by (intro exI [of _ t] exI [of _ "[]"]) simp
next
  case (Suc n)
  obtain p w where p: "t_calloc A (cells t) (pw (tproc t)) = (p, w)" by fastforce
  with Suc.prems(1) have new: "p \<notin> dom (cells t)" "p \<noteq> 0"
    by (metis calloc_fresh_def fst_conv less_add_same_cancel1 zero_less_Suc)+
  obtain b wm where b: "tiler_alloc A tw th (t\<lparr>tproc := (tproc t)\<lparr>pw := w\<rparr>\<rparr>) =
      (b, set_world wm (t\<lparr>tproc := (tproc t)\<lparr>pw := w\<rparr>\<rparr>))"
    by (fastforce simp: tiler_alloc_def Let_def split: prod.splits)
  let ?c = "\<lparr>ob_buf = b, ob_y = tm_phys A b, ob_uv = tm_phys A (b + h * stride), ob_next = head t\<rparr>"
  let ?t = "(set_world wm (t\<lparr>tproc := (tproc t)\<lparr>pw := w\<rparr>\<rparr>))\<lparr>cells := (cells t)(p \<mapsto> ?c), head := p\<rparr>"
  have "set xs \<subseteq> dom (cells t)" using pool.avail_live [OF Suc.prems(2)] by (auto simp: pool_cells_def)
  then have "p \<notin> set xs" using new(1) by blast
  then have "free_list ?t (p # xs)" using Suc.prems(2) new(2) by (simp add: free_list_def)
  moreover have "card (dom (cells ?t)) + n = card (dom (cells t)) + Suc n" using new(1) by simp
  ultimately obtain t' ns where r: "alloc_buffers A tw th h stride n ?t = Some t'"
    "free_list t' (ns @ p # xs)" "length ns = n" "set ns \<inter> dom (cells ?t) = {}"
    "\<forall>p\<in>set ns. \<exists>c. cells t' p = Some c \<and> planes_ok A h stride c"
    "\<forall>p\<in>dom (cells ?t). cells t' p = cells ?t p"
    using Suc.IH [of ?t "p # xs"] Suc.prems(1) by metis
  have "alloc_buffers A tw th h stride (Suc n) t = Some t'" using p b new(2) r(1) by simp
  moreover have "\<exists>c. cells t' p = Some c \<and> planes_ok A h stride c" using r(6) by (simp add: planes_ok_def)
  ultimately show ?case using r(2-6) new(1)
    by (intro exI [of _ t'] exI [of _ "ns @ [p]"]) (auto simp: domIff)
qed

text \<open>
  C17: on an empty pool and a mapped descriptor block, \<open>output_allocate\<close> returns 0 and fills the pool
  with exactly \<open>cnt\<close> different buffers, whose plane addresses are the physical addresses of the
  buffer and of the line after its last one; \<open>output_free\<close> then empties the pool, and each
  of the \<open>cnt\<close> cells and their memory is given back once.
\<close>

theorem output_pool_lifecycle:
  assumes "calloc_fresh A (card (dom (cells t)) + unat cnt)" "free_list t []"
    and "mapped (tmem t) outBufs 324"
  shows "\<exists>t1 new t2. output_allocate A outBufs cnt w h stride t = Some (0, t1) \<and>
     free_list t1 new \<and> length new = unat cnt \<and>
     (\<forall>p\<in>set new. \<exists>c. cells t1 p = Some c \<and> planes_ok A h stride c) \<and>
     output_free A t1 = Some t2 \<and> free_list t2 [] \<and> cells t2 |` dom (cells t) = cells t \<and>
     tworld t2 = fold (free_cell A) (map (\<lambda>x. (x, ob_buf (the (cells t1 x)))) new) (tworld t1)"
proof -
  obtain m' where d: "init_descs outBufs w h stride t = Some (plane_dims w h stride, set_mem m' t)"
    using init_descs_ok [OF assms(3)] by blast
  obtain tw th where pd: "plane_dims w h stride = (tw, th)" by fastforce
  have "free_list (set_mem m' t) []" using assms(2) by (simp add: free_list_def)
  then obtain t1 new where a: "alloc_buffers A tw th h stride (unat cnt) (set_mem m' t) = Some t1"
    "free_list t1 new" "length new = unat cnt" "set new \<inter> dom (cells t) = {}"
    "\<forall>p\<in>set new. \<exists>c. cells t1 p = Some c \<and> planes_ok A h stride c"
    "\<forall>p\<in>dom (cells t). cells t1 p = cells t p"
    using alloc_buffers_fills [of A "set_mem m' t" "unat cnt" "[]" tw th h stride] assms(1) by auto
  obtain t2 where f: "output_free A t1 = Some t2" "head t2 = 0" "cells t2 = cells t1 |` (- set new)"
    "tworld t2 = fold (free_cell A) (map (\<lambda>x. (x, ob_buf (the (cells t1 x)))) new) (tworld t1)"
    using output_free_result [OF a(2)] by (auto simp: free_list_def)
  have "cells t2 |` dom (cells t) = cells t"
  proof
    fix x
    show "(cells t2 |` dom (cells t)) x = cells t x"
      using a(4,6) f(3) by (cases "x \<in> dom (cells t)") (auto simp: restrict_map_def domIff)
  qed
  moreover have "output_allocate A outBufs cnt w h stride t = Some (0, t1)"
    using d pd a(1) by (simp add: output_allocate_def)
  ultimately show ?thesis using a(2,3,5) f by (auto simp: free_list_def)
qed

text \<open>A heap of two cells, an allocator that counts its blocks, and files that are empty.\<close>

definition sample_tapi :: "u32 test_api" where
  "sample_tapi = \<lparr>t_calloc = (\<lambda>st w. (if st 4096 = None then 4096 else 8192, w)), t_free = (\<lambda>p w. w),
     tm_alloc = (\<lambda>b (w, m). (w, w + 0x10000, m)), tm_free = (\<lambda>p wm. wm), tm_phys = (\<lambda>v. v + 0x60000000),
     t_open = (\<lambda>p wr w. (3, w)), t_read = (\<lambda>fd p n wm. (0, wm)), t_write = (\<lambda>fd p n (w, m). (n, w)),
     t_close = (\<lambda>fd w. w), t_usec = (\<lambda>w. (0, w))\<rparr>"

definition init_test :: "'w proc \<Rightarrow> 'w test" where
  "init_test p = \<lparr>tproc = p, head = 0, cells = Map.empty, path_len = 0, width = 0, height = 0,
     padded_width = 0, padded_height = 0, num_buffers = 0\<rparr>"

lemma sample_calloc_fresh: "calloc_fresh sample_tapi 2"
  unfolding calloc_fresh_def
proof (intro allI impI)
  fix st :: cells and w :: u32
  assume less: "card (dom st) < 2"
  have "\<not> {4096, 8192} \<subseteq> dom st"
  proof
    assume "{4096, 8192} \<subseteq> dom st"
    then have "card {4096 :: u32, 8192} \<le> card (dom st)" by (rule card_mono [OF finite])
    with less show False by simp
  qed
  then show "fst (t_calloc sample_tapi st w) \<notin> dom st \<and> fst (t_calloc sample_tapi st w) \<noteq> 0"
    by (auto simp: sample_tapi_def)
qed

lemma output_pool_lifecycle_witness:
  "\<exists>t1 new t2. output_allocate sample_tapi 0x1000 2 320 240 4096
       (init_test (init_proc (\<lambda>a. Some 0) 0x10000)) = Some (0, t1) \<and>
     free_list t1 new \<and> length new = 2 \<and> output_free sample_tapi t1 = Some t2 \<and> free_list t2 []"
proof -
  let ?t = "init_test (init_proc (\<lambda>a. Some 0) 0x10000)"
  have "calloc_fresh sample_tapi (card (dom (cells ?t)) + unat (2 :: u32))" "free_list ?t []"
    "mapped (tmem ?t) 0x1000 324"
    using sample_calloc_fresh [unfolded numeral_2_eq_2]
    by (simp_all add: init_test_def init_proc_def free_list_def mapped_iff)
  from output_pool_lifecycle [OF this, of 320 240 4096] show ?thesis by auto
qed

subsection \<open>Releasing a buffer twice\<close>

text \<open>
  A buffer that is released while it is on the free list closes the list into a ring. The next
  \<open>output_free\<close> reads a cell it has freed.
\<close>

lemma double_release_reads_freed_cell:
  assumes "free_list t xs" "x \<in> set xs"
  shows "\<exists>t'. output_release x t = Some t' \<and> output_free A t' = None"
proof -
  obtain c where c: "cells t x = Some c" "x \<noteq> 0"
    using assms(2) pool.avail_live [OF assms(1)] by (auto simp: pool_cells_def)
  let ?t = "t\<lparr>cells := (cells t)(x \<mapsto> c\<lparr>ob_next := head t\<rparr>), head := x\<rparr>"
  obtain as bs where xs: "xs = as @ x # bs" using assms(2) by (meson split_list)
  have d: "distinct (x # as)" using assms(1) xs by (auto simp: free_list_def)
  have "lseg (cells t) (head t) as x"
    using assms(1) xs by (auto simp: free_list_def lseg_append)
  then have "lseg (cells ?t) (head ?t) (x # as) x" using c(2) d by simp
  from output_free_segment [OF this d] obtain t' where t': "output_free A ?t = output_free A t'"
    "head t' = x" "cells t' = cells ?t |` (- set (x # as))" by blast
  then have "output_free A t' = None" using c(2) by (subst output_free.simps) simp
  with t'(1) c(1) show ?thesis by (simp add: output_release_def)
qed
lemma double_release_reads_freed_cell_witness:
  "\<exists>t'. output_release 8192 ((init_test (init_proc (\<lambda>a. None) 0))
       \<lparr>head := 4096, cells := [4096 \<mapsto> \<lparr>ob_buf = 1, ob_y = 1, ob_uv = 2, ob_next = 8192\<rparr>,
          8192 \<mapsto> \<lparr>ob_buf = 3, ob_y = 3, ob_uv = 4, ob_next = 0\<rparr>]\<rparr>) = Some t' \<and>
     output_free sample_tapi t' = None"
  by (rule double_release_reads_freed_cell [of _ "[4096, 8192]"]) (simp_all add: free_list_def)

end
