(* ===== verification/Test_Files.thy ===== *)
theory Test_Files
  imports Test_Io Test_Pool
begin

text \<open>
  Properties of the file helpers of \<^verbatim>\<open>test.c\<close>: file names fit their buffer and differ from
  frame to frame, \<open>read_input\<close> stores a whole file whatever the size of the buffer, and
  \<open>write_output\<close> writes the visible part of both planes line by line. What the operating
  system does is stated by two contracts: a regular file is delivered in non-empty pieces until
  its end, and a write stores a non-empty piece of what it is given.
\<close>

subsection \<open>Names of frames\<close>

lemma sint_nonneg:
  fixes c :: u32
  assumes "0 \<le> sint c"
  shows "sint c = int (unat c)"
proof -
  have "sint c = uint c - 2 ^ 32 * of_bool (bit (uint c) 31)"
    using signed_take_bit_eq_take_bit_minus [of 31 "uint c"] by (simp add: sint_uint take_bit_int_eq_self uint_lt2p [where 'a=32, simplified])
  with assms uint_lt2p [of c] show ?thesis by (auto split: if_splits)
qed

lemma nonneg_unat_less:
  fixes c :: u32
  assumes "0 \<le> sint c"
  shows "unat c < 2 ^ 31"
proof -
  have "int (unat c) < 2 ^ 31" using sint_lt [of c] sint_nonneg [OF assms] by simp
  then show ?thesis by (simp only: of_nat_less_numeral_power_cancel_iff)
qed

lemma length_decimal_pos: "0 < length (decimal n)"
  by (subst decimal.simps) simp

lemma length_decimal: "n < 10 ^ Suc k \<Longrightarrow> length (decimal n) \<le> Suc k"
proof (induction k arbitrary: n)
  case 0
  then show ?case by (subst decimal.simps) simp
next
  case (Suc k)
  then have "n div 10 < 10 ^ Suc k" by auto
  from Suc.IH [OF this] show ?case by (subst decimal.simps) auto
qed

lemma digit_word:
  assumes "k < 10"
  shows "unat (48 + of_nat k :: u8) = 48 + k" "(48 :: u8) \<le> 48 + of_nat k" "48 + of_nat k \<le> (57 :: u8)"
proof -
  have "k = 0 \<or> k = 1 \<or> k = 2 \<or> k = 3 \<or> k = 4 \<or> k = 5 \<or> k = 6 \<or> k = 7 \<or> k = 8 \<or> k = 9"
    using assms by presburger
  then show "unat (48 + of_nat k :: u8) = 48 + k" "(48 :: u8) \<le> 48 + of_nat k" "48 + of_nat k \<le> (57 :: u8)"
    by auto
qed

text \<open>Reading digits back gives the number that was printed.\<close>

lemma read_num_append:
  "set ds \<subseteq> {48..57} \<Longrightarrow> read_num a (ds @ es) = read_num (fst (read_num a ds)) es"
  by (induction a ds rule: read_num.induct) auto

lemma decimal_digits: "set (decimal n) \<subseteq> {48..57}"
proof (induction n rule: decimal.induct)
  case (1 n)
  then show ?case using digit_word(2,3) [of n] digit_word(2,3) [of "n mod 10"]
    by (subst decimal.simps) auto
qed

lemma read_num_decimal: "fst (read_num 0 (decimal n)) = n"
proof (induction n rule: decimal.induct)
  case (1 n)
  show ?case
  proof (cases "n < 10")
    case True
    then show ?thesis using digit_word [of n] by (subst decimal.simps) simp
  next
    case False
    have "read_num 0 (decimal n) = read_num (n div 10) [48 + of_nat (n mod 10)]"
      using False 1 read_num_append [OF decimal_digits]
      by (subst decimal.simps) simp
    with digit_word [of "n mod 10"] show ?thesis by simp
  qed
qed

lemma read_num_zeros: "fst (read_num 0 (replicate k 48 @ ds)) = fst (read_num 0 ds)"
  by (induction k) simp_all

text \<open>The conversions \<open>%d\<close> (width 0) and \<open>%0wd\<close>, and what they print for a count.\<close>

definition conversion :: "nat \<Rightarrow> cstr" where
  "conversion w = 37 # (if w = 0 then [] else [48, 48 + of_nat w]) @ [100]"

definition padded :: "nat \<Rightarrow> nat \<Rightarrow> bytes" where
  "padded w n = replicate (w - length (decimal n)) 48 @ decimal n"

lemma padded_inj: "padded w n = padded w k \<Longrightarrow> n = k"
  by (metis padded_def read_num_zeros read_num_decimal)

lemma format_plain: "37 \<notin> set pre \<Longrightarrow> format_str (pre @ cs) args = map_option ((@) pre) (format_str cs args)"
  by (induction pre) (cases "format_str cs args"; simp)+

lemma read_spec_conversion:
  assumes "w \<le> 9"
  shows "read_spec (tl (conversion w) @ suf) = Some (w \<noteq> 0, w, suf)"
proof (cases "w = 0")
  case True
  then show ?thesis by (simp add: conversion_def read_spec_def)
next
  case False
  with assms have "unat (48 + of_nat w :: u8) = 48 + w" "(48 :: u8) \<le> 48 + of_nat w" "48 + of_nat w \<le> (57 :: u8)"
    using digit_word [of w] by simp_all
  with False show ?thesis by (simp add: conversion_def read_spec_def)
qed

lemma format_conversion:
  assumes "w \<le> 9" "37 \<notin> set suf"
  shows "format_str (conversion w @ suf) [int n] = Some (padded w n @ suf)"
proof -
  let ?c = "tl (conversion w) @ suf"
  obtain d r where c: "?c = d # r" "d \<noteq> 37" by (cases "w = 0") (auto simp: conversion_def)
  have s: "format_str suf [] = Some suf" using format_plain [OF assms(2), of "[]" "[]"] by simp
  have a: "conversion w @ suf = 37 # ?c" by (simp add: conversion_def)
  have "format_str (37 # ?c) [int n] =
      (case read_spec ?c of None \<Rightarrow> None
       | Some (zero, w, rest) \<Rightarrow> map_option ((@) (format_int zero w (int n))) (format_str rest []))"
    unfolding c(1) using c(2) by (simp split: option.splits)
  then have "format_str (conversion w @ suf) [int n] =
      map_option ((@) (format_int (w \<noteq> 0) w (int n))) (format_str suf [])"
    by (simp only: a read_spec_conversion [OF assms(1)]) simp
  then show ?thesis using s by (simp add: format_int_def padded_def Let_def)
qed

text \<open>
  C25: for a pattern with one \<open>%d\<close> or \<open>%0wd\<close> (\<open>w\<close> up to 9) and a count that is not negative,
  \<open>get_path\<close> returns the whole name, nothing of it cut off by the bound of \<open>snprintf\<close>, whatever
  patterns were used before; and two counts never give the same name.
\<close>

theorem frame_names_fit_and_differ:
  assumes "37 \<notin> set pre" "37 \<notin> set suf" "w \<le> 9" "0 \<le> sint n" "0 \<le> sint k" "n \<noteq> k"
  shows "\<exists>tn tk. get_path (pre @ conversion w @ suf) n t = Some (pre @ padded w (unat n) @ suf, tn) \<and>
     get_path (pre @ conversion w @ suf) k t' = Some (pre @ padded w (unat k) @ suf, tk) \<and>
     pre @ padded w (unat n) @ suf \<noteq> pre @ padded w (unat k) @ suf"
proof -
  have fits: "\<exists>s'. get_path (pre @ conversion w @ suf) c s = Some (pre @ padded w (unat c) @ suf, s')"
    if "0 \<le> sint c" for c :: u32 and s :: "'c test"
  proof -
    have c: "sint c = int (unat c)" using that by (rule sint_nonneg)
    have "unat c < 10 ^ Suc 9" using unsigned_less [of c, where ?'a = nat] by simp
    then have "length (decimal (unat c)) \<le> 10" using length_decimal [of "unat c" 9] by simp
    moreover have "Suc (if w = 0 then 1 else 3) = length (conversion w)" by (simp add: conversion_def)
    ultimately have "length (pre @ padded w (unat c) @ suf) \<le> length (pre @ conversion w @ suf) + 8"
      using assms(3) by (auto simp: padded_def split: if_splits)
    moreover have "format_str (pre @ conversion w @ suf) [sint c] = Some (pre @ padded w (unat c) @ suf)"
      using format_plain [OF assms(1)] format_conversion [OF assms(3,2), of "unat c"] c by simp
    ultimately show ?thesis by (auto simp: get_path_def Let_def)
  qed
  have "padded w (unat n) \<noteq> padded w (unat k)" using padded_inj assms(6) by (metis unsigned_word_eqI)
  with fits [OF assms(4)] fits [OF assms(5)] show ?thesis by auto
qed
text \<open>The pattern of the usage line: "out.%04d.yuv".\<close>

lemma frame_names_fit_and_differ_witness:
  "\<exists>tn tk. get_path ([111, 117, 116, 46] @ conversion 4 @ [46, 121, 117, 118]) 7 (init_test (init_proc (\<lambda>a. None) 0)) =
       Some ([111, 117, 116, 46] @ padded 4 (unat (7 :: u32)) @ [46, 121, 117, 118], tn) \<and>
     get_path ([111, 117, 116, 46] @ conversion 4 @ [46, 121, 117, 118]) 8 (init_test (init_proc (\<lambda>a. None) 0)) =
       Some ([111, 117, 116, 46] @ padded 4 (unat (8 :: u32)) @ [46, 121, 117, 118], tk)"
  using frame_names_fit_and_differ [of "[111, 117, 116, 46]" "[46, 121, 117, 118]" 4 7 8
      "init_test (init_proc (\<lambda>a. None) 0)" "init_test (init_proc (\<lambda>a. None) 0)"] by auto

subsection \<open>Reading a frame\<close>

text \<open>
  A regular file open for reading: \<open>rest\<close> gives the bytes not yet read; a \<open>read\<close> of a positive
  count stores between one byte and the count, until there is nothing left. This is promised only where
  memory is mapped for as many bytes as the call may store; what a \<open>read\<close> does elsewhere (it
  reports \<open>EFAULT\<close>, or stores a part) is left open.
\<close>

definition regular_file :: "'w test_api \<Rightarrow> u32 \<Rightarrow> ('w \<Rightarrow> bytes) \<Rightarrow> bool" where
  "regular_file A fd rest \<longleftrightarrow> (\<forall>p n w m. n \<noteq> 0 \<and> mapped m p (min (unat n) (length (rest w))) \<longrightarrow>
     (if rest w = [] then t_read A fd p n (w, m) = (0, w, m)
      else \<exists>k w'. 1 \<le> k \<and> k \<le> unat n \<and> k \<le> length (rest w) \<and> rest w' = drop k (rest w) \<and>
        t_read A fd p n (w, m) = (of_nat k, w', mem_blit p (take k (rest w)) m)))"

lemma mem_blit_append:
  "length (xs @ ys) < 2 ^ 32 \<Longrightarrow>
     mem_blit (a + of_nat (length xs)) ys (mem_blit a xs m) = mem_blit a (xs @ ys) m"
proof (induction xs arbitrary: a m)
  case (Cons x xs)
  have "mem_blit (a + of_nat (length (x # xs))) ys (mem_blit a (x # xs) m) =
      mem_blit (a + 1 + of_nat (length xs)) ys (mem_blit (a + 1) xs (m(a \<mapsto> x)))"
    using Cons.prems by (simp add: mem_blit_Cons add.assoc)
  also have "\<dots> = mem_blit (a + 1) (xs @ ys) (m(a \<mapsto> x))" using Cons by simp
  also have "\<dots> = mem_blit a ((x # xs) @ ys) m" using Cons.prems by (simp add: mem_blit_Cons)
  finally show ?case .
qed simp

lemma cpos_of_nat: "0 < k \<Longrightarrow> k < 2 ^ 31 \<Longrightarrow> cpos (of_nat k)"
  by (simp add: cpos_def signed_of_nat signed_take_bit_int_eq_self)

lemma read_loop_whole_file:
  assumes "regular_file A fd rest" "n \<noteq> 0" "length (rest w) < 2 ^ 31" "mapped m input (length (rest w))"
  shows "\<exists>w'. read_loop A fd n input sz (w, m) =
     Some (sz + of_nat (length (rest w)), w', mem_blit input (rest w) m)"
  using assms(3,4)
proof (induction "length (rest w)" arbitrary: w m input sz rule: less_induct)
  case less
  show ?case
  proof (cases "rest w = []")
    case True
    with assms(1,2) have "t_read A fd input n (w, m) = (0, w, m)" unfolding regular_file_def by simp
    with True show ?thesis by (subst read_loop.simps) (simp add: cpos_def)
  next
    case False
    have "mapped m input (min (unat n) (length (rest w)))" using less.prems(2) by (rule mapped_mono) simp
    with False assms(1,2) obtain k w1 where k: "1 \<le> k" "k \<le> length (rest w)" "rest w1 = drop k (rest w)"
      and r: "t_read A fd input n (w, m) = (of_nat k, w1, mem_blit input (take k (rest w)) m)"
      unfolding regular_file_def by metis
    have "length (rest w1) < length (rest w)" "length (rest w1) < 2 ^ 31" using k less.prems by auto
    moreover have "mapped (mem_blit input (take k (rest w)) m) (input + of_nat k) (length (rest w1))"
      using k by (intro mapped_mem_blit mapped_tail [OF less.prems(2)]) auto
    ultimately obtain w' where "read_loop A fd n (input + of_nat k) (sz + of_nat k)
        (w1, mem_blit input (take k (rest w)) m) =
        Some (sz + of_nat k + of_nat (length (rest w1)), w',
          mem_blit (input + of_nat k) (rest w1) (mem_blit input (take k (rest w)) m))"
      using less.hyps [of w1] by blast
    moreover have "mem_blit (input + of_nat k) (rest w1) (mem_blit input (take k (rest w)) m) =
        mem_blit input (rest w) m"
      using mem_blit_append [of "take k (rest w)" "rest w1" input m] k less.prems by (simp add: min_absorb2)
    moreover have "of_nat k + of_nat (length (rest w1)) = (of_nat (length (rest w)) :: u32)"
      using k by (simp flip: of_nat_add)
    moreover have "cpos (of_nat k)" using k less.prems by (intro cpos_of_nat) auto
    ultimately show ?thesis using r by (subst read_loop.simps) (simp add: add.assoc)
  qed
qed

text \<open>
  C24: \<open>read_input\<close> of a regular file returns its length and stores all of it from \<open>input\<close> on, in
  however many pieces it is delivered, when memory is mapped there for the length of the file. Each
  \<open>read\<close> is given the full size \<open>width * height\<close> of the buffer again, so that a longer file is stored
  past the end of the buffer, into whatever is mapped there (index \<open>i\<close> of the statement is not bounded
  by that size).
\<close>

theorem read_input_stores_whole_file:
  assumes "format_str pattern [sint cnt] \<noteq> None"
    and "\<And>path. t_open A path False (pw (tproc t)) = (fd, w)" "\<not> cneg fd"
    and "regular_file A fd rest" "width t * height t \<noteq> 0" "length (rest w) < 2 ^ 31"
    and "mapped (tmem t) input (length (rest w))"
  shows "\<exists>t'. read_input A pattern cnt input t = Some (of_nat (length (rest w)), t') \<and>
     (\<forall>i < length (rest w). tmem t' (input + of_nat i) = Some (rest w ! i)) \<and>
     (\<forall>a. length (rest w) \<le> unat (a - input) \<longrightarrow> tmem t' a = tmem t a)"
proof -
  obtain path t1 where p: "get_path pattern cnt t = Some (path, t1)" "tproc t1 = tproc t"
    "width t1 = width t" "height t1 = height t"
    using assms(1) by (auto simp: get_path_def Let_def)
  obtain w' where "read_loop A fd (width t * height t) input 0 (w, tmem t) =
      Some (0 + of_nat (length (rest w)), w', mem_blit input (rest w) (tmem t))"
    using read_loop_whole_file [OF assms(4-7)] by blast
  then have "read_input A pattern cnt input t = Some (of_nat (length (rest w)),
      set_world (t_close A fd w', mem_blit input (rest w) (tmem t)) (set_world (w, tmem t) t1))"
    using p assms(2,3) by (simp add: read_input_def tworld_def set_world_def)
  then show ?thesis using assms(6)
    by (auto simp: set_world_def mem_blit_nth mem_blit_outside)
qed

text \<open>A file of three bytes that is delivered byte by byte, a buffer of one, and memory for three.\<close>

definition file_tapi :: "bytes test_api" where
  "file_tapi = \<lparr>t_calloc = (\<lambda>st w. (0, w)), t_free = (\<lambda>p w. w), tm_alloc = (\<lambda>b (w, m). (0, w, m)),
     tm_free = (\<lambda>p wm. wm), tm_phys = id, t_open = (\<lambda>p wr w. (3, w)),
     t_read = (\<lambda>fd p n (w, m). case w of [] \<Rightarrow> (0, [], m) | b # bs \<Rightarrow> if m p = None then (-1, w, m) else (1, bs, m(p \<mapsto> b))),
     t_write = (\<lambda>fd p n (w, m). (1, w @ [the (m p)])), t_close = (\<lambda>fd w. w), t_usec = (\<lambda>w. (0, w))\<rparr>"

lemma file_tapi_regular: "regular_file file_tapi 3 id"
  unfolding regular_file_def
proof (intro allI impI)
  fix p n :: u32 and w :: bytes and m :: mem
  assume "n \<noteq> 0 \<and> mapped m p (min (unat n) (length (id w)))"
  then have "1 \<le> unat n" and "w \<noteq> [] \<longrightarrow> m p \<noteq> None"
    by (auto simp: Suc_le_eq unat_gt_0 mapped_iff unsigned_eq_0_iff dest: spec [of _ 0])
  then show "if id w = [] then t_read file_tapi 3 p n (w, m) = (0, w, m)
    else \<exists>k w'. 1 \<le> k \<and> k \<le> unat n \<and> k \<le> length (id w) \<and> id w' = drop k (id w) \<and>
      t_read file_tapi 3 p n (w, m) = (of_nat k, w', mem_blit p (take k (id w)) m)"
    by (cases w) (auto simp: file_tapi_def fun_eq_iff mem_blit_def unsigned_eq_0_iff intro!: exI [of _ "1 :: nat"])
qed

lemma read_input_stores_whole_file_witness:
  "\<exists>t'. read_input file_tapi [97] 0 4096
       ((init_test (init_proc (\<lambda>a. if a - 4096 < 3 then Some 0 else None) [1, 2, 3]))\<lparr>width := 1, height := 1\<rparr>) = Some (3, t') \<and>
     tmem t' (4096 + of_nat 2) = Some 3"
proof -
  let ?t = "(init_test (init_proc (\<lambda>a. if a - 4096 < 3 then Some 0 else None) [1, 2, 3]))\<lparr>width := 1, height := 1\<rparr>"
  have "format_str [97] [sint (0 :: u32)] \<noteq> None" by simp
  moreover have "\<And>path. t_open file_tapi path False (pw (tproc ?t)) = (3, [1, 2, 3])"
    by (simp add: file_tapi_def init_test_def init_proc_def)
  moreover have "\<not> cneg 3" "width ?t * height ?t \<noteq> 0" "length (id [1, 2, 3 :: u8]) < 2 ^ 31"
    by (simp_all add: cneg_def)
  moreover have "mapped (tmem ?t) 4096 (length (id [1, 2, 3 :: u8]))"
    by (simp add: mapped_Suc init_test_def init_proc_def numeral_3_eq_3)
  ultimately obtain t' where t': "read_input file_tapi [97] 0 4096 ?t = Some (of_nat (length (id [1, 2, 3 :: u8])), t')"
    "\<forall>i < length (id [1, 2, 3 :: u8]). tmem t' (4096 + of_nat i) = Some (id [1, 2, 3] ! i)"
    using read_input_stores_whole_file [OF _ _ _ file_tapi_regular] by blast
  from t'(2) have "tmem t' (4096 + of_nat 2) = Some 3" by (elim allE [of _ 2]) simp
  with t'(1) show ?thesis by auto
qed

subsection \<open>What reading and writing leave alone\<close>

text \<open>A part \<open>v\<close> of the world that no single call changes is not changed by the loops.\<close>

lemma read_loop_ghost:
  assumes "read_loop A fd n0 input sz wm = Some (k, wm')"
    and "\<And>fd p n wm. v (fst (snd (t_read A fd p n wm))) = v (fst wm)"
  shows "v (fst wm') = v (fst wm)"
proof -
  have "(\<forall>fd p n wm. v (fst (snd (t_read A fd p n wm))) = v (fst wm)) \<longrightarrow> v (fst (snd (k, wm'))) = v (fst wm)"
  proof (rule read_loop.raw_induct [OF _ assms(1)])
    fix f :: "'a test_api \<Rightarrow> u32 \<Rightarrow> u32 \<Rightarrow> u32 \<Rightarrow> u32 \<Rightarrow> 'a \<times> mem \<Rightarrow> (u32 \<times> 'a \<times> mem) option"
      and A fd n0 input sz wm r
    assume IH: "\<And>A fd n0 input sz wm r. f A fd n0 input sz wm = Some r \<Longrightarrow>
        (\<forall>fd p n wm. v (fst (snd (t_read A fd p n wm))) = v (fst wm)) \<longrightarrow> v (fst (snd r)) = v (fst wm)"
      and body: "(case t_read A fd input n0 wm of (n, wm) \<Rightarrow>
          if cpos n then f A fd n0 (input + n) (sz + n) wm else Some (sz, wm)) = Some r"
    obtain n wm' where t: "t_read A fd input n0 wm = (n, wm')" by (cases "t_read A fd input n0 wm")
    show "(\<forall>fd p n wm. v (fst (snd (t_read A fd p n wm))) = v (fst wm)) \<longrightarrow> v (fst (snd r)) = v (fst wm)"
    proof
      assume keep: "\<forall>fd p n wm. v (fst (snd (t_read A fd p n wm))) = v (fst wm)"
      then have "v (fst (snd (n, wm'))) = v (fst wm)" by (metis t)
      with body t IH [of A] keep show "v (fst (snd r)) = v (fst wm)" by (auto split: if_splits)
    qed
  qed
  with assms(2) show ?thesis by simp
qed

lemma write_loop_ghost:
  assumes "write_loop A fd p len sz wm = Some (k, w')"
    and "\<And>fd p n wm. v (snd (t_write A fd p n wm)) = v (fst wm)"
  shows "v w' = v (fst wm)"
proof -
  have "(\<forall>fd p n wm. v (snd (t_write A fd p n wm)) = v (fst wm)) \<longrightarrow> v (snd (k, w')) = v (fst wm)"
  proof (rule write_loop.raw_induct [OF _ assms(1)])
    fix f :: "'a test_api \<Rightarrow> u32 \<Rightarrow> u32 \<Rightarrow> u32 \<Rightarrow> u32 \<Rightarrow> 'a \<times> mem \<Rightarrow> (u32 \<times> 'a) option"
      and A fd p len sz wm r
    assume IH: "\<And>A fd p len sz wm r. f A fd p len sz wm = Some r \<Longrightarrow>
        (\<forall>fd p n wm. v (snd (t_write A fd p n wm)) = v (fst wm)) \<longrightarrow> v (snd r) = v (fst wm)"
      and body: "(if len = 0 then Some (sz, fst wm)
        else case t_write A fd p len wm of (n, w) \<Rightarrow>
          if cpos n then f A fd (p + n) (len - n) (sz + n) (w, snd wm) else Some (sz, w)) = Some r"
    obtain n w where t: "t_write A fd p len wm = (n, w)" by (cases "t_write A fd p len wm")
    show "(\<forall>fd p n wm. v (snd (t_write A fd p n wm)) = v (fst wm)) \<longrightarrow> v (snd r) = v (fst wm)"
    proof
      assume keep: "\<forall>fd p n wm. v (snd (t_write A fd p n wm)) = v (fst wm)"
      then have "v (snd (n, w)) = v (fst wm)" by (metis t)
      with body t IH [of A fd "p + n" "len - n" "sz + n" "(w, snd wm)" r] keep
      show "v (snd r) = v (fst wm)" by (auto split: if_splits)
    qed
  qed
  with assms(2) show ?thesis by simp
qed

lemma write_lines_ghost:
  "write_lines A fd n p len stride sz wm = Some (k, w) \<Longrightarrow>
     (\<And>fd p n wm. v (snd (t_write A fd p n wm)) = v (fst wm)) \<Longrightarrow> v w = v (fst wm)"
proof (induction n arbitrary: p sz wm)
  case (Suc n)
  then obtain k1 w1 where 1: "write_loop A fd p len sz wm = Some (k1, w1)"
    "write_lines A fd n (p + stride) len stride k1 (w1, snd wm) = Some (k, w)"
    by (auto split: Option.bind_splits)
  from write_loop_ghost [OF 1(1), of v] Suc.IH [OF 1(2)] Suc.prems(2) show ?case by simp
qed simp

subsection \<open>Writing a frame\<close>

definition peek :: "mem \<Rightarrow> u32 \<Rightarrow> nat \<Rightarrow> bytes" where
  "peek m p k = map (\<lambda>i. the (m (p + of_nat i))) [0..<k]"

text \<open>
  A file open for writing: \<open>out\<close> gives the bytes stored through the descriptor; a \<open>write\<close> of
  mapped memory stores between one byte and the count, in order, and closing stores nothing.
\<close>

definition sink :: "'w test_api \<Rightarrow> u32 \<Rightarrow> ('w \<Rightarrow> bytes) \<Rightarrow> bool" where
  "sink A fd out \<longleftrightarrow> (\<forall>w. out (t_close A fd w) = out w) \<and>
     (\<forall>p n w m. n \<noteq> 0 \<and> mapped m p (unat n) \<longrightarrow>
       (\<exists>k w'. 1 \<le> k \<and> k \<le> unat n \<and> t_write A fd p n (w, m) = (of_nat k, w') \<and>
         out w' = out w @ peek m p k))"

text \<open>The lines of a plane, one after the other.\<close>

definition plane_bytes :: "mem \<Rightarrow> u32 \<Rightarrow> nat \<Rightarrow> u32 \<Rightarrow> nat \<Rightarrow> bytes" where
  "plane_bytes m p len stride n = concat (map (\<lambda>i. peek m (p + of_nat i * stride) len) [0..<n])"

definition plane_mapped :: "mem \<Rightarrow> u32 \<Rightarrow> nat \<Rightarrow> u32 \<Rightarrow> nat \<Rightarrow> bool" where
  "plane_mapped m p len stride n \<longleftrightarrow> (\<forall>i<n. mapped m (p + of_nat i * stride) len)"

lemma length_peek [simp]: "length (peek m p k) = k"
  by (simp add: peek_def)

lemma peek_append: "peek m p (k + l) = peek m p k @ peek m (p + of_nat k) l"
  by (rule nth_equalityI) (auto simp: peek_def nth_append)

lemma plane_Suc:
  "plane_bytes m p len stride (Suc n) = peek m p len @ plane_bytes m (p + stride) len stride n"
  "plane_mapped m p len stride (Suc n) \<longleftrightarrow> mapped m p len \<and> plane_mapped m (p + stride) len stride n"
proof -
  have a: "p + of_nat (Suc i) * stride = p + stride + of_nat i * stride" for i
    by (simp add: algebra_simps)
  have u: "[0..<Suc n] = 0 # map Suc [0..<n]" by (simp add: upt_conv_Cons map_Suc_upt del: upt_Suc)
  show "plane_bytes m p len stride (Suc n) = peek m p len @ plane_bytes m (p + stride) len stride n"
    unfolding plane_bytes_def u list.map map_map comp_def a by simp
  have "(\<forall>i<Suc n. P i) \<longleftrightarrow> P 0 \<and> (\<forall>i<n. P (Suc i))" for P by (auto simp: less_Suc_eq_0_disj)
  then show "plane_mapped m p len stride (Suc n) \<longleftrightarrow> mapped m p len \<and> plane_mapped m (p + stride) len stride n"
    unfolding plane_mapped_def a [symmetric] by simp
qed

lemma write_loop_line:
  assumes "sink A fd out" "mapped m p (unat len)" "unat len < 2 ^ 31"
  shows "\<exists>w'. write_loop A fd p len sz (w, m) = Some (sz + len, w') \<and> out w' = out w @ peek m p (unat len)"
  using assms(2,3)
proof (induction "unat len" arbitrary: p len sz w rule: less_induct)
  case less
  show ?case
  proof (cases "len = 0")
    case True
    then show ?thesis by (subst write_loop.simps) (simp add: peek_def)
  next
    case False
    with assms(1) less.prems obtain k w1 where k: "1 \<le> k" "k \<le> unat len"
      "t_write A fd p len (w, m) = (of_nat k, w1)" "out w1 = out w @ peek m p k"
      unfolding sink_def by metis
    have u: "unat (len - of_nat k) = unat len - k" "unat (of_nat k :: u32) = k"
      using k(2) less.prems(2) by (simp_all add: unat_sub word_le_nat_alt unsigned_of_nat take_bit_nat_eq_self)
    have "mapped m (p + of_nat k) (unat (len - of_nat k))"
      using less.prems(1) k(2) u(1) by (intro mapped_tail) auto
    then obtain w' where "write_loop A fd (p + of_nat k) (len - of_nat k) (sz + of_nat k) (w1, m) =
        Some (sz + of_nat k + (len - of_nat k), w')"
      "out w' = out w1 @ peek m (p + of_nat k) (unat (len - of_nat k))"
      using less.hyps [of "len - of_nat k" "p + of_nat k" "sz + of_nat k" w1] k(1,2) u(1)
        less_imp_diff_less [OF less.prems(2), of k] by auto
    moreover have "cpos (of_nat k)" using k less.prems(2) by (intro cpos_of_nat) auto
    moreover have "peek m p k @ peek m (p + of_nat k) (unat len - k) = peek m p (unat len)"
      using k(2) by (simp flip: peek_append)
    ultimately show ?thesis using False k(3,4) u(1) by (subst write_loop.simps) simp
  qed
qed

lemma write_lines_plane:
  assumes "sink A fd out" "plane_mapped m p (unat len) stride n" "unat len < 2 ^ 31"
  shows "\<exists>w'. write_lines A fd n p len stride sz (w, m) = Some (sz + of_nat n * len, w') \<and>
     out w' = out w @ plane_bytes m p (unat len) stride n"
  using assms(2)
proof (induction n arbitrary: p sz w)
  case 0
  then show ?case by (simp add: plane_bytes_def)
next
  case (Suc n)
  then have m: "mapped m p (unat len)" "plane_mapped m (p + stride) (unat len) stride n"
    by (simp_all add: plane_Suc)
  obtain w1 where w1: "write_loop A fd p len sz (w, m) = Some (sz + len, w1)"
    "out w1 = out w @ peek m p (unat len)"
    using write_loop_line [OF assms(1) m(1) assms(3)] by blast
  obtain w2 where "write_lines A fd n (p + stride) len stride (sz + len) (w1, m) =
      Some (sz + len + of_nat n * len, w2)"
    "out w2 = out w1 @ plane_bytes m (p + stride) (unat len) stride n"
    using Suc.IH [OF m(2)] by blast
  with w1 show ?case by (simp add: plane_Suc algebra_simps)
qed
lemma half_lines:
  fixes h :: u32
  assumes "0 \<le> sint h"
  shows "nat (sint (cdiv h 2)) = unat h div 2"
proof -
  have s: "sint h = int (unat h)" by (rule sint_nonneg [OF assms])
  have "unat h < 2 ^ 31" by (rule nonneg_unat_less [OF assms])
  moreover have "int k sdiv 2 = int (k div 2)" for k :: nat
    by (cases "k = 0") (simp_all add: signed_divide_int_def zdiv_int)
  then have "sint h sdiv 2 = int (unat h div 2)" unfolding s by blast
  ultimately show ?thesis
    by (simp add: cdiv_def signed_of_nat signed_take_bit_int_eq_self)
qed

text \<open>
  C23: when both planes of a frame are readable, \<open>write_output\<close> stores exactly \<open>height\<close> lines of \<open>Y\<close>
  and half as many of \<open>UV\<close>, the first \<open>width\<close> bytes of each and in this order, however the
  system splits the writes, and returns their number.
\<close>

theorem write_output_stores_frame:
  assumes "format_str pattern [sint cnt] \<noteq> None"
    and "\<And>path. t_open A path True (pw (tproc t)) = (fd, w)" "\<not> cneg fd" "sink A fd out"
    and "0 \<le> sint (width t)" "0 \<le> sint (height t)"
    and "plane_mapped (tmem t) y (unat (width t)) stride (unat (height t))"
    and "plane_mapped (tmem t) uv (unat (width t)) stride (unat (height t) div 2)"
  shows "\<exists>t'. write_output A pattern cnt y uv stride t =
      Some (height t * width t + of_nat (unat (height t) div 2) * width t, t') \<and>
     out (pw (tproc t')) = out w @ plane_bytes (tmem t) y (unat (width t)) stride (unat (height t)) @
       plane_bytes (tmem t) uv (unat (width t)) stride (unat (height t) div 2) \<and>
     tmem t' = tmem t"
proof -
  obtain path t1 where p: "get_path pattern cnt t = Some (path, t1)" "tproc t1 = tproc t"
    "width t1 = width t" "height t1 = height t"
    using assms(1) by (auto simp: get_path_def Let_def)
  have w: "unat (width t) < 2 ^ 31" by (rule nonneg_unat_less [OF assms(5)])
  have h: "nat (sint (height t)) = unat (height t)" using sint_nonneg [OF assms(6)] by simp
  obtain w1 where w1: "write_lines A fd (unat (height t)) y (width t) stride 0 (w, tmem t) =
      Some (0 + of_nat (unat (height t)) * width t, w1)"
    "out w1 = out w @ plane_bytes (tmem t) y (unat (width t)) stride (unat (height t))"
    using write_lines_plane [OF assms(4,7) w] by blast
  obtain w2 where w2: "write_lines A fd (unat (height t) div 2) uv (width t) stride
      (0 + of_nat (unat (height t)) * width t) (w1, tmem t) =
      Some (0 + of_nat (unat (height t)) * width t + of_nat (unat (height t) div 2) * width t, w2)"
    "out w2 = out w1 @ plane_bytes (tmem t) uv (unat (width t)) stride (unat (height t) div 2)"
    using write_lines_plane [OF assms(4,8) w] by blast
  let ?t = "set_world (w, tmem t) t1"
  have "tworld ?t = (w, tmem t)" "width ?t = width t" "height ?t = height t" "tmem ?t = tmem t"
    using p by (simp_all add: tworld_def set_world_def)
  then have "write_output A pattern cnt y uv stride t =
      Some (height t * width t + of_nat (unat (height t) div 2) * width t,
        set_world (t_close A fd w2, tmem t) ?t)"
    using p(1,2) assms(2,3) w1(1) w2(1) h half_lines [OF assms(6)] by (simp add: write_output_def)
  moreover have "out (t_close A fd w2) = out w2" using assms(4) by (simp add: sink_def)
  ultimately show ?thesis using w1(2) w2(2) by (simp add: set_world_def)
qed

lemma file_tapi_sink: "sink file_tapi 3 id"
  unfolding sink_def
proof (intro conjI allI impI)
  fix p n :: u32 and w :: bytes and m :: mem
  assume "n \<noteq> 0 \<and> mapped m p (unat n)"
  then have "1 \<le> unat n" by (simp add: Suc_le_eq unat_gt_0)
  then show "\<exists>k w'. 1 \<le> k \<and> k \<le> unat n \<and> t_write file_tapi 3 p n (w, m) = (of_nat k, w') \<and>
      id w' = id w @ peek m p k"
    by (intro exI [of _ "1 :: nat"]) (simp add: file_tapi_def peek_def)
qed (simp add: file_tapi_def)

lemma write_output_stores_frame_witness:
  "\<exists>t'. write_output file_tapi [97] 0 4096 8192 4096
       ((init_test (init_proc (\<lambda>a. Some 7) []))\<lparr>width := 1, height := 2\<rparr>) = Some (3, t') \<and>
     pw (tproc t') = [7, 7, 7]"
proof -
  let ?t = "(init_test (init_proc (\<lambda>a. Some 7) []))\<lparr>width := 1, height := 2\<rparr>"
  have "format_str [97] [sint (0 :: u32)] \<noteq> None" by simp
  moreover have "\<And>path. t_open file_tapi path True (pw (tproc ?t)) = (3, [])"
    by (simp add: file_tapi_def init_test_def init_proc_def)
  moreover have "\<not> cneg 3" "0 \<le> sint (width ?t)" "0 \<le> sint (height ?t)" by (simp_all add: cneg_def)
  moreover have "plane_mapped (tmem ?t) a l s n" for a s l n
    by (simp add: plane_mapped_def mapped_iff init_test_def init_proc_def)
  ultimately show ?thesis
    using write_output_stores_frame [OF _ _ _ file_tapi_sink, of "[97]" 0 ?t "[]" 4096 4096 8192]
    by (auto simp: plane_bytes_def peek_def init_test_def init_proc_def upt_rec)
qed

end
