(* ===== verification/Test_Decode.thy ===== *)
theory Test_Decode
  imports Test_Main Test_Files
begin

text \<open>
  Properties of the decoding loop of \<^verbatim>\<open>test.c\<close>: everything in a turn of the loop except
  \<open>output_get\<close> and \<open>output_release\<close> leaves the pool alone, so that the contract of the pool gives
  the ownership of the buffers; the dimensions; and the error paths of \<open>main\<close>.
\<close>

subsection \<open>What leaves the pool alone\<close>

definition same_pool :: "'w test \<Rightarrow> 'w test \<Rightarrow> bool" where
  "same_pool t t' \<longleftrightarrow> head t' = head t \<and> cells t' = cells t"

named_theorems pool_frame "operations that do not change the pool"

lemma same_pool_refl [simp]: "same_pool t t"
  by (simp add: same_pool_def)

lemma same_pool_trans: "same_pool t t' \<Longrightarrow> same_pool t' t'' \<Longrightarrow> same_pool t t''"
  by (simp add: same_pool_def)

lemma same_pool_split: "same_pool t t' \<Longrightarrow> pool.split_up t' xs H = pool.split_up t xs H"
  by (simp add: pool.split_up_def same_pool_def free_list_def pool_cells_def)

lemma pool_frame_updates [simp]:
  "same_pool t (set_world wm t')  = same_pool t t'" "same_pool t (set_mem m t') = same_pool t t'"
  by (simp_all add: same_pool_def)

lemma assign32_pool [pool_frame]: "assign32 a v t = Some t' \<Longrightarrow> same_pool t t'"
  by (auto simp: assign32_def split: Option.bind_splits)

lemma set_bytes_pool [pool_frame]: "set_bytes v d t = Some t' \<Longrightarrow> same_pool t t'"
  by (simp add: set_bytes_def assign32_pool)

lemma set_buf_pool [pool_frame]: "set_buf v d t = Some t' \<Longrightarrow> same_pool t t'"
  by (simp add: set_buf_def assign32_pool)

lemma set_numBufs_pool [pool_frame]: "set_numBufs v d t = Some t' \<Longrightarrow> same_pool t t'"
  by (simp add: set_numBufs_def assign32_pool)

lemma get_path_pool [pool_frame]: "get_path pat n t = Some (p, t') \<Longrightarrow> same_pool t t' \<and> tproc t' = tproc t"
  by (auto simp: get_path_def same_pool_def Let_def split: if_splits)

lemma read_input_pool [pool_frame]: "read_input A pat n p t = Some (sz, t') \<Longrightarrow> same_pool t t'"
  by (auto simp: read_input_def Let_def split: Option.bind_splits if_splits prod.splits dest: get_path_pool)

lemma write_output_pool [pool_frame]:
  "write_output A pat n y uv stride t = Some (sz, t') \<Longrightarrow> same_pool t t' \<and> tmem t' = tmem t"
  by (auto simp: write_output_def Let_def set_world_def same_pool_def
      split: Option.bind_splits if_splits prod.splits dest: get_path_pool)

lemma mark_pool: "same_pool t (snd (mark A prev t))" "tmem (snd (mark A prev t)) = tmem t"
  by (auto simp: mark_def set_world_def same_pool_def split: prod.splits)

lemma stub_pool [pool_frame]: "stub f t = Some (r, t') \<Longrightarrow> same_pool t t'"
  by (auto simp: stub_def same_pool_def split: Option.bind_splits)

lemma output_loop_pool_aux:
  assumes "output_loop A pat stride oa i cnt t = Some r"
  shows "same_pool t (snd r) \<and> tmem (snd r) = tmem t"
proof (rule output_loop.raw_induct [OF _ assms])
  fix f :: "'a test_api \<Rightarrow> cstr \<Rightarrow> u32 \<Rightarrow> u32 \<Rightarrow> nat \<Rightarrow> u32 \<Rightarrow> 'a test \<Rightarrow> (u32 \<times> 'a test) option"
    and A pat stride oa i cnt and t :: "'a test" and r
  assume IH: "\<And>A pat stride oa i cnt t r. f A pat stride oa i cnt t = Some r \<Longrightarrow>
      same_pool t (snd r) \<and> tmem (snd r) = tmem t"
    and body: "(do {
     buf \<leftarrow> load_t (array_at IVIDDEC3_OutArgs [''outputID''] i oa) t;
     (if buf = 0 then Some (cnt, t)
      else do {
        x \<leftarrow> load_t (top_left ''x'' oa) t;
        y \<leftarrow> load_t (top_left ''y'' oa) t;
        let yoff = y * stride + x;
        let uvoff = cdiv (y * stride) 2 + x;
        c \<leftarrow> cells t buf;
        (_, t) \<leftarrow> write_output A pat cnt (ob_buf c + yoff)
          (ob_buf c + uvoff + stride * padded_height t) stride t;
        f A pat stride oa (Suc i) (cnt + 1) t }) }) = Some r"
  show "same_pool t (snd r) \<and> tmem (snd r) = tmem t"
    using body
    by (auto split: Option.bind_splits if_splits prod.splits simp: Let_def dest!: IH write_output_pool
        intro: same_pool_trans)
qed

lemma output_loop_pool [pool_frame]:
  "output_loop A pat stride oa i cnt t = Some (cnt', t') \<Longrightarrow> same_pool t t' \<and> tmem t' = tmem t"
  using output_loop_pool_aux by fastforce
lemma prepare_pool [pool_frame]: "prepare A g pat n b t = Some (k, t') \<Longrightarrow> same_pool t t'"
  by (auto simp: prepare_def split: Option.bind_splits if_splits prod.splits
      dest!: pool_frame) (auto simp: same_pool_def)

subsection \<open>The buffers that come back\<close>

text \<open>The array \<open>freeBufID\<close> from index \<open>i\<close> on holds the non-null values \<open>ids\<close> and then a zero.\<close>

fun freed_ids :: "mem \<Rightarrow> u32 \<Rightarrow> nat \<Rightarrow> u32 list \<Rightarrow> bool" where
  "freed_ids m oa i [] \<longleftrightarrow> load32 m (array_at IVIDDEC3_OutArgs [''freeBufID''] i oa) = Some 0"
| "freed_ids m oa i (b # bs) \<longleftrightarrow> b \<noteq> 0 \<and>
     load32 m (array_at IVIDDEC3_OutArgs [''freeBufID''] i oa) = Some b \<and> freed_ids m oa (Suc i) bs"

lemma release_loop_put_all:
  assumes "freed_ids (tmem t) oa i ids"
  shows "release_loop oa i t = put_all output_release ids t"
  using assms
proof (induction ids arbitrary: i t)
  case Nil
  then show ?case by (subst release_loop.simps) (simp add: load_t_def)
next
  case (Cons b bs)
  have "tmem t1 = tmem t" if "output_release b t = Some t1" for t1
    using that by (auto simp: output_release_def split: Option.bind_splits)
  with Cons show ?case
    by (subst release_loop.simps) (auto simp: load_t_def split: Option.bind_splits)
qed

lemma decode_step_result:
  assumes "pool.split_up t (b # xs) H" "output_get t = Some (b, t1)"
    and "prepare A g (a_in a) in_cnt b t1 = Some (n, t2)"
    and "stub (VIDDEC3_process R codec (p_inBufs g) (p_outBufs g) (p_inArgs g) (p_outArgs g))
        (snd (mark A None t2)) = Some (Value 0, t3)"
    and "output_loop A (a_out a) stride (p_outArgs g) 0 out_cnt
        (snd (mark A (Some (fst (mark A None t2))) t3)) = Some (k, t4)"
    and "freed_ids (tmem t3) (p_outArgs g) 0 ids" "distinct ids" "set ids \<subseteq> insert b H"
    and "load32 (tmem t3) (member_at IVIDDEC3_OutArgs [''outBufsInUseFlag''] (p_outArgs g)) \<noteq> None"
  shows "b \<notin> H \<and> (\<exists>t'. decode_step A R a stride g codec in_cnt out_cnt t = Some (Go n k, t') \<and>
     pool.split_up t' (rev ids @ xs) (insert b H - set ids) \<and> pool_cells t' = pool_cells t \<and>
     tproc t' = tproc t4 \<and> width t' = width t4 \<and> height t' = height t4)"
proof -
  obtain t1' where t1': "output_get t = Some (b, t1')" "pool.split_up t1' xs (insert b H)" "b \<notin> H"
    "pool_cells t1' = pool_cells t"
    using pool.take_splits [OF assms(1)] by blast
  with assms(2) have t1: "pool.split_up t1 xs (insert b H)" "pool_cells t1 = pool_cells t" by simp_all
  have b: "b \<noteq> 0" using pool.avail_live [of t "b # xs"] assms(1)
    by (auto simp: pool.split_up_def pool_cells_def)
  have p4: "same_pool t1 t4" "tmem t4 = tmem t3"
    using prepare_pool [OF assms(3)] stub_pool [OF assms(4)] output_loop_pool [OF assms(5)]
      mark_pool [where t = t2 and A = A and prev = None] mark_pool [where t = t3 and A = A and prev = "Some (fst (mark A None t2))"]
    by (auto simp: same_pool_def)
  have "pool.split_up t4 xs (insert b H)" using t1(1) same_pool_split [OF p4(1)] by blast
  then obtain t5 where t5: "put_all output_release ids t4 = Some t5"
    "pool.split_up t5 (rev ids @ xs) (insert b H - set ids)" "pool_cells t5 = pool_cells t4"
    using pool.put_all_splits assms(7,8) by blast
  have p5: "tproc t5 = tproc t4" "width t5 = width t4" "height t5 = height t4"
  proof -
    have "put_all output_release is s = Some s' \<Longrightarrow> tproc s' = tproc s \<and> width s' = width s \<and> height s' = height s"
      for "is" and s s' :: "'a test"
      by (induction "is" arbitrary: s)
         (auto simp: output_release_def split: Option.bind_splits)
    with t5(1) show "tproc t5 = tproc t4" "width t5 = width t4" "height t5 = height t4" by blast+
  qed
  then have m5: "tmem t5 = tmem t4" by simp
  have c: "collect A g (a_out a) stride out_cnt (snd (mark A (Some (fst (mark A None t2))) t3)) = Some (k, t5)"
    using assms(5,9) release_loop_put_all [of t4 "p_outArgs g" 0 ids] assms(6) p4(2) t5(1) m5
    by (auto simp: collect_def load_t_def)
  have "decode_step A R a stride g codec in_cnt out_cnt t = Some (Go n k, t5)"
    using assms(2-4) b c by (simp add: decode_step_def case_prod_beta Let_def)
  moreover have "pool_cells t4 = pool_cells t1" using p4(1) by (simp add: same_pool_def pool_cells_def)
  ultimately show ?thesis using t1'(3) t5(2,3) t1(2) p5 by auto
qed

text \<open>
  In one turn of the decoding loop the codec is given the first free buffer, which it does not
  hold already; when it returns without error and lists buffers it holds, each once, the turn
  completes and the buffers are split up as before: the listed ones are free again, all others
  (the new one included) are held, none is lost and none is both.
\<close>

lemma decode_step_keeps_ownership:
  assumes "pool.split_up t (b # xs) H" "output_get t = Some (b, t1)"
    and "prepare A g (a_in a) in_cnt b t1 = Some (n, t2)"
    and "stub (VIDDEC3_process R codec (p_inBufs g) (p_outBufs g) (p_inArgs g) (p_outArgs g))
        (snd (mark A None t2)) = Some (Value 0, t3)"
    and "output_loop A (a_out a) stride (p_outArgs g) 0 out_cnt
        (snd (mark A (Some (fst (mark A None t2))) t3)) = Some (k, t4)"
    and "freed_ids (tmem t3) (p_outArgs g) 0 ids" "distinct ids" "set ids \<subseteq> insert b H"
    and "load32 (tmem t3) (member_at IVIDDEC3_OutArgs [''outBufsInUseFlag''] (p_outArgs g)) \<noteq> None"
  shows "b \<notin> H \<and> (\<exists>t'. decode_step A R a stride g codec in_cnt out_cnt t = Some (Go n k, t') \<and>
     pool.split_up t' (rev ids @ xs) (insert b H - set ids) \<and> pool_cells t' = pool_cells t)"
  using decode_step_result [OF assms] by blast

text \<open>A pool with one free buffer and one that the codec holds, and a codec that frees the latter.\<close>

definition freeing_rcm :: "u32 rcm_api" where
  "freeing_rcm = \<lparr>rcm_init = id, rcm_create = (\<lambda>n p w. ((0, 1), w)), rcm_symbol = (\<lambda>h f w. ((0, 0), w)),
     rcm_delete = (\<lambda>h w. (0, w)), rcm_exit = id,
     rcm_alloc = (\<lambda>h n w. ((0, Some \<lparr>msg_ptr = 0x100, fxnIdx = 0, msg_data = replicate n 0\<rparr>), w)),
     rcm_exec = (\<lambda>h m (mm, w). ((0, Some (m\<lparr>msg_data := replicate 24 0\<rparr>)),
        \<lambda>a. Some (if a = array_at IVIDDEC3_OutArgs [''freeBufID''] 0 0x5000 + 1 then 0x20 else 0), w)),
     rcm_free = (\<lambda>h m w. w), ipc_setup = (\<lambda>w. (0, w)), ipc_destroy = (\<lambda>w. (0, w)), getpid = (\<lambda>w. (77, w))\<rparr>"

definition two_buffers :: "u32 test" where
  "two_buffers = (init_test (init_proc (\<lambda>a. Some 0) 0))\<lparr>head := 0x1000,
     cells := [0x1000 \<mapsto> \<lparr>ob_buf = 1, ob_y = 1, ob_uv = 2, ob_next = 0\<rparr>,
               0x2000 \<mapsto> \<lparr>ob_buf = 3, ob_y = 3, ob_uv = 4, ob_next = 0\<rparr>]\<rparr>"

definition some_ptrs :: ptrs where
  "some_ptrs = no_ptrs\<lparr>p_inBufs := 0x2000, p_outBufs := 0x3000, p_inArgs := 0x4000, p_outArgs := 0x5000\<rparr>"

definition some_args :: args where
  "some_args = \<lparr>a_oned = False, a_width = [], a_height = [], a_in = [97], a_out = [98]\<rparr>"

lemma two_buffers_split: "pool.split_up two_buffers [0x1000] {0x2000}"
  by (auto simp: pool.split_up_def two_buffers_def free_list_def pool_cells_def)

lemma assigns_total:
  "assigns a n f \<Longrightarrow> dom (tmem t) = UNIV \<Longrightarrow> \<exists>m'. f t = Some (set_mem m' t) \<and> dom m' = UNIV"
proof -
  assume a: "assigns a n f" "dom (tmem t) = UNIV"
  then have "mapped (tmem t) a n" by (auto simp: mapped_iff domIff)
  with a show ?thesis unfolding assigns_def same_map_def by metis
qed

text \<open>At the end of the input, in a memory without gaps, the preparation succeeds.\<close>

lemma prepare_end_of_input:
  assumes "read_input A pat n (p_input g) t = Some (0, t1)" "dom (tmem t1) = UNIV" "cells t1 b = Some c"
  shows "\<exists>m. prepare A g pat n b t = Some (n, set_mem m t1) \<and> dom m = UNIV"
proof -
  note step = assigns_total [OF set_desc_assigns(2)] assigns_total [OF set_desc_assigns(4)]
    assigns_total [OF assign_assigns(1)]
  obtain m1 where 1: "set_numBufs 0 (p_inBufs g) t1 = Some (set_mem m1 t1)" "dom m1 = UNIV"
    using step(2) assms(2) by blast
  obtain m2 where 2: "assign32 (member_at IVIDDEC3_InArgs [''inputID''] (p_inArgs g)) 0 (set_mem m1 t1) =
      Some (set_mem m2 t1)" "dom m2 = UNIV"
    using step(3) [of "set_mem m1 t1"] 1(2) by fastforce
  obtain m3 where 3: "assign32 (member_at IVIDDEC3_InArgs [''inputID''] (p_inArgs g)) b (set_mem m2 t1) =
      Some (set_mem m3 t1)" "dom m3 = UNIV"
    using step(3) [of "set_mem m2 t1"] 2(2) by fastforce
  obtain m4 where 4: "set_buf (ob_y c) (desc 0 (p_outBufs g)) (set_mem m3 t1) = Some (set_mem m4 t1)" "dom m4 = UNIV"
    using step(1) [of "set_mem m3 t1"] 3(2) by fastforce
  obtain m5 where 5: "set_buf (ob_uv c) (desc 1 (p_outBufs g)) (set_mem m4 t1) = Some (set_mem m5 t1)" "dom m5 = UNIV"
    using step(1) [of "set_mem m4 t1"] 4(2) by fastforce
  have "prepare A g pat n b t = Some (n, set_mem m5 t1)"
    using assms(1,3) 1 2 3 4 5 by (simp add: prepare_def)
  with 5(2) show ?thesis by blast
qed

text \<open>The state of the example after the call of the codec.\<close>

lemma example_turn:
  "\<exists>t1 t2 t3. output_get two_buffers = Some (0x1000, t1) \<and>
     prepare sample_tapi some_ptrs [97] 0 0x1000 t1 = Some (0, t2) \<and>
     stub (VIDDEC3_process freeing_rcm 1 0x2000 0x3000 0x4000 0x5000) (snd (mark sample_tapi None t2)) =
       Some (Value 0, t3) \<and>
     tmem t3 = (\<lambda>a. Some (if a = array_at IVIDDEC3_OutArgs [''freeBufID''] 0 0x5000 + 1 then 0x20 else 0))"
proof -
  let ?t1 = "two_buffers\<lparr>head := 0\<rparr>"
  have g: "output_get two_buffers = Some (0x1000, ?t1)"
    by (simp add: two_buffers_def output_get_def)
  have f: "format_str [97] [x] = Some [97]" for x by simp
  obtain t2 where r: "read_input sample_tapi [97] 0 (p_input some_ptrs) ?t1 = Some (0, t2)"
    "tmem t2 = tmem ?t1" "cells t2 = cells ?t1"
    by (simp add: read_input_def get_path_def f sample_tapi_def two_buffers_def init_test_def Let_def
        read_loop.simps cpos_def set_world_def tworld_def init_proc_def)
  obtain m where m: "prepare sample_tapi some_ptrs [97] 0 0x1000 ?t1 = Some (0, set_mem m t2)" "dom m = UNIV"
    using prepare_end_of_input [OF r(1), of "0x1000"] r(2,3)
    by (auto simp: two_buffers_def init_test_def init_proc_def)
  have "m = (\<lambda>x. Some (the (m x)))" using m(2) by (auto simp: fun_eq_iff domIff set_eq_iff)
  then obtain f where "m = (\<lambda>x. Some (f x))" by (rule that)
  then have l: "load32 m a = Some (word_of (f a) (f (a + 1)) (f (a + 2)) (f (a + 3)))" for a
    by (simp add: load32_def)
  have v: "getf VIDDEC3_process_args [''out'', ''ret''] (replicate 24 0) = 0" by code_simp
  let ?u = "snd (mark sample_tapi None (set_mem m t2))"
  have "tmem ?u = m" by (simp add: mark_pool)
  then obtain t3 where "stub (VIDDEC3_process freeing_rcm 1 0x2000 0x3000 0x4000 0x5000) ?u = Some (Value 0, t3)"
     "tmem t3 = (\<lambda>a. Some (if a = array_at IVIDDEC3_OutArgs [''freeBufID''] 0 0x5000 + 1 then 0x20 else 0))"
    by (simp add: l v stub_def VIDDEC3_process_def exchange_def freeing_rcm_def virt2ducati_def out_free_def)
  with g m show ?thesis by blast
qed

lemma decode_step_keeps_ownership_witness:
  "\<exists>t'. decode_step sample_tapi freeing_rcm some_args 4096 some_ptrs 1 0 0 two_buffers = Some (Go 0 0, t') \<and>
     pool.split_up t' [0x2000] {0x1000}"
proof -
  obtain t1 t2 t3 where e: "output_get two_buffers = Some (0x1000, t1)"
    "prepare sample_tapi some_ptrs (a_in some_args) 0 0x1000 t1 = Some (0, t2)"
    "stub (VIDDEC3_process freeing_rcm 1 (p_inBufs some_ptrs) (p_outBufs some_ptrs) (p_inArgs some_ptrs)
       (p_outArgs some_ptrs)) (snd (mark sample_tapi None t2)) = Some (Value 0, t3)"
    and m: "tmem t3 = (\<lambda>a. Some (if a = array_at IVIDDEC3_OutArgs [''freeBufID''] 0 0x5000 + 1 then 0x20 else 0))"
    using example_turn by (auto simp: some_args_def some_ptrs_def no_ptrs_def)
  have o: "fld IVIDDEC3_OutArgs [''outputID''] = 12" "fld IVIDDEC3_OutArgs [''freeBufID''] = 344"
    "fld IVIDDEC3_OutArgs [''outBufsInUseFlag''] = 424" by code_simp+
  have ptr: "p_outArgs some_ptrs = 0x5000" by (simp add: some_ptrs_def)
  let ?u = "snd (mark sample_tapi (Some (fst (mark sample_tapi None t2))) t3)"
  have 1: "output_loop sample_tapi (a_out some_args) 4096 (p_outArgs some_ptrs) 0 0 ?u = Some (0, ?u)"
    by (subst output_loop.simps) (simp add: load_t_def mark_pool m ptr elem_at_def o load32_def word_of_def)
  have 2: "freed_ids (tmem t3) (p_outArgs some_ptrs) 0 [0x2000]"
    by (simp add: m ptr elem_at_def o load32_def word_of_def)
  have 3: "load32 (tmem t3) (member_at IVIDDEC3_OutArgs [''outBufsInUseFlag''] (p_outArgs some_ptrs)) \<noteq> None"
    by (simp add: m load32_def)
  from decode_step_keeps_ownership [OF two_buffers_split e 1 2 _ _ 3]
  obtain t' where "decode_step sample_tapi freeing_rcm some_args 4096 some_ptrs 1 0 0 two_buffers = Some (Go 0 0, t')"
    "pool.split_up t' (rev [0x2000] @ []) (insert 0x1000 {0x2000} - set [0x2000])" by auto
  moreover have "insert 0x1000 {0x2000} - set [0x2000] = {0x1000 :: u32}" by auto
  ultimately show ?thesis by auto
qed

end
