(* ===== verification/Test_Dims.thy ===== *)
theory Test_Dims
  imports Test_Decode
begin

text \<open>
  The dimensions that \<open>main\<close> of \<^verbatim>\<open>test.c\<close> computes from its arguments: rounding, the number of
  buffers, and the division by zero for a size of zero.
\<close>

lemma and_not_minus:
  fixes y k :: u32
  shows "y AND NOT k = y - (y AND k)"
proof -
  have "NOT y AND (y AND k) = 0" by (rule bit_word_eqI) (auto simp: bit_simps)
  moreover have "y AND NOT (y AND k) = y AND NOT k" by (rule bit_word_eqI) (auto simp: bit_simps)
  ultimately show ?thesis by (simp add: disjunctive_diff_eq_and_not)
qed

text \<open>\<open>ALIGN2\<close> rounds up to a multiple of a power of two, when nothing wraps.\<close>

lemma unat_ALIGN2:
  assumes "unat x + 2 ^ n \<le> 2 ^ 31" "unat (push_bit n 1 - 1 :: u32) = 2 ^ n - 1"
  shows "unat (ALIGN2 x n) = (unat x + (2 ^ n - 1)) div 2 ^ n * 2 ^ n"
proof -
  let ?y = "x + (push_bit n 1 - 1)"
  have y: "unat ?y = unat x + (2 ^ n - 1)"
    using assms by (simp add: unat_word_ariths)
  have "push_bit n 1 - 1 = (mask n :: u32)" by (simp add: mask_eq_exp_minus_1 push_bit_of_1)
  then have "ALIGN2 x n = ?y - take_bit n ?y"
    by (simp add: ALIGN2_def and_not_minus take_bit_eq_mask)
  moreover have t: "unat (take_bit n ?y) = unat ?y mod 2 ^ n"
    unfolding unsigned_take_bit_eq by (rule take_bit_eq_mod)
  moreover have "unat (take_bit n ?y) \<le> unat ?y" unfolding t by simp
  ultimately have "unat (ALIGN2 x n) = unat ?y - unat ?y mod 2 ^ n"
    by (simp add: unat_sub word_le_nat_alt)
  then show ?thesis by (simp only: y minus_mod_eq_div_mult)
qed

lemma ALIGN2_bounds:
  assumes "unat x \<le> 16384" "n = 4 \<or> n = 7"
  shows "2 ^ n dvd unat (ALIGN2 x n)" "unat x \<le> unat (ALIGN2 x n)" "unat (ALIGN2 x n) < unat x + 2 ^ n"
proof -
  have "unat (push_bit n 1 - 1 :: u32) = 2 ^ n - 1" using assms(2) by auto
  then have e: "unat (ALIGN2 x n) = (unat x + (2 ^ n - 1)) div 2 ^ n * 2 ^ n"
    using assms by (intro unat_ALIGN2) auto
  then show "2 ^ n dvd unat (ALIGN2 x n)" by simp
  show "unat x \<le> unat (ALIGN2 x n)" "unat (ALIGN2 x n) < unat x + 2 ^ n"
    unfolding e using assms(2) by auto
qed

lemma sint_small:
  fixes c :: u32
  assumes "unat c < 2 ^ 31"
  shows "sint c = int (unat c)"
proof -
  have "signed_take_bit 31 (int k) = int k" if "k < 2 ^ 31" for k
    using that by (intro signed_take_bit_int_eq_self) auto
  from this [OF assms] have "sint (of_nat (unat c) :: u32) = int (unat c)"
    by (simp only: signed_of_nat) simp
  then show ?thesis by simp
qed

lemma cdiv_nonneg:
  assumes "unat a < 2 ^ 31" "unat b < 2 ^ 31"
  shows "unat (cdiv a b) = unat a div unat b"
proof -
  have "int k sdiv int l = int (k div l)" for k l :: nat
    by (cases "k = 0"; cases "l = 0") (simp_all add: signed_divide_int_def zdiv_int sgn_if)
  then have d: "int (unat a) sdiv int (unat b) = int (unat a div unat b)" by blast
  have "cdiv a b = of_nat (unat a div unat b)"
    unfolding cdiv_def sint_small [OF assms(1)] sint_small [OF assms(2)] d by (rule of_int_of_nat_eq)
  moreover have "unat a div unat b < 2 ^ 32" by (rule le_less_trans [OF div_le_dividend]) (use assms(1) in simp)
  ultimately show ?thesis by (simp add: unsigned_of_nat take_bit_nat_eq_self)
qed

text \<open>The dimensions \<open>main\<close> computes from the two numbers of the command line.\<close>

definition dims_ok :: "nat \<Rightarrow> nat \<Rightarrow> bool \<Rightarrow> u32 \<Rightarrow> 'w test \<Rightarrow> bool" where
  "dims_ok w h oned stride t \<longleftrightarrow>
     16 dvd unat (width t) \<and> w \<le> unat (width t) \<and> unat (width t) < w + 16 \<and>
     16 dvd unat (height t) \<and> h \<le> unat (height t) \<and> unat (height t) < h + 16 \<and>
     128 dvd unat (padded_width t) \<and> unat (width t) + 64 \<le> unat (padded_width t) \<and>
     unat (padded_width t) < unat (width t) + 192 \<and> unat (padded_height t) = unat (height t) + 96 \<and>
     unat (num_buffers t) =
       min 16 (32768 div (unat (width t) div 16 * (unat (height t) div 16))) + 3 \<and>
     stride = (if oned then padded_width t else 4096)"

lemma unat_add_less: "unat (a :: u32) + unat b < 2 ^ 32 \<Longrightarrow> unat (a + b) = unat a + unat b"
  by (simp add: unat_word_ariths)

lemma unat_mult_less: "unat (a :: u32) * unat b < 2 ^ 32 \<Longrightarrow> unat (a * b) = unat a * unat b"
  by (simp add: unat_word_ariths)

lemma unat_C_MIN: "unat a < 2 ^ 31 \<Longrightarrow> unat (C_MIN 16 a) = min 16 (unat a)"
proof -
  assume a: "unat a < 2 ^ 31"
  have "signed_take_bit 31 (int k) = int k" if "k < 2 ^ 31" for k
    using that by (intro signed_take_bit_int_eq_self) auto
  from this [OF a] have "sint (of_nat (unat a) :: u32) = int (unat a)" by (simp only: signed_of_nat) simp
  then have e: "sint a = int (unat a)" by simp
  have "sint (16 :: u32) = int 16" by simp
  then have "sint (16 :: u32) < sint a \<longleftrightarrow> 16 < unat a" by (simp only: e of_nat_less_iff)
  then show ?thesis by (simp add: C_MIN_def min_def)
qed

lemma dimensions_in_range_result:
  assumes "unat (atoi (a_width a)) \<in> {1..8192}" "unat (atoi (a_height a)) \<in> {1..8192}"
  shows "\<exists>stride t'. set_dims a t = Some (stride, t') \<and>
     dims_ok (unat (atoi (a_width a))) (unat (atoi (a_height a))) (a_oned a) stride t' \<and>
     3 \<le> unat (num_buffers t') \<and> unat (num_buffers t') \<le> 19"
proof -
  let ?w = "ALIGN2 (atoi (a_width a)) 4" and ?h = "ALIGN2 (atoi (a_height a)) 4"
  let ?p = "ALIGN2 (?w + 2 * PADX) 7"
  let ?b = "cdiv ?w 16 * cdiv ?h 16"
  have w: "16 dvd unat ?w" "unat (atoi (a_width a)) \<le> unat ?w" "unat ?w < unat (atoi (a_width a)) + 16"
    using ALIGN2_bounds [of "atoi (a_width a)" 4] assms(1) by auto
  have h: "16 dvd unat ?h" "unat (atoi (a_height a)) \<le> unat ?h" "unat ?h < unat (atoi (a_height a)) + 16"
    using ALIGN2_bounds [of "atoi (a_height a)" 4] assms(2) by auto
  have small: "unat ?w \<le> 8192 + 15" "unat ?h \<le> 8192 + 15" "16 \<le> unat ?w" "16 \<le> unat ?h"
    using w h assms dvd_imp_le [OF w(1)] dvd_imp_le [OF h(1)] by auto
  have wp: "unat (?w + 2 * PADX) = unat ?w + 64"
    using small(1) unat_add_less [of ?w 64] by (simp add: PADX_def)
  have p: "128 dvd unat ?p" "unat ?w + 64 \<le> unat ?p" "unat ?p < unat ?w + 192"
    using ALIGN2_bounds [of "?w + 2 * PADX" 7] small(1) wp by auto
  have hp: "unat (?h + 4 * PADY) = unat ?h + 96"
    using small(2) unat_add_less [of ?h 96] by (simp add: PADY_def)
  have d: "unat (cdiv ?w 16) = unat ?w div 16" "unat (cdiv ?h 16) = unat ?h div 16"
    using small cdiv_nonneg [of ?w 16] cdiv_nonneg [of ?h 16] by simp_all
  have q: "unat ?w div 16 \<le> 512" "unat ?h div 16 \<le> 512" using small by auto
  then have m: "unat ?w div 16 * (unat ?h div 16) \<le> 512 * 512" by (rule mult_le_mono)
  then have b: "unat ?b = unat ?w div 16 * (unat ?h div 16)"
    using d unat_mult_less [of "cdiv ?w 16" "cdiv ?h 16"] by simp
  have "0 < unat ?w div 16 * (unat ?h div 16)" using small(3,4) by (simp add: div_greater_zero_iff)
  then have b0: "?b \<noteq> 0" using b by (metis less_irrefl unsigned_0)
  have n: "unat (cdiv 32768 ?b) = 32768 div (unat ?w div 16 * (unat ?h div 16))"
    using cdiv_nonneg [of 32768 ?b] b m by simp
  then have c: "unat (C_MIN 16 (cdiv 32768 ?b)) = min 16 (32768 div (unat ?w div 16 * (unat ?h div 16)))"
    using unat_C_MIN [of "cdiv 32768 ?b"] div_le_dividend [of 32768 "unat ?w div 16 * (unat ?h div 16)"] by simp
  let ?n = "min 16 (32768 div (unat ?w div 16 * (unat ?h div 16)))"
  have nb: "unat (C_MIN 16 (cdiv 32768 ?b) + 3) = ?n + 3"
    using unat_add_less [of "C_MIN 16 (cdiv 32768 ?b)" 3] c by simp
  let ?s = "if a_oned a then ?p else 4096"
  let ?t = "t\<lparr>width := ?w, height := ?h, padded_width := ?p, padded_height := ?h + 4 * PADY,
    num_buffers := C_MIN 16 (cdiv 32768 ?b) + 3\<rparr>"
  have "set_dims a t = Some (?s, ?t)" using b0 by (simp only: set_dims_def Let_def if_False)
  moreover have "dims_ok (unat (atoi (a_width a))) (unat (atoi (a_height a))) (a_oned a) ?s ?t"
    unfolding dims_ok_def using w h p hp nb by simp
  moreover have "3 \<le> unat (num_buffers ?t)" "unat (num_buffers ?t) \<le> 19" using nb by simp_all
  ultimately show ?thesis by blast
qed

text \<open>
  C26: for a width and a height between 1 and 8192 the dimensions are rounded up to whole
  macroblocks, the padded ones leave room for the borders of the codec, between 3 and 19 buffers
  are used, and neither the divisions nor the products go out of range.
\<close>

theorem dimensions_in_range:
  assumes "unat (atoi (a_width a)) \<in> {1..8192}" "unat (atoi (a_height a)) \<in> {1..8192}"
  shows "\<exists>stride t'. set_dims a t = Some (stride, t') \<and>
     dims_ok (unat (atoi (a_width a))) (unat (atoi (a_height a))) (a_oned a) stride t' \<and>
     3 \<le> unat (num_buffers t') \<and> unat (num_buffers t') \<le> 19"
  using assms by (rule dimensions_in_range_result)

lemma dimensions_in_range_witness:
  "\<exists>stride t'. set_dims (some_args\<lparr>a_width := chars ''320'', a_height := chars ''240''\<rparr>)
     (init_test (init_proc (\<lambda>a. None) 0)) = Some (stride, t') \<and> dims_ok 320 240 False stride t'"
proof -
  have "atoi (chars ''320'') = 320" "atoi (chars ''240'') = 240" by code_simp+
  then show ?thesis
    using dimensions_in_range [of "some_args\<lparr>a_width := chars ''320'', a_height := chars ''240''\<rparr>"
        "init_test (init_proc (\<lambda>a. None) 0)"]
    by (auto simp: some_args_def)
qed

text \<open>
  A width or height that is not a number, or zero, is not reported: \<open>main\<close> divides by zero
  before it opens the engine.
\<close>

lemma zero_size_divides_by_zero:
  assumes "parse_args argv = Some a" "atoi (a_width a) = 0 \<or> atoi (a_height a) = 0"
  shows "test_main A R argv t = None"
proof -
  have "ALIGN2 0 4 = 0" "cdiv 0 16 = 0" by code_simp+
  then have "cdiv (ALIGN2 (atoi (a_width a)) 4) 16 * cdiv (ALIGN2 (atoi (a_height a)) 4) 16 = 0"
    using assms(2) by auto
  then have "set_dims a t = None" by (simp add: set_dims_def Let_def)
  with assms(1) show ?thesis by (simp add: test_main_def)
qed

lemma zero_size_divides_by_zero_witness:
  "test_main sample_tapi freeing_rcm (map chars [''test'', ''wide'', ''240'', ''in'', ''out''])
     (init_test (init_proc (\<lambda>a. None) 0)) = None"
proof (rule zero_size_divides_by_zero)
  show "parse_args (map chars [''test'', ''wide'', ''240'', ''in'', ''out'']) =
      Some \<lparr>a_oned = False, a_width = chars ''wide'', a_height = chars ''240'', a_in = chars ''in'',
        a_out = chars ''out''\<rparr>"
    by code_simp
  have "atoi (chars ''wide'') = 0" by code_simp
  then show "atoi (a_width \<lparr>a_oned = False, a_width = chars ''wide'', a_height = chars ''240'',
      a_in = chars ''in'', a_out = chars ''out''\<rparr>) = 0 \<or>
    atoi (a_height \<lparr>a_oned = False, a_width = chars ''wide'', a_height = chars ''240'',
      a_in = chars ''in'', a_out = chars ''out''\<rparr>) = 0" by simp
qed

end
