(* ===== verification/Test_Session.thy ===== *)
theory Test_Session
  imports Test_Dims Remote_Session
begin

text \<open>
  The test client against the server: \<open>main\<close> of \<^verbatim>\<open>test.c\<close> over the stubs, a transport that delivers
  every message, and the handlers of \<^verbatim>\<open>dce.c\<close>. A run is followed through its setup on a memory in which
  everything is mapped, with allocators that touch neither the server, nor the connection, nor the
  mapping.
\<close>

lemma full_same_map: "full m \<Longrightarrow> same_map m m' \<Longrightarrow> full m'"
  by (simp add: full_def same_map_def)

lemma full_store: "full m \<Longrightarrow> \<exists>m'. store_bytes m a bs = Some m' \<and> full m'"
  using store_bytes_same_map [of m a bs] full_mapped full_same_map by blast

subsection \<open>Allocators and engine\<close>

text \<open>What the other side of the connection holds: the server's table, and which connections are open.\<close>

definition peer :: "('v, 'w) transport \<Rightarrow> 'v \<Rightarrow> table option \<times> (u32 \<Rightarrow> u32 \<Rightarrow> bool)" where
  "peer T v = (map_option clients (server_at T v), \<lambda>q h. linked_by T q h v)"

definition quiet :: "('v, 'w) transport \<Rightarrow> 'v test_api \<Rightarrow> bool" where
  "quiet T B \<longleftrightarrow> (\<forall>b p v m. full m \<longrightarrow>
     (case tm_alloc B b (v, m) of (q, v', m') \<Rightarrow> peer T v' = peer T v \<and> full m') \<and>
     (case tm_free B p (v, m) of (v', m') \<Rightarrow> peer T v' = peer T v \<and> full m'))"

text \<open>An engine that opens and creates, and whose answers to control calls satisfy \<open>C\<close>.\<close>

definition answering :: "'w ce_api \<Rightarrow> (u32 \<Rightarrow> bool) \<Rightarrow> bool" where
  "answering A C \<longleftrightarrow> cache_keeps A \<and>
     (\<forall>n m w h ec m' w'. full m \<longrightarrow> ce_open A n (m, w) = ((h, ec), m', w') \<longrightarrow> h \<noteq> 0 \<and> full m') \<and>
     (\<forall>e n q m w h m' w'. full m \<longrightarrow> ce_create A e n q (m, w) = (h, m', w') \<longrightarrow> h \<noteq> 0 \<and> full m') \<and>
     (\<forall>c i q q' m w r m' w'. full m \<longrightarrow> ce_control A c i q q' (m, w) = (r, m', w') \<longrightarrow> C r \<and> full m') \<and>
     (\<forall>e m w. full m \<longrightarrow> full (fst (ce_close A e (m, w))))"

abbreviation rejecting :: "'w ce_api \<Rightarrow> bool" where
  "rejecting A \<equiv> answering A (\<lambda>r. r \<noteq> 0)"

text \<open>What every stage of the setup keeps; \<open>ps\<close> is the pool and the number of buffers asked for.\<close>

definition pool_state :: "'w test \<Rightarrow> u32 \<times> cells \<times> u32" where
  "pool_state t = (head t, cells t, num_buffers t)"

lemma pool_state_simps [simp]:
  "pool_state (t\<lparr>tproc := s\<rparr>) = pool_state t" "pool_state (set_world wm t) = pool_state t"
  "pool_state (set_mem m t) = pool_state t"
  by (simp_all add: pool_state_def set_world_def set_mem_def)

definition served :: "('v, 'w) transport \<Rightarrow> u32 \<times> cells \<times> u32 \<Rightarrow> table \<Rightarrow> 'v test \<Rightarrow> bool" where
  "served T ps cl t \<longleftrightarrow> full (tmem t) \<and> fst (peer T (pw (tproc t))) = Some cl \<and> pool_state t = ps"

definition running :: "('v, 'w) transport \<Rightarrow> u32 \<times> cells \<times> u32 \<Rightarrow> u32 \<Rightarrow> table \<Rightarrow> 'v test \<Rightarrow> bool" where
  "running T ps p cl t \<longleftrightarrow> served T ps cl t \<and> attached T p (tproc t)"

lemma served_server:
  "served T ps cl t \<Longrightarrow> \<exists>sv. server_at T (pw (tproc t)) = Some sv \<and> clients sv = cl"
  by (auto simp: served_def peer_def)

lemma peer_linked: "peer T v' = peer T v \<Longrightarrow> linked_by T q h v' = linked_by T q h v"
  by (simp add: peer_def) meson

lemma quiet_alloc:
  assumes "quiet T B" "full (tmem t)" "tm_alloc B b (tworld t) = (h, v, m)"
  shows "peer T v = peer T (pw (tproc t)) \<and> full m"
  using assms(1) [unfolded quiet_def, rule_format, OF assms(2), THEN conjunct1, of "pw (tproc t)" b] assms(3)
  by (simp add: tworld_def)

lemma quiet_free:
  assumes "quiet T B" "full (tmem t)" "tm_free B q (tworld t) = (v, m)"
  shows "peer T v = peer T (pw (tproc t)) \<and> full m"
  using assms(1) [unfolded quiet_def, rule_format, OF assms(2), THEN conjunct2, of "pw (tproc t)" q] assms(3)
  by (simp add: tworld_def)

lemma served_world: "served T ps cl t \<Longrightarrow> peer T v = peer T (pw (tproc t)) \<Longrightarrow> full m \<Longrightarrow> served T ps cl (set_world (v, m) t)"
  by (simp add: served_def) (simp add: set_world_def)

lemma running_world:
  "running T ps p cl t \<Longrightarrow> peer T v = peer T (pw (tproc t)) \<Longrightarrow> full m \<Longrightarrow> running T ps p cl (set_world (v, m) t)"
  using served_world [of T ps cl t v m] peer_linked [of T v "pw (tproc t)"]
  by (simp add: running_def attached_def) (simp add: set_world_def)

lemma running_full: "running T ps p cl t \<Longrightarrow> full (tmem t)"
  by (simp add: running_def served_def)

lemma talloc_running:
  assumes "quiet T B" "running T ps p cl t"
  shows "\<exists>q t'. talloc B ty t = Some (q, t') \<and> running T ps p cl t'"
proof -
  let ?len = "of_nat (csize ty) + of_nat (csize MemHeader) :: u32"
  let ?b = "[\<lparr>pixelFormat = PIXEL_FMT_PAGE, dim = Len ?len\<rparr>]"
  obtain h w m where a: "tm_alloc B ?b (tworld t) = (h, w, m)" by (metis surj_pair)
  have m: "peer T w = peer T (pw (tproc t))" "full m"
    using quiet_alloc [OF assms(1) running_full [OF assms(2)] a] by simp_all
  obtain m1 where 1: "store32 m h (of_nat (csize ty)) = Some m1" "full m1"
    using full_store [OF m(2)] by (auto simp: store32_def)
  obtain m2 where 2: "store32 m1 (h + 4) (tm_phys B (H2P h)) = Some m2" "full m2"
    using full_store [OF 1(2)] by (auto simp: store32_def)
  obtain m3 where 3: "store_bytes m2 (H2P h) (replicate (unat (of_nat (csize ty) :: u32)) 0) = Some m3" "full m3"
    using full_store [OF 2(2)] by blast
  have "talloc B ty t = Some (H2P h, set_world (w, m3) t)"
    using a 1 2 3 by (simp add: talloc_def dce_alloc_def memmgr_of_def)
  then show ?thesis using running_world [OF assms(2) m(1) 3(2)] by blast
qed

lemma free_served:
  assumes "quiet T B" "served T ps cl t"
  shows "served T ps cl (set_world (tm_free B q (tworld t)) t)"
proof -
  obtain w m where f: "tm_free B q (tworld t) = (w, m)" by fastforce
  have "full (tmem t)" using assms(2) by (simp add: served_def)
  from quiet_free [OF assms(1) this f] served_world [OF assms(2)] f show ?thesis by simp
qed

lemma tfree_served: "quiet T B \<Longrightarrow> served T ps cl t \<Longrightarrow> served T ps cl (tfree B q t)"
  by (simp add: tfree_def dce_free_def memmgr_of_def free_served)

lemma assign32_running:
  "running T ps p cl t \<Longrightarrow> \<exists>t'. assign32 a v t = Some t' \<and> running T ps p cl t' \<and> width t' = width t \<and> height t' = height t"
  using assign32_ok [of t a v] full_mapped full_same_map
  by (fastforce simp: running_def served_def set_mem_def attached_def)

lemma assign_members_running:
  "running T ps p cl t \<Longrightarrow> \<exists>t'. assign_members ty q ms t = Some t' \<and> running T ps p cl t'"
proof (induction ms arbitrary: t)
  case (Cons m ms)
  obtain path v where m: "m = (path, v)" by fastforce
  obtain t1 where "assign32 (member_at ty path q) v t = Some t1" "running T ps p cl t1"
    using assign32_running [OF Cons.prems] by blast
  with Cons.IH [of t1] show ?case by (simp add: m)
qed simp

lemma fill_params_running:
  assumes "running T ps p cl t"
  shows "\<exists>t'. fill_params q t = Some t' \<and> running T ps p cl t'"
proof -
  obtain t1 where 1: "assign_members IVIDDEC3_Params q [
       ([''size''], of_nat (csize IVIDDEC3_Params)),
       ([''maxWidth''], width t),
       ([''maxHeight''], height t),
       ([''maxFrameRate''], 30000),
       ([''maxBitRate''], 10000000),
       ([''dataEndianness''], word_of_int (XDM_DataFormat_val XDM_BYTE)),
       ([''forceChromaFormat''], word_of_int (XDM_ChromaFormat_val XDM_YUV_420SP)),
       ([''operatingMode''], word_of_int (IVIDEO_OperatingMode_val IVIDEO_DECODE_ONLY)),
       ([''displayDelay''], word_of_int (IVIDDEC3_displayDelay_val IVIDDEC3_DISPLAY_DELAY_AUTO)),
       ([''displayBufsMode''], word_of_int (IVIDDEC3_DisplayBufsMode_val IVIDDEC3_DISPLAYBUFS_EMBEDDED)),
       ([''inputDataMode''], word_of_int (IVIDEO_DataMode_val IVIDEO_ENTIREFRAME))] t = Some t1" "running T ps p cl t1"
    using assign_members_running [OF assms] by blast
  let ?none = "word_of_int (IVIDEO_MetadataType_val IVIDEO_METADATAPLANE_NONE)"
  obtain t2 where 2: "assign32 (array_at IVIDDEC3_Params [''metadataType''] 0 q) ?none t1 = Some t2" "running T ps p cl t2"
    using assign32_running [OF 1(2)] by blast
  obtain t3 where 3: "assign32 (array_at IVIDDEC3_Params [''metadataType''] 1 q) ?none t2 = Some t3" "running T ps p cl t3"
    using assign32_running [OF 2(2)] by blast
  obtain t4 where 4: "assign32 (array_at IVIDDEC3_Params [''metadataType''] 2 q) ?none t3 = Some t4" "running T ps p cl t4"
    using assign32_running [OF 3(2)] by blast
  show ?thesis
    unfolding fill_params_def 1 bind.bind_lunit 2 3 4 by (rule assign_members_running [OF 4(2)])
qed

subsection \<open>The stages of a run\<close>

lemma chars_ok [simp]:
  "cstr_ok (chars ''ivahd_vidsvr'')" "length (chars ''ivahd_vidsvr'') < 24"
  "cstr_ok (chars ''ivahd_h264dec'')" "length (chars ''ivahd_h264dec'') < 24"
  by code_simp+

lemma answering_parts:
  assumes "answering A C" "full m"
  shows "cache_keeps A"
    "ce_open A n (m, w) = ((h, ec), m', w') \<Longrightarrow> h \<noteq> 0 \<and> full m'"
    "ce_create A e n q (m, w) = (h, m', w') \<Longrightarrow> h \<noteq> 0 \<and> full m'"
    "ce_control A c i q q' (m, w) = (h, m', w') \<Longrightarrow> C h \<and> full m'"
    "full (fst (ce_close A e (m, w)))"
  using assms unfolding answering_def by metis+

context delivery begin

lemma open_stage:
  assumes "answering A C" "F = UNIV" "use_count (tproc t) = 0" "served T ps cl t"
  shows "\<exists>e ec t'. stub (Engine_open R (chars ''ivahd_vidsvr'')) t = Some ((e, Some ec), t') \<and>
     e \<noteq> 0 \<and> running T ps p (dce_register_engine cl p e) t'"
proof -
  let ?s = "tproc t"
  obtain sv where sv: "server_at T (pw ?s) = Some sv" "clients sv = cl" using served_server [OF assms(4)] by blast
  have f: "full (pmem ?s)" using assms(4) by (simp add: served_def)
  obtain e ec m w where o: "ce_open A (chars ''ivahd_vidsvr'')
      (pmem ?s, set_env A p (hw (power sv))) = ((e, ec), m, w)" by (metis surj_pair)
  have e: "e \<noteq> 0" "full m" using answering_parts(2) [OF assms(1) f o] by auto
  obtain s' sv' where s': "Engine_open R (chars ''ivahd_vidsvr'') ?s = Some ((e, Some ec), s')"
    "server_at T (pw s') = Some sv'" "clients sv' = dce_register_engine cl p e" "pmem s' = m" "attached T p s'"
    using remote_open_result [OF _ assms(3) sv(1) _ _ o] assms(2) e(1) sv(2) by auto
  then have "stub (Engine_open R (chars ''ivahd_vidsvr'')) t = Some ((e, Some ec), t\<lparr>tproc := s'\<rparr>)"
    by (simp add: stub_def)
  then show ?thesis using s' e assms(4) by (auto simp: running_def served_def peer_def)
qed

lemma create_stage:
  assumes "answering A C" "F = UNIV" "running T ps p cl t"
  shows "\<exists>c t'. stub (VIDDEC3_create R e (chars ''ivahd_h264dec'') q) t = Some (Value c, t') \<and>
     c \<noteq> 0 \<and> running T ps p (dce_register_codec cl p c) t'"
proof -
  let ?s = "tproc t"
  have r: "served T ps cl t" "attached T p ?s" "full (pmem ?s)" using assms(3) by (simp_all add: running_def served_def)
  obtain sv where sv: "server_at T (pw ?s) = Some sv" "clients sv = cl" using served_server [OF r(1)] by blast
  obtain d where d: "virt2ducati (pmem ?s) q = Some d" using full_virt2ducati [OF r(3)] by blast
  obtain c m w where o: "ce_create A e (chars ''ivahd_h264dec'') d
      (pmem ?s, set_env A p (hw (power sv))) = (c, m, w)" by (metis surj_pair)
  have c: "c \<noteq> 0" "full m" using answering_parts(3) [OF assms(1) r(3) o] by auto
  obtain s' sv' where s': "VIDDEC3_create R e (chars ''ivahd_h264dec'') q ?s = Some (Value c, s')"
    "reached T ?s sv' s'" "smem sv' = m" "clients sv' = dce_register_codec cl p c"
    using remote_create_result [OF _ r(2) sv(1) _ _ d o] assms(2) c sv(2)
      answering_parts(1) [OF assms(1) r(3)] full_header [OF c(2)] by auto
  then have "stub (VIDDEC3_create R e (chars ''ivahd_h264dec'') q) t = Some (Value c, t\<lparr>tproc := s'\<rparr>)"
    by (simp add: stub_def)
  then show ?thesis using s' c r(1) reached_attached [OF s'(2) r(2)]
    by (auto simp: running_def served_def peer_def reached_def)
qed

lemma control_stage:
  assumes "answering A C" "F = UNIV" "running T ps p cl t"
  shows "\<exists>r t'. stub (VIDDEC3_control R c i q q') t = Some (Value r, t') \<and> C r \<and> running T ps p cl t'"
proof -
  let ?s = "tproc t"
  have r: "served T ps cl t" "attached T p ?s" "full (pmem ?s)" using assms(3) by (simp_all add: running_def served_def)
  obtain sv where sv: "server_at T (pw ?s) = Some sv" "clients sv = cl" using served_server [OF r(1)] by blast
  obtain d d' where d: "virt2ducati (pmem ?s) q = Some d" "virt2ducati (pmem ?s) q' = Some d'"
    using full_virt2ducati [OF r(3)] by blast
  obtain x m w where o: "ce_control A c i d d'
      (pmem ?s, set_env A p (hw (power sv))) = (x, m, w)" by (metis surj_pair)
  have x: "C x" "full m" using answering_parts(4) [OF assms(1) r(3) o] by auto
  obtain s' sv' where s': "VIDDEC3_control R c i q q' ?s = Some (Value x, s')"
    "reached T ?s sv' s'" "smem sv' = m" "clients sv' = cl"
    using remote_control_result [OF _ r(2) sv(1) d o] assms(2) sv(2)
      answering_parts(1) [OF assms(1) r(3)] full_header [OF x(2)] by auto
  then have "stub (VIDDEC3_control R c i q q') t = Some (Value x, t\<lparr>tproc := s'\<rparr>)"
    by (simp add: stub_def)
  then show ?thesis using s' x r(1) reached_attached [OF s'(2) r(2)]
    by (auto simp: running_def served_def peer_def reached_def)
qed

lemma configure_stage:
  assumes "rejecting A" "F = UNIV" "quiet T B" "running T ps p cl t"
  shows "\<exists>g' t'. configure B R g c t = Some (Out g', t') \<and>
     p_engine g' = p_engine g \<and> running T ps p cl t'"
proof -
  obtain q1 t1 where 1: "talloc B IVIDDEC3_DynamicParams t = Some (q1, t1)" "running T ps p cl t1"
    using talloc_running [OF assms(3,4)] by blast
  obtain t2 where 2: "fill_dynParams q1 t1 = Some t2" "running T ps p cl t2"
    using assign_members_running [OF 1(2)] unfolding fill_dynParams_def by blast
  obtain q2 t3 where 3: "talloc B IVIDDEC3_Status t2 = Some (q2, t3)" "running T ps p cl t3"
    using talloc_running [OF assms(3) 2(2)] by blast
  obtain t4 where 4: "assign_members IVIDDEC3_Status q2 [([''size''], of_nat (csize IVIDDEC3_Status))] t3 = Some t4"
    "running T ps p cl t4"
    using assign_members_running [OF 3(2)] by blast
  obtain r t5 where 5: "stub (VIDDEC3_control R c (word_of_int (XDM_CmdId_val XDM_SETPARAMS)) q1 q2) t4 =
      Some (Value r, t5)" "r \<noteq> 0" "running T ps p cl t5"
    using control_stage [OF assms(1,2) 4(2)] by blast
  let ?g = "g\<lparr>p_dynParams := q1, p_status := q2\<rparr>"
  have "configure B R g c t = Some (Out ?g, t5)"
    using 1(1) 2(1) 3(1) 4(1) 5(1,2) by (simp add: configure_def del: assign_members.simps)
  moreover have "p_engine ?g = p_engine g" by simp
  ultimately show ?thesis using 5(3) by blast
qed

lemma create_stages:
  assumes "answering A C" "F = UNIV" "quiet T B" "use_count (tproc t) = 0" "served T ps cl t"
  shows "\<exists>e c q t'. e \<noteq> 0 \<and> c \<noteq> 0 \<and> running T ps p (dce_register_codec (dce_register_engine cl p e) p c) t' \<and>
     setup_codec B R t = configure B R (no_ptrs\<lparr>p_engine := e, p_params := q\<rparr>) c t'"
proof -
  obtain e ec t1 where 1: "stub (Engine_open R (chars ''ivahd_vidsvr'')) t = Some ((e, Some ec), t1)"
    "e \<noteq> 0" "running T ps p (dce_register_engine cl p e) t1"
    using open_stage [OF assms(1,2,4,5)] by blast
  obtain q t2 where 2: "talloc B IVIDDEC3_Params t1 = Some (q, t2)" "running T ps p (dce_register_engine cl p e) t2"
    using talloc_running [OF assms(3) 1(3)] by blast
  obtain t3 where 3: "fill_params q t2 = Some t3" "running T ps p (dce_register_engine cl p e) t3"
    using fill_params_running [OF 2(2)] by blast
  obtain c t4 where 4: "stub (VIDDEC3_create R e (chars ''ivahd_h264dec'') q) t3 = Some (Value c, t4)"
    "c \<noteq> 0" "running T ps p (dce_register_codec (dce_register_engine cl p e) p c) t4"
    using create_stage [OF assms(1,2) 3(2)] by blast
  have "setup_codec B R t = configure B R (no_ptrs\<lparr>p_engine := e, p_params := q\<rparr>) c t4"
    using 1(1,2) 2(1) 3(1) 4(1,2) by (simp add: setup_codec_def)
  with 1(2) 4(2,3) show ?thesis by blast
qed

lemma setup_stage:
  assumes "rejecting A" "F = UNIV" "quiet T B" "use_count (tproc t) = 0" "served T ps cl t"
  shows "\<exists>e c g t'. setup_codec B R t = Some (Out g, t') \<and> e \<noteq> 0 \<and> c \<noteq> 0 \<and> p_engine g = e \<and>
     running T ps p (dce_register_codec (dce_register_engine cl p e) p c) t'"
proof -
  obtain e c q t4 where 4: "e \<noteq> 0" "c \<noteq> 0" "running T ps p (dce_register_codec (dce_register_engine cl p e) p c) t4"
    "setup_codec B R t = configure B R (no_ptrs\<lparr>p_engine := e, p_params := q\<rparr>) c t4"
    using create_stages [OF assms] by blast
  from configure_stage [OF assms(1-3) 4(3), of "no_ptrs\<lparr>p_engine := e, p_params := q\<rparr>" c]
  show ?thesis using 4(1,2,4) by fastforce
qed

lemma out_stage:
  assumes "answering A C" "F = UNIV" "quiet T B" "running T (0, st) p cl t" "p_engine g \<noteq> 0"
  shows "\<exists>t' sv'. out_label B R g t = Some (0, t') \<and> server_at T (pw (tproc t')) = Some sv' \<and>
     clients sv' = dce_unregister_engine cl p (p_engine g)"
proof -
  let ?s = "tproc t" and ?cl = "dce_unregister_engine cl p (p_engine g)"
  have f: "served T (0, st) cl t" "attached T p ?s" "full (pmem ?s)" "head t = 0" "pool_state t = (0, st)"
    using assms(4) by (simp_all add: running_def served_def pool_state_def)
  obtain sv where sv: "server_at T (pw ?s) = Some sv" "clients sv = cl" using served_server [OF f(1)] by blast
  obtain s' sv' where s': "Engine_close R (p_engine g) ?s = Some s'" "server_at T (pw s') = Some sv'" "clients sv' = ?cl"
    "pmem s' = fst (ce_close A (p_engine g) (pmem ?s, set_env A p (hw (power sv))))"
    using remote_close_result [OF _ f(2) sv(1)] assms(2) sv(2) by blast
  let ?t = "t\<lparr>tproc := s'\<rparr>"
  have c: "stub_void (Engine_close R (p_engine g)) t = Some ?t" using s'(1) by (simp add: stub_void_def)
  have "served T (0, st) ?cl ?t"
    using s' f answering_parts(5) [OF assms(1) f(3)] by (simp add: served_def peer_def)
  moreover have "served T (0, st) k (fold (tfree B) qs u)" if "served T (0, st) k u" for k qs u
    using that by (induction qs arbitrary: u) (simp_all add: tfree_served [OF assms(3)])
  ultimately have "served T (0, st) ?cl (fold (tfree B) [p_params g, p_dynParams g, p_status g, p_inBufs g, p_outBufs g,
       p_inArgs g, p_outArgs g] ?t)" (is "served T (0, st) _ ?u") by blast
  moreover from this have "served T (0, st) ?cl (if p_input g \<noteq> 0 then set_world (tm_free B (p_input g) (tworld ?u)) ?u else ?u)"
    (is "served T (0, st) _ ?v") using free_served [OF assms(3)] by simp
  ultimately have v: "served T (0, st) ?cl ?v" "head ?v = 0" by (simp_all only: served_def pool_state_def prod.inject)
  have "out_label B R g t = Some (0, ?v)"
    unfolding out_label_def Let_def using assms(5) c v(2)
    by (simp only: if_True bind.bind_lunit output_free.simps [of B ?v] refl simp_thms)
  with served_server [OF v(1)] show ?thesis by blast
qed

end

text \<open>
  C19: over a transport that delivers every message, against a codec engine that opens, creates, and then
  rejects the control call, \<open>main\<close> closes the engine and returns 0, but never deletes the codec it
  created: the server goes on recording that codec, and nothing else, for the process. All of the memory
  is mapped, and the allocators of the test client leave it and the server alone.
\<close>

theorem rejected_control_leaves_codec:
  assumes "delivery A T p R UNIV" "parse_args argv = Some a" "set_dims a t = Some (stride, t0)"
    and "use_count (tproc t) = 0" "server_at T (pw (tproc t)) = Some sv" "clients sv = init_clients" "head t = 0"
      "full (tmem t)" "p \<noteq> 0" "quiet T B" "rejecting A"
  shows "\<exists>c t' sv'. test_main B R argv t = Some (0, t') \<and> c \<noteq> 0 \<and>
     server_at T (pw (tproc t')) = Some sv' \<and> registry_of (clients sv') = [p \<mapsto> ({#}, {#c#})]"
proof -
  have t0: "tproc t0 = tproc t" "head t0 = head t"
    using assms(3) by (auto simp: set_dims_def Let_def split: if_splits)
  then have "use_count (tproc t0) = 0" "served T (0, cells t0, num_buffers t0) init_clients t0"
    using assms(4-8) by (simp_all add: served_def pool_state_def peer_def)
  from delivery.setup_stage [OF assms(1,11) refl assms(10) this] obtain e c g t1 where
    s: "setup_codec B R t0 = Some (Out g, t1)" "e \<noteq> 0" "c \<noteq> 0" "p_engine g = e"
      "running T (0, cells t0, num_buffers t0) p (dce_register_codec (dce_register_engine init_clients p e) p c) t1" by blast
  obtain t2 sv2 where o: "out_label B R g t1 = Some (0, t2)" "server_at T (pw (tproc t2)) = Some sv2"
    "clients sv2 = dce_unregister_engine (dce_register_codec (dce_register_engine init_clients p e) p c) p e"
    using delivery.out_stage [OF assms(1,11) refl assms(10) s(5), of g] s(2,4) by auto
  let ?ops = "[Register_Engine p e, Register_Codec p c, Unregister_Engine p e]"
  have "history_ok ?ops (registry_of init_clients)"
    using assms(9) s(2,3) by (simp add: spec_register_engine_def spec_register_codec_def)
  from history_refines_from [OF init_clients_inv this]
  have "registry_of (clients sv2) = [p \<mapsto> ({#}, {#c#})]"
    using o(3) by (simp add: spec_register_engine_def spec_register_codec_def spec_unregister_engine_def)
  moreover have "test_main B R argv t = Some (0, t2)"
    using assms(2,3) s(1) o(1) by (simp add: test_main_def)
  ultimately show ?thesis using s(3) o(2) by blast
qed

text \<open>An engine that rejects control calls, and allocators that always answer the same.\<close>

definition strict_api :: "unit ce_api" where
  "strict_api = idle_api\<lparr>ce_control := \<lambda>c i d s w. (0xFFFFFFFF, w)\<rparr>"

definition server_tapi :: "'v test_api" where
  "server_tapi = \<lparr>t_calloc = (\<lambda>st w. (0, w)), t_free = (\<lambda>p w. w), tm_alloc = (\<lambda>b (w, m). (0x8000, w, m)),
     tm_free = (\<lambda>p wm. wm), tm_phys = id, t_open = (\<lambda>p wr w. (3, w)), t_read = (\<lambda>fd p n wm. (0, wm)),
     t_write = (\<lambda>fd p n (w, m). (n, w)), t_close = (\<lambda>fd w. w), t_usec = (\<lambda>w. (0, w))\<rparr>"

lemma rejected_control_leaves_codec_witness:
  "\<exists>c t' sv'. test_main server_tapi (link strict_api 9 (\<lambda>n. 255))
       (map chars [''test'', ''320'', ''240'', ''in'', ''out''])
       (init_test (init_proc (\<lambda>a. Some 0) (Some (one_client\<lparr>clients := init_clients\<rparr>)))) = Some (0, t') \<and>
     pw (tproc t') = Some sv' \<and> registry_of (clients sv') = [9 \<mapsto> ({#}, {#c#})]"
proof -
  let ?t = "init_test (init_proc (\<lambda>a. Some 0) (Some (one_client\<lparr>clients := init_clients\<rparr>)))"
  let ?a = "\<lparr>a_oned = False, a_width = chars ''320'', a_height = chars ''240'', a_in = chars ''in'',
    a_out = chars ''out''\<rparr>"
  have a: "parse_args (map chars [''test'', ''320'', ''240'', ''in'', ''out'']) = Some ?a" by code_simp
  have "unat (atoi (chars ''320'')) = 320" "unat (atoi (chars ''240'')) = 240" by code_simp+
  then obtain stride t0 where d: "set_dims ?a ?t = Some (stride, t0)"
    using dimensions_in_range_result [of ?a ?t] by auto
  have q: "quiet link_view server_tapi" by (simp add: quiet_def server_tapi_def)
  have r: "rejecting strict_api"
    by (simp add: answering_def strict_api_def idle_api_def cache_keeps_def)
  have "full (\<lambda>a. Some 0)" by (simp add: full_def dom_def)
  then show ?thesis
    using rejected_control_leaves_codec [OF link.delivery_axioms [where p = 9 and junk = "\<lambda>n. 255"] a d _ _ _ _ _ _ q r]
    by (auto simp: init_test_def init_proc_def link_view_def)
qed

end
