(* ===== verification/Test_Complete.thy ===== *)
theory Test_Complete
  imports Test_Session
begin

text \<open>
  Every run of \<open>main\<close> of \<^verbatim>\<open>test.c\<close> against the server of \<^verbatim>\<open>dce.c\<close>: what the server records at its
  end. Allocators and operating system are assumed to leave the server's table and the connection
  alone; nothing is assumed about the codec engine, which may fail in any call, and the transport may
  lose messages.
\<close>

subsection \<open>What leaves the server's table alone\<close>

definition apart :: "('v, 'w) transport \<Rightarrow> 'v test_api \<Rightarrow> bool" where
  "apart T B \<longleftrightarrow>
     (\<forall>st w. peer T (snd (t_calloc B st w)) = peer T w) \<and>
     (\<forall>p w. peer T (t_free B p w) = peer T w) \<and>
     (\<forall>b wm. peer T (fst (snd (tm_alloc B b wm))) = peer T (fst wm)) \<and>
     (\<forall>p wm. peer T (fst (tm_free B p wm)) = peer T (fst wm)) \<and>
     (\<forall>p r w. peer T (snd (t_open B p r w)) = peer T w) \<and>
     (\<forall>fd p n wm. peer T (fst (snd (t_read B fd p n wm))) = peer T (fst wm)) \<and>
     (\<forall>fd p n wm. peer T (snd (t_write B fd p n wm)) = peer T (fst wm)) \<and>
     (\<forall>fd w. peer T (t_close B fd w) = peer T w) \<and>
     (\<forall>w. peer T (snd (t_usec B w)) = peer T w)"

lemma apart_calls:
  assumes "apart T B"
  shows "t_calloc B st w = (p, w') \<Longrightarrow> peer T w' = peer T w"
    and "peer T (t_free B q w) = peer T w"
    and "tm_alloc B b wm = (p, wm') \<Longrightarrow> peer T (fst wm') = peer T (fst wm)"
    and "peer T (fst (tm_free B q wm)) = peer T (fst wm)"
    and "t_open B path r w = (p, w') \<Longrightarrow> peer T w' = peer T w"
    and "t_read B fd q n wm = (k, wm') \<Longrightarrow> peer T (fst wm') = peer T (fst wm)"
    and "t_write B fd q n wm = (k, w') \<Longrightarrow> peer T w' = peer T (fst wm)"
    and "peer T (t_close B fd w) = peer T w"
    and "t_usec B w = (k, w') \<Longrightarrow> peer T w' = peer T w"
  using assms unfolding apart_def by (metis fst_conv snd_conv)+

text \<open>The other side of the connection as the client's world holds it, and the client's side.\<close>

definition conn :: "('v, 'w) transport \<Rightarrow> 'v test \<Rightarrow>
    (table option \<times> (u32 \<Rightarrow> u32 \<Rightarrow> bool)) \<times> u32 \<times> u32 \<times> (fxn \<Rightarrow> u32)" where
  "conn T t = (peer T (pw (tproc t)), handle (tproc t), pid (tproc t), idx (tproc t))"

named_theorems conn_frame "operations that do not change the connection"

lemma conn_set [simp]:
  "conn T (set_mem m t) = conn T t"
  "peer T (fst wm) = peer T (pw (tproc t)) \<Longrightarrow> conn T (set_world wm t) = conn T t"
  "fst (tworld t) = pw (tproc t)" "snd (tworld t) = tmem t"
  by (simp_all add: conn_def set_mem_def set_world_def tworld_def)

context carrier begin

lemma dce_alloc_clients:
  "dce_alloc (memmgr_of B) sz wm = Some (q, wm') \<Longrightarrow> apart T B \<Longrightarrow> peer T (fst wm') = peer T (fst wm)"
  by (auto simp: dce_alloc_def memmgr_of_def Let_def split: Option.bind_splits prod.splits dest: apart_calls(3))

lemma talloc_conn [conn_frame]: "talloc B ty t = Some (q, t') \<Longrightarrow> apart T B \<Longrightarrow> conn T t' = conn T t"
  by (auto simp: talloc_def split: Option.bind_splits dest!: dce_alloc_clients)

lemma tfree_conn: "apart T B \<Longrightarrow> conn T (tfree B q t) = conn T t"
  by (simp add: tfree_def dce_free_def memmgr_of_def apart_calls)

lemma assign32_conn [conn_frame]: "assign32 a v t = Some t' \<Longrightarrow> conn T t' = conn T t"
  by (auto simp: assign32_def split: Option.bind_splits)

lemma assign16_conn [conn_frame]: "assign16 a v t = Some t' \<Longrightarrow> conn T t' = conn T t"
  by (auto simp: assign16_def split: Option.bind_splits)

lemma set_desc_conn [conn_frame]:
  "set_memType y d t = Some t' \<Longrightarrow> conn T t' = conn T t"
  "set_buf v d t = Some t' \<Longrightarrow> conn T t' = conn T t"
  "set_bytes v d t = Some t' \<Longrightarrow> conn T t' = conn T t"
  "set_area w h d t = Some t' \<Longrightarrow> conn T t' = conn T t"
  "set_numBufs v d t = Some t' \<Longrightarrow> conn T t' = conn T t"
  by (auto simp: set_memType_def set_buf_def set_bytes_def set_area_def set_numBufs_def
      split: Option.bind_splits dest!: assign32_conn assign16_conn)

lemma assign_members_conn [conn_frame]: "assign_members ty q ms t = Some t' \<Longrightarrow> conn T t' = conn T t"
proof (induction ms arbitrary: t)
  case (Cons m ms)
  then show ?case by (cases m) (auto split: Option.bind_splits dest!: assign32_conn)
qed simp

lemma fill_params_conn [conn_frame]: "fill_params q t = Some t' \<Longrightarrow> conn T t' = conn T t"
  by (auto simp: fill_params_def simp del: assign_members.simps split: Option.bind_splits
      dest!: assign32_conn assign_members_conn)

lemma fill_dynParams_conn [conn_frame]: "fill_dynParams q t = Some t' \<Longrightarrow> conn T t' = conn T t"
  unfolding fill_dynParams_def by (rule assign_members_conn)

lemma tiler_alloc_conn [conn_frame]: "tiler_alloc B w h t = (q, t') \<Longrightarrow> apart T B \<Longrightarrow> conn T t' = conn T t"
  by (auto simp: tiler_alloc_def Let_def split: prod.splits dest!: apart_calls(3))

lemma conn_record [simp]:
  "conn T (t\<lparr>cells := c\<rparr>) = conn T t" "conn T (t\<lparr>head := h\<rparr>) = conn T t" "conn T (t\<lparr>path_len := n\<rparr>) = conn T t"
  by (simp_all add: conn_def)

lemma alloc_buffers_conn [conn_frame]:
  "alloc_buffers B tw th h stride n t = Some t' \<Longrightarrow> apart T B \<Longrightarrow> conn T t' = conn T t"
proof (induction n arbitrary: t)
  case (Suc n)
  obtain q w where c: "t_calloc B (cells t) (pw (tproc t)) = (q, w)" by fastforce
  let ?t = "t\<lparr>tproc := (tproc t)\<lparr>pw := w\<rparr>\<rparr>"
  obtain b t1 where b: "tiler_alloc B tw th ?t = (b, t1)" by fastforce
  have "conn T ?t = conn T t" using apart_calls(1) [OF Suc.prems(2) c] by (simp add: conn_def)
  with tiler_alloc_conn [OF b Suc.prems(2)] Suc.IH [OF _ Suc.prems(2)] Suc.prems(1) c b show ?case
    by (auto split: if_splits)
qed simp

lemma init_descs_conn [conn_frame]: "init_descs q w h stride t = Some (r, t') \<Longrightarrow> conn T t' = conn T t"
  by (auto simp: init_descs_def Let_def split: Option.bind_splits if_splits dest!: set_desc_conn)

lemma output_allocate_conn [conn_frame]:
  "output_allocate B q n w h stride t = Some (r, t') \<Longrightarrow> apart T B \<Longrightarrow> conn T t' = conn T t"
  by (auto simp: output_allocate_def split: Option.bind_splits prod.splits dest!: init_descs_conn alloc_buffers_conn)

lemma get_path_conn [conn_frame]: "get_path pat n t = Some (q, t') \<Longrightarrow> conn T t' = conn T t"
  by (auto simp: get_path_def Let_def)

lemma mark_conn: "apart T B \<Longrightarrow> conn T (snd (mark B prev t)) = conn T t"
  by (auto simp: mark_def split: prod.splits dest: apart_calls(9))

lemma output_get_conn [conn_frame]: "output_get t = Some (b, t') \<Longrightarrow> conn T t' = conn T t"
  by (auto simp: output_get_def Let_def split: Option.bind_splits if_splits)

lemma output_release_conn [conn_frame]: "output_release b t = Some t' \<Longrightarrow> conn T t' = conn T t"
  by (auto simp: output_release_def split: Option.bind_splits)

lemma read_loop_clients:
  "read_loop B fd n0 input sz wm = Some (k, wm') \<Longrightarrow> apart T B \<Longrightarrow> peer T (fst wm') = peer T (fst wm)"
  by (erule read_loop_ghost [where v = "peer T"]) (simp add: apart_def del: split_paired_All)

lemma read_input_conn [conn_frame]:
  assumes "read_input B pat n q t = Some (sz, t')" and ap: "apart T B"
  shows "conn T t' = conn T t"
  using assms
  by (auto simp: read_input_def Let_def apart_calls(8) [OF ap] split: Option.bind_splits if_splits prod.splits
      dest!: get_path_conn read_loop_clients [OF _ ap] apart_calls(5) [OF ap])

lemma write_lines_clients:
  "write_lines B fd n q len stride sz wm = Some (k, w) \<Longrightarrow> apart T B \<Longrightarrow> peer T w = peer T (fst wm)"
  by (erule write_lines_ghost [where v = "peer T"]) (simp add: apart_def del: split_paired_All)

lemma write_output_conn [conn_frame]:
  assumes "write_output B pat n y uv stride t = Some (sz, t')" and ap: "apart T B"
  shows "conn T t' = conn T t"
  using assms
  by (auto simp: write_output_def Let_def apart_calls(8) [OF ap] split: Option.bind_splits if_splits prod.splits
      dest!: get_path_conn write_lines_clients [OF _ ap] apart_calls(5) [OF ap])

lemma output_loop_conn_aux:
  assumes "output_loop B pat stride oa i cnt t = Some r"
  shows "apart T B \<longrightarrow> conn T (snd r) = conn T t"
proof (rule output_loop.raw_induct [OF _ assms])
  fix f :: "'v test_api \<Rightarrow> cstr \<Rightarrow> u32 \<Rightarrow> u32 \<Rightarrow> nat \<Rightarrow> u32 \<Rightarrow> 'v test \<Rightarrow> (u32 \<times> 'v test) option"
    and B pat stride oa i cnt and t :: "'v test" and r
  assume IH: "\<And>B pat stride oa i cnt t r. f B pat stride oa i cnt t = Some r \<Longrightarrow>
      apart T B \<longrightarrow> conn T (snd r) = conn T t"
    and body: "(do {
     buf \<leftarrow> load_t (array_at IVIDDEC3_OutArgs [''outputID''] i oa) t;
     (if buf = 0 then Some (cnt, t)
      else do {
        x \<leftarrow> load_t (top_left ''x'' oa) t;
        y \<leftarrow> load_t (top_left ''y'' oa) t;
        let yoff = y * stride + x;
        let uvoff = cdiv (y * stride) 2 + x;
        c \<leftarrow> cells t buf;
        (_, t) \<leftarrow> write_output B pat cnt (ob_buf c + yoff)
          (ob_buf c + uvoff + stride * padded_height t) stride t;
        f B pat stride oa (Suc i) (cnt + 1) t }) }) = Some r"
  show "apart T B \<longrightarrow> conn T (snd r) = conn T t"
    using body
    by (auto split: Option.bind_splits if_splits prod.splits simp: Let_def dest!: IH write_output_conn)
qed

lemma output_loop_conn [conn_frame]:
  "output_loop B pat stride oa i cnt t = Some (k, t') \<Longrightarrow> apart T B \<Longrightarrow> conn T t' = conn T t"
  using output_loop_conn_aux by fastforce

lemma release_loop_conn [conn_frame]:
  assumes "release_loop oa i t = Some t'"
  shows "conn T t' = conn T t"
proof (rule release_loop.raw_induct [OF _ assms])
  fix f :: "u32 \<Rightarrow> nat \<Rightarrow> 'v test \<Rightarrow> 'v test option" and oa i t t'
  assume IH: "\<And>oa i t t'. f oa i t = Some t' \<Longrightarrow> conn T t' = conn T t"
    and body: "(do {
     buf \<leftarrow> load_t (array_at IVIDDEC3_OutArgs [''freeBufID''] i oa) t;
     (if buf = 0 then Some t
      else do { t \<leftarrow> output_release buf t; f oa (Suc i) t }) }) = Some t'"
  show "conn T t' = conn T t"
    using body by (auto split: Option.bind_splits if_splits dest!: IH output_release_conn)
qed

lemma prepare_conn [conn_frame]:
  "prepare B g pat n b t = Some (k, t') \<Longrightarrow> apart T B \<Longrightarrow> conn T t' = conn T t"
  by (auto simp: prepare_def split: Option.bind_splits if_splits prod.splits
      dest!: read_input_conn set_desc_conn assign32_conn)

lemma collect_conn [conn_frame]:
  "collect B g pat stride n t = Some (k, t') \<Longrightarrow> apart T B \<Longrightarrow> conn T t' = conn T t"
  by (auto simp: collect_def split: Option.bind_splits prod.splits dest!: output_loop_conn release_loop_conn)

lemma output_free_conn_aux:
  assumes "output_free B t = Some t'"
  shows "apart T B \<longrightarrow> conn T t' = conn T t"
proof (rule output_free.raw_induct [OF _ assms])
  fix f :: "'v test_api \<Rightarrow> 'v test \<Rightarrow> 'v test option" and B t t'
  assume IH: "\<And>B t t'. f B t = Some t' \<Longrightarrow> apart T B \<longrightarrow> conn T t' = conn T t"
    and body: "(if head t = 0 then Some t
      else do { c \<leftarrow> cells t (head t); f B (free_head B c t) }) = Some t'"
  have "conn T (free_head B c t) = conn T t" if "apart T B" for c
    using that by (simp add: free_head_def Let_def conn_def set_world_def tworld_def apart_calls)
  with IH body show "apart T B \<longrightarrow> conn T t' = conn T t" by (fastforce split: Option.bind_splits if_splits)
qed

lemma output_free_conn [conn_frame]: "output_free B t = Some t' \<Longrightarrow> apart T B \<Longrightarrow> conn T t' = conn T t"
  using output_free_conn_aux by blast


end

subsection \<open>The calls to the server\<close>

text \<open>What the handlers record.\<close>

lemma open_clients:
  assumes "rpc_Engine_open A d s = Some (v, d', s')"
  shows "clients s' = (let e = getf Engine_open_args [''out'', ''engine''] d' in
     if e \<noteq> 0 then dce_register_engine (clients s) (getf Engine_open_args [''in'', ''pid''] d) e else clients s)"
  using assms
  by (auto simp: rpc_Engine_open_def Let_def split: Option.bind_splits prod.splits if_splits dest!: clients_call)

lemma control_clients: "rpc_VIDDEC3_control A d s = Some (v, d', s') \<Longrightarrow> clients s' = clients s"
  by (auto simp: rpc_VIDDEC3_control_def Let_def split: Option.bind_splits prod.splits
      dest!: clients_clean clients_call)

lemma process_clients: "rpc_VIDDEC3_process A d s = Some (v, d', s') \<Longrightarrow> clients s' = clients s"
  by (auto simp: rpc_VIDDEC3_process_def Let_def split: Option.bind_splits prod.splits
      dest!: clients_clean clients_call)

lemma create_clients:
  assumes "rpc_VIDDEC3_create A d s = Some (v, d', s')"
  shows "clients s' = (let codec = getf VIDDEC3_create_args [''out'', ''codec''] d' in
     if codec \<noteq> 0 then dce_register_codec (clients s) (getf VIDDEC3_create_args [''in'', ''pid''] d) codec
     else clients s)"
  using assms
  by (auto simp: rpc_VIDDEC3_create_def Let_def split: Option.bind_splits prod.splits if_splits
      dest!: clients_clean clients_call)

text \<open>A process \<open>p\<close> connected to the server, whose table is \<open>cl\<close> unless it has stopped.\<close>

definition held :: "('v, 'w) transport \<Rightarrow> u32 \<Rightarrow> table \<Rightarrow> 'v test \<Rightarrow> bool" where
  "held T p cl t \<longleftrightarrow> fst (peer T (pw (tproc t))) \<in> {None, Some cl} \<and> attached T p (tproc t)"

lemma held_frame: "held T p cl t \<Longrightarrow> conn T t' = conn T t \<Longrightarrow> held T p cl t'"
  using peer_linked [of T "pw (tproc t')" "pw (tproc t)"] by (simp add: held_def conn_def attached_def)

lemma in_held:
  assumes "fst (peer T (pw (tproc t))) \<in> {None, Some cl}" "server_at T (pw (tproc t)) = Some sv"
  shows "clients sv = cl"
  using assms by (simp add: peer_def)

fun engine_of :: "outcome \<Rightarrow> u32" where
  "engine_of (Out g) = p_engine g"
| "engine_of (Ready g c) = p_engine g"

text \<open>
  What \<open>setup_codec\<close> leaves on the server, with its outcome: the engine when there is one, and then
  perhaps a codec, certainly when the setup was completed.
\<close>

definition after_setup :: "u32 \<Rightarrow> table \<Rightarrow> outcome \<Rightarrow> table \<Rightarrow> bool" where
  "after_setup p cl st cl' \<longleftrightarrow>
     (let e = engine_of st
      in if e = 0 then cl' = cl \<and> (\<exists>g. st = Out g)
         else (cl' = dce_register_engine cl p e \<and> (\<exists>g. st = Out g)) \<or>
           (\<exists>c. c \<noteq> 0 \<and> cl' = dce_register_codec (dce_register_engine cl p e) p c \<and>
              (\<forall>g' c'. st = Ready g' c' \<longrightarrow> c' = c)))"

context carrier begin

lemma exchange_held:
  assumes "exchange R f n fill (tproc t) = Some (r, s)" "held T p cl t"
    and "r = None \<Longrightarrow> cl' = cl"
    and "\<And>j d v d' sv sv'. r = Some d' \<Longrightarrow> length j = n \<Longrightarrow> fill (tmem t) j = Some d \<Longrightarrow> clients sv = cl \<Longrightarrow>
      handler A f d sv = Some (v, d', sv') \<Longrightarrow> clients sv' = cl'"
  shows "held T p cl' (t\<lparr>tproc := s\<rparr>)"
proof -
  have h: "attached T p (tproc t)" "fst (peer T (pw (tproc t))) \<in> {None, Some cl}" using assms(2) by (simp_all add: held_def)
  from exchange_carried [OF assms(1) h(1)] have s: "attached T p s" and "server_at T (pw s) = None \<or>
      (\<exists>sv sv'. server_at T (pw (tproc t)) = Some sv \<and> server_at T (pw s) = Some sv' \<and>
       (case r of None \<Rightarrow> sv' = sv | Some d' \<Rightarrow> \<exists>j d v. length j = n \<and> fill (tmem t) j = Some d \<and>
          handler A f d (called_with sv (tproc t)) = Some (v, d', sv')))" by auto
  then show ?thesis
  proof (elim disjE exE conjE)
    assume "server_at T (pw s) = None"
    with s show ?thesis by (simp add: held_def peer_def)
  next
    fix sv sv'
    assume 2: "server_at T (pw (tproc t)) = Some sv" "server_at T (pw s) = Some sv'"
      "case r of None \<Rightarrow> sv' = sv | Some d' \<Rightarrow> \<exists>j d v. length j = n \<and> fill (tmem t) j = Some d \<and>
          handler A f d (called_with sv (tproc t)) = Some (v, d', sv')"
    have c: "clients sv = cl" by (rule in_held [OF h(2) 2(1)])
    have "clients sv' = cl'"
    proof (cases r)
      case None
      with 2(3) c assms(3) show ?thesis by simp
    next
      case (Some d')
      with 2(3) obtain j d v where "length j = n" "fill (tmem t) j = Some d"
        "handler A f d (called_with sv (tproc t)) = Some (v, d', sv')" by auto
      from assms(4) [OF Some this(1,2) _ this(3)] c show ?thesis by simp
    qed
    with s 2(2) show ?thesis by (simp add: held_def peer_def)
  qed
qed

lemma control_held:
  assumes "stub (VIDDEC3_control R c i q q') t = Some (r, t')" "held T p cl t"
  shows "held T p cl t'"
proof -
  from assms(1) obtain s r' where e: "exchange R F_VIDDEC3_control (csize VIDDEC3_control_args)
       (\<lambda>m d. do { dp \<leftarrow> virt2ducati m q; st \<leftarrow> virt2ducati m q';
          Some (fill_VIDDEC3_control (pid (tproc t)) c i dp st d) }) (tproc t) = Some (r', s)" "t' = t\<lparr>tproc := s\<rparr>"
    by (auto simp: stub_def VIDDEC3_control_def split: Option.bind_splits prod.splits)
  show ?thesis unfolding e(2)
    by (rule exchange_held [OF e(1) assms(2)]) (auto simp: handler_def dest: control_clients)
qed

lemma process_held:
  assumes "stub (VIDDEC3_process R c q1 q2 q3 q4) t = Some (r, t')" "held T p cl t"
  shows "held T p cl t'"
proof -
  from assms(1) obtain s r' where e: "exchange R F_VIDDEC3_process (csize VIDDEC3_process_args)
       (\<lambda>m d. do { ib \<leftarrow> virt2ducati m q1; ob \<leftarrow> virt2ducati m q2;
          ia \<leftarrow> virt2ducati m q3; oa \<leftarrow> virt2ducati m q4;
          Some (fill_VIDDEC3_process (pid (tproc t)) c ib ob ia oa d) }) (tproc t) = Some (r', s)" "t' = t\<lparr>tproc := s\<rparr>"
    by (auto simp: stub_def VIDDEC3_process_def split: Option.bind_splits prod.splits)
  show ?thesis unfolding e(2)
    by (rule exchange_held [OF e(1) assms(2)]) (auto simp: handler_def dest: process_clients)
qed

text \<open>A codec is recorded for the process when its creation is reported with a handle.\<close>

lemma create_held:
  assumes "stub (VIDDEC3_create R e name q) t = Some (r, t')" "held T p cl t" "ret_value r = Some c"
  shows "held T p (if c \<noteq> 0 then dce_register_codec cl p c else cl) t'"
proof -
  from assms(1) obtain s r' where e: "exchange R F_VIDDEC3_create (csize VIDDEC3_create_args)
       (\<lambda>m d. do { p \<leftarrow> virt2ducati m q;
          Some (fill_VIDDEC3_create (pid (tproc t)) e name p d) }) (tproc t) = Some (r', s)" "t' = t\<lparr>tproc := s\<rparr>"
    and r: "r = (case r' of None \<Rightarrow> Indeterminate
       | Some d \<Rightarrow> Value (getf VIDDEC3_create_args [''out'', ''codec''] d))"
    by (auto simp: stub_def VIDDEC3_create_def split: Option.bind_splits prod.splits)
  have p: "pid (tproc t) = p" using assms(2) by (simp add: held_def attached_def)
  show ?thesis unfolding e(2)
  proof (rule exchange_held [OF e(1) assms(2)])
    fix j d v d' sv sv'
    assume "r' = Some d'" "length j = csize VIDDEC3_create_args" "clients sv = cl" "handler A F_VIDDEC3_create d sv = Some (v, d', sv')"
      "do { p \<leftarrow> virt2ducati (tmem t) q; Some (fill_VIDDEC3_create (pid (tproc t)) e name p j) } = Some d"
    with r assms(3) p read_VIDDEC3_create(1) [of j] show "clients sv' = (if c \<noteq> 0 then dce_register_codec cl p c else cl)"
      by (auto simp: handler_def Let_def split: Option.bind_splits dest!: create_clients)
  qed (use r assms(3) in auto)
qed

lemma open_held:
  assumes "stub (Engine_open R name) t = Some ((e, ec), t')"
    and "use_count (tproc t) = 0" "fst (peer T (pw (tproc t))) = Some cl"
  shows "held T p (if e \<noteq> 0 then dce_register_engine cl p e else cl) t'"
proof -
  let ?s = "init R (tproc t)"
  have "server_at T (pw (tproc t)) \<noteq> None" using assms(3) by (auto simp: peer_def)
  note i = init_attached [OF assms(2) this]
  then have h: "held T p cl (t\<lparr>tproc := ?s\<rparr>)" using assms(3) unmoved_server [OF i(2)] by (simp add: held_def peer_def)
  from assms(1) obtain s r where x: "exchange R F_Engine_open (csize Engine_open_args)
       (\<lambda>m d. Some (fill_Engine_open (pid ?s) name d)) (tproc (t\<lparr>tproc := ?s\<rparr>)) = Some (r, s)" "t' = t\<lparr>tproc := s\<rparr>"
    and e: "e = (case r of None \<Rightarrow> 0 | Some d \<Rightarrow> getf Engine_open_args [''out'', ''engine''] d)"
    by (auto simp: stub_def Engine_open_def Let_def split: Option.bind_splits prod.splits option.splits)
  have "held T p (if e \<noteq> 0 then dce_register_engine cl p e else cl) (t\<lparr>tproc := ?s, tproc := s\<rparr>)"
  proof (rule exchange_held [OF x(1) h])
    fix j d v d' sv sv'
    assume "r = Some d'" "length j = csize Engine_open_args" "clients sv = cl" "handler A F_Engine_open d sv = Some (v, d', sv')"
      "Some (fill_Engine_open (pid ?s) name j) = Some d"
    with e i(1) read_Engine_open [of j] show "clients sv' = (if e \<noteq> 0 then dce_register_engine cl p e else cl)"
      by (auto simp: handler_def Let_def attached_def dest!: open_clients)
  qed (use e in auto)
  with x(2) show ?thesis by simp
qed

text \<open>Deleting and closing take effect when their messages get through.\<close>

lemma delete_held:
  assumes "stub_void (VIDDEC3_delete R c) t = Some t'" "held T p cl t"
  shows "held T p (dce_unregister_codec cl p c) t' \<or>
     \<not> delivery A T p R {F_Engine_close, F_VIDDEC3_delete} \<and> held T p cl t'"
proof -
  have a: "attached T p (tproc t)" "pid (tproc t) = p" using assms(2) by (simp_all add: held_def attached_def)
  from assms(1) obtain s r where e: "exchange R F_VIDDEC3_delete (csize VIDDEC3_delete_args)
       (\<lambda>m d. Some (fill_VIDDEC3_delete (pid (tproc t)) c d)) (tproc t) = Some (r, s)" "t' = t\<lparr>tproc := s\<rparr>"
    by (auto simp: stub_void_def VIDDEC3_delete_def split: Option.bind_splits prod.splits)
  have "held T p (dce_unregister_codec cl p c) t'" if "r \<noteq> None"
    unfolding e(2) by (rule exchange_held [OF e(1) assms(2)])
      (use that a(2) in \<open>auto simp: handler_def rpc_VIDDEC3_delete_fill delete_step_def\<close>)
  moreover have "held T p cl t'" if "r = None"
    unfolding e(2) by (rule exchange_held [OF e(1) assms(2)]) (use that in auto)
  moreover have "held T p (dce_unregister_codec cl p c) t'" if "delivery A T p R {F_Engine_close, F_VIDDEC3_delete}" "r = None"
    using delivery.exchange_answered [OF that(1) e(1) a(1)] that(2) exchange_carried [OF e(1) a(1)]
    by (auto simp: held_def e(2) args_of_def peer_def)
  ultimately show ?thesis by blast
qed

lemma close_table:
  assumes "stub_void (Engine_close R e) t = Some t'" "held T p cl t" "server_at T (pw (tproc t')) = Some sv'"
  shows "clients sv' = dce_unregister_engine cl p e \<or>
     \<not> delivery A T p R {F_Engine_close, F_VIDDEC3_delete} \<and> clients sv' = cl"
proof -
  have a: "attached T p (tproc t)" "pid (tproc t) = p" using assms(2) by (simp_all add: held_def attached_def)
  from assms(1) obtain s r where e: "exchange R F_Engine_close (csize Engine_close_args)
       (\<lambda>m d. Some (fill_Engine_close (pid (tproc t)) e d)) (tproc t) = Some (r, s)" "t' = t\<lparr>tproc := deinit R s\<rparr>"
    by (auto simp: stub_void_def Engine_close_def split: Option.bind_splits prod.splits)
  have sv: "server_at T (pw s) = Some sv'"
    using assms(3) e(2) exchange_carried [OF e(1) a(1)] unmoved_server [OF deinit_unmoved(1), of s] by simp
  have t: "clients sv' = cl'" if "held T p cl' (t\<lparr>tproc := s\<rparr>)" for cl'
    using that sv by (auto simp: held_def peer_def)
  have "clients sv' = dce_unregister_engine cl p e" if "r \<noteq> None"
    by (rule t, rule exchange_held [OF e(1) assms(2)])
      (use that a(2) in \<open>auto simp: handler_def rpc_Engine_close_fill close_step_def\<close>)
  moreover have "clients sv' = cl" if "r = None"
    by (rule t, rule exchange_held [OF e(1) assms(2)]) (use that in auto)
  moreover have "r \<noteq> None" if "delivery A T p R {F_Engine_close, F_VIDDEC3_delete}"
    using delivery.exchange_answered [OF that e(1) a(1)] sv by (simp add: args_of_def)
  ultimately show ?thesis by blast
qed

subsection \<open>The stages of \<open>main\<close>\<close>

lemma configure_held:
  assumes "configure B R g c t = Some (st, t')" "held T p cl t" "apart T B"
  shows "held T p cl t' \<and> engine_of st = p_engine g \<and> (\<forall>g' c'. st = Ready g' c' \<longrightarrow> c' = c)"
proof -
  from assms(1) obtain q1 t1 t2 q2 t3 t4 r t5 where
    1: "talloc B IVIDDEC3_DynamicParams t = Some (q1, t1)" "fill_dynParams q1 t1 = Some t2"
      "talloc B IVIDDEC3_Status t2 = Some (q2, t3)"
      "assign_members IVIDDEC3_Status q2 [([''size''], of_nat (csize IVIDDEC3_Status))] t3 = Some t4"
    and 2: "stub (VIDDEC3_control R c (word_of_int (XDM_CmdId_val XDM_SETPARAMS)) q1 q2) t4 = Some (r, t5)"
    and 3: "(do { err \<leftarrow> ret_value r;
     (if err \<noteq> 0 then Some (Out (g\<lparr>p_dynParams := q1, p_status := q2\<rparr>), t5)
      else do {
        (r, t) \<leftarrow> stub (VIDDEC3_control R c (word_of_int (XDM_CmdId_val XDM_GETBUFINFO)) q1 q2) t5;
        err \<leftarrow> ret_value r;
        Some (if err \<noteq> 0 then Out (g\<lparr>p_dynParams := q1, p_status := q2\<rparr>)
          else Ready (g\<lparr>p_dynParams := q1, p_status := q2\<rparr>) c, t) }) }) = Some (st, t')"
    unfolding configure_def by (auto simp: Let_def simp del: assign_members.simps split: Option.bind_splits prod.splits)
  have "held T p cl t4"
    using assms(2) talloc_conn [OF 1(1) assms(3)] fill_dynParams_conn [OF 1(2)]
      talloc_conn [OF 1(3) assms(3)] assign_members_conn [OF 1(4)] by (simp add: held_frame)
  then have "held T p cl t5" by (rule control_held [OF 2])
  with 3 show ?thesis
    by (auto split: Option.bind_splits if_splits prod.splits dest: control_held)
qed

lemma setup_codec_held:
  assumes "setup_codec B R t = Some (st, t')" "apart T B"
    and "use_count (tproc t) = 0" "fst (peer T (pw (tproc t))) = Some cl"
  shows "\<exists>cl'. held T p cl' t' \<and> after_setup p cl st cl'"
proof -
  obtain e ec t1 where o: "stub (Engine_open R (chars ''ivahd_vidsvr'')) t = Some ((e, ec), t1)"
    using assms(1) unfolding setup_codec_def by (cases "stub (Engine_open R (chars ''ivahd_vidsvr'')) t") auto
  have rest: "(if e = 0 then Some (Out (no_ptrs\<lparr>p_engine := e\<rparr>), t1)
      else do {
        (params, t) \<leftarrow> talloc B IVIDDEC3_Params t1;
        t \<leftarrow> fill_params params t;
        (r, t) \<leftarrow> stub (VIDDEC3_create R e (chars ''ivahd_h264dec'') params) t;
        codec \<leftarrow> ret_value r;
        (if codec = 0 then Some (Out (no_ptrs\<lparr>p_engine := e, p_params := params\<rparr>), t)
         else configure B R (no_ptrs\<lparr>p_engine := e, p_params := params\<rparr>) codec t) }) = Some (st, t')"
    using assms(1) o unfolding setup_codec_def Let_def by simp
  show ?thesis
  proof (cases "e = 0")
    case True
    with rest open_held [OF o assms(3,4)] show ?thesis by (auto simp: after_setup_def)
  next
    case False
    let ?cl = "dce_register_engine cl p e"
    have h1: "held T p ?cl t1" using open_held [OF o assms(3,4)] False by simp
    from rest False obtain q t2 t3 r t4 c where
      1: "talloc B IVIDDEC3_Params t1 = Some (q, t2)" "fill_params q t2 = Some t3"
      and 2: "stub (VIDDEC3_create R e (chars ''ivahd_h264dec'') q) t3 = Some (r, t4)" "ret_value r = Some c"
      and 3: "(if c = 0 then Some (Out (no_ptrs\<lparr>p_engine := e, p_params := q\<rparr>), t4)
         else configure B R (no_ptrs\<lparr>p_engine := e, p_params := q\<rparr>) c t4) = Some (st, t')"
      by (auto split: Option.bind_splits prod.splits)
    have "held T p ?cl t3"
      using h1 talloc_conn [OF 1(1) assms(2)] fill_params_conn [OF 1(2)] by (simp add: held_frame)
    from create_held [OF 2(1) this 2(2)]
    have h4: "held T p (if c \<noteq> 0 then dce_register_codec ?cl p c else ?cl) t4" .
    show ?thesis
    proof (cases "c = 0")
      case True
      with 3 h4 False show ?thesis by (auto simp: after_setup_def)
    next
      case c: False
      with 3 have "configure B R (no_ptrs\<lparr>p_engine := e, p_params := q\<rparr>) c t4 = Some (st, t')" by simp
      from configure_held [OF this _ assms(2)] h4 c
      have "held T p (dce_register_codec ?cl p c) t'" "engine_of st = e" "\<forall>g' c'. st = Ready g' c' \<longrightarrow> c' = c"
        by simp_all
      with False c show ?thesis unfolding after_setup_def Let_def by metis
    qed
  qed
qed

lemma setup_buffers_held:
  assumes "setup_buffers B stride g c t = Some (st, t')" "held T p cl t" "apart T B"
  shows "held T p cl t' \<and> engine_of st = p_engine g \<and> (\<forall>g' c'. st = Ready g' c' \<longrightarrow> c' = c)"
proof -
  have "conn T t' = conn T t \<and> engine_of st = p_engine g \<and> (\<forall>g' c'. st = Ready g' c' \<longrightarrow> c' = c)"
    using assms(1,3)
    by (auto simp: setup_buffers_def Let_def simp del: assign_members.simps
        split: Option.bind_splits if_splits prod.splits
        dest!: talloc_conn [OF _ assms(3)] set_desc_conn assign_members_conn tiler_alloc_conn [OF _ assms(3)]
          output_allocate_conn [OF _ assms(3)])
  with assms(2) show ?thesis by (auto intro: held_frame)
qed

lemma decode_step_held:
  assumes "decode_step B R a stride g c n k t = Some (pr, t')" "held T p cl t" "apart T B"
  shows "held T p cl t'"
proof -
  let ?proc = "stub (VIDDEC3_process R c (p_inBufs g) (p_outBufs g) (p_inArgs g) (p_outArgs g))"
  obtain b t1 where 1: "output_get t = Some (b, t1)"
    using assms(1) unfolding decode_step_def by (cases "output_get t") auto
  have rest: "(if b = 0 then Some (Shutdown, t1)
      else do {
        (n, t) \<leftarrow> prepare B g (a_in a) n b t1;
        let (us, t) = mark B None t;
        (r, t) \<leftarrow> ?proc t;
        let (_, t) = mark B (Some us) t;
        err \<leftarrow> ret_value r;
        (if err \<noteq> 0 then do {
           _ \<leftarrow> load_t (member_at IVIDDEC3_OutArgs [''extendedError''] (p_outArgs g)) t;
           Some (Shutdown, t) }
         else do {
           (k, t) \<leftarrow> collect B g (a_out a) stride k t;
           Some (Go n k, t) }) }) = Some (pr, t')"
    using assms(1) 1 by (simp add: decode_step_def)
  have h1: "held T p cl t1" using assms(2) output_get_conn [OF 1] by (rule held_frame)
  show ?thesis
  proof (cases "b = 0")
    case True
    with rest h1 show ?thesis by simp
  next
    case False
    with rest obtain n' t2 r t3 err where
      2: "prepare B g (a_in a) n b t1 = Some (n', t2)" "?proc (snd (mark B None t2)) = Some (r, t3)"
        "ret_value r = Some err"
      by (auto simp: case_prod_beta Let_def bind_eq_Some_conv)
    have 3: "(if err \<noteq> 0 then do {
           _ \<leftarrow> load_t (member_at IVIDDEC3_OutArgs [''extendedError''] (p_outArgs g))
             (snd (mark B (Some (fst (mark B None t2))) t3));
           Some (Shutdown, snd (mark B (Some (fst (mark B None t2))) t3)) }
         else do {
           (k, t) \<leftarrow> collect B g (a_out a) stride k (snd (mark B (Some (fst (mark B None t2))) t3));
           Some (Go n' k, t) }) = Some (pr, t')"
      using rest False 2 by (simp add: case_prod_beta Let_def cong del: if_weak_cong split: if_splits)
    have "held T p cl (snd (mark B None t2))"
      using h1 prepare_conn [OF 2(1) assms(3)] mark_conn [OF assms(3)] by (simp add: held_frame)
    from process_held [OF 2(2) this] have "held T p cl (snd (mark B (Some (fst (mark B None t2))) t3))"
      using mark_conn [OF assms(3)] by (simp add: held_frame)
    with 3 show ?thesis
      by (auto split: Option.bind_splits if_splits prod.splits dest!: collect_conn [OF _ assms(3)] intro: held_frame)
  qed
qed

lemma decode_loop_held:
  assumes "decode_loop B R a stride g c n k t = Some t'" "held T p cl t" "apart T B"
  shows "held T p cl t'"
proof -
  have "\<forall>cl. R' = R \<longrightarrow> apart T B \<longrightarrow> held T p cl t \<longrightarrow> held T p cl t'"
    if "decode_loop B R' a stride g c n k t = Some t'" for R'
  proof (rule decode_loop.raw_induct [OF _ that])
    fix f :: "'v test_api \<Rightarrow> 'v rcm_api \<Rightarrow> args \<Rightarrow> u32 \<Rightarrow> ptrs \<Rightarrow> u32 \<Rightarrow> u32 \<Rightarrow> u32 \<Rightarrow> 'v test \<Rightarrow> 'v test option"
      and B R' a stride g c n k t t'
    assume IH: "\<And>B R' a stride g c n k t t'. f B R' a stride g c n k t = Some t' \<Longrightarrow>
        \<forall>cl. R' = R \<longrightarrow> apart T B \<longrightarrow> held T p cl t \<longrightarrow> held T p cl t'"
      and body: "(do {
       x \<leftarrow> load_t (member_at XDM2_BufDesc [''numBufs''] (p_inBufs g)) t;
       y \<leftarrow> (if x \<noteq> 0 then load_t (member_at XDM2_BufDesc [''numBufs''] (p_outBufs g)) t else Some 0);
       (if x \<noteq> 0 \<and> y \<noteq> 0 then do {
          (pr, t) \<leftarrow> decode_step B R' a stride g c n k t;
          (case pr of
             Shutdown \<Rightarrow> Some t
           | Go ic oc \<Rightarrow> f B R' a stride g c ic oc t) }
        else Some t) }) = Some t'"
    show "\<forall>cl. R' = R \<longrightarrow> apart T B \<longrightarrow> held T p cl t \<longrightarrow> held T p cl t'"
    proof (intro allI impI)
      fix cl
      assume R: "R' = R" and ap: "apart T B" and h: "held T p cl t"
      show "held T p cl t'"
        using body h unfolding R
        by (auto split: Option.bind_splits if_splits prod.splits progress.splits
            dest: decode_step_held [OF _ _ ap] IH [rule_format, OF _ refl ap])
    qed
  qed
  with assms show ?thesis by blast
qed

lemma out_label_conn:
  assumes "out_label B R g t = Some (v, t')" "apart T B"
  shows "\<exists>t1. (if p_engine g \<noteq> 0 then stub_void (Engine_close R (p_engine g)) t else Some t) = Some t1 \<and>
     conn T t' = conn T t1"
proof -
  let ?qs = "[p_params g, p_dynParams g, p_status g, p_inBufs g, p_outBufs g, p_inArgs g, p_outArgs g]"
  from assms(1) obtain t1 where
    1: "(if p_engine g \<noteq> 0 then stub_void (Engine_close R (p_engine g)) t else Some t) = Some t1"
    and 2: "output_free B (let t = fold (tfree B) ?qs t1
      in if p_input g \<noteq> 0 then set_world (tm_free B (p_input g) (tworld t)) t else t) = Some t'"
    unfolding out_label_def Let_def by (auto split: Option.bind_splits simp del: fold_simps)
  have "conn T t' = conn T t1"
    using output_free_conn [OF 2 assms(2)] by (simp add: Let_def apart_calls [OF assms(2)] tfree_conn [OF assms(2)] split: if_splits)
  with 1 show ?thesis by blast
qed

lemma out_label_table:
  assumes "out_label B R g t = Some (v, t')" "held T p cl t" "apart T B" "server_at T (pw (tproc t')) = Some sv'"
  shows "if p_engine g \<noteq> 0 then clients sv' = dce_unregister_engine cl p (p_engine g) \<or>
       \<not> delivery A T p R {F_Engine_close, F_VIDDEC3_delete} \<and> clients sv' = cl
     else clients sv' = cl"
proof -
  obtain t1 where 1: "(if p_engine g \<noteq> 0 then stub_void (Engine_close R (p_engine g)) t else Some t) = Some t1"
    "conn T t' = conn T t1"
    using out_label_conn [OF assms(1,3)] by blast
  then have "map_option clients (server_at T (pw (tproc t1))) = Some (clients sv')"
    using assms(4) 1(2) by (simp add: conn_def peer_def)
  then obtain sv1 where sv1: "server_at T (pw (tproc t1)) = Some sv1" "clients sv1 = clients sv'" by auto
  show ?thesis
    using 1(1) close_table [OF _ assms(2) sv1(1)] sv1 assms(2) by (auto simp: held_def peer_def split: if_splits)
qed

end

lemma set_dims_tproc: "set_dims a t = Some (stride, t') \<Longrightarrow> tproc t' = tproc t"
  by (auto simp: set_dims_def Let_def split: if_splits)

subsection \<open>Every run\<close>

text \<open>What the table is after the possible endings.\<close>

lemma endings:
  assumes "p \<noteq> 0" "e \<noteq> 0"
  defines "cl \<equiv> dce_register_engine init_clients p e"
  shows "registry_of cl = [p \<mapsto> ({#e#}, {#})]"
    and "registry_of (dce_unregister_engine cl p e) = Map.empty"
    and "c \<noteq> 0 \<Longrightarrow> registry_of (dce_register_codec cl p c) = [p \<mapsto> ({#e#}, {#c#})]"
    and "c \<noteq> 0 \<Longrightarrow> registry_of (dce_unregister_engine (dce_register_codec cl p c) p e) = [p \<mapsto> ({#}, {#c#})]"
    and "c \<noteq> 0 \<Longrightarrow> registry_of (dce_unregister_codec (dce_register_codec cl p c) p c) = [p \<mapsto> ({#e#}, {#})]"
    and "c \<noteq> 0 \<Longrightarrow> registry_of (dce_unregister_engine (dce_unregister_codec
          (dce_register_codec cl p c) p c) p e) = Map.empty"
  using history_refines_from [OF init_clients_inv, of "[Register_Engine p e]"]
    history_refines_from [OF init_clients_inv, of "[Register_Engine p e, Unregister_Engine p e]"]
    history_refines_from [OF init_clients_inv, of "[Register_Engine p e, Register_Codec p c]"]
    history_refines_from [OF init_clients_inv,
      of "[Register_Engine p e, Register_Codec p c, Unregister_Engine p e]"]
    history_refines_from [OF init_clients_inv,
      of "[Register_Engine p e, Register_Codec p c, Unregister_Codec p c]"]
    history_refines_from [OF init_clients_inv,
      of "[Register_Engine p e, Register_Codec p c, Unregister_Codec p c, Unregister_Engine p e]"] assms
  by (simp_all add: spec_register_engine_def spec_register_codec_def spec_unregister_engine_def
      spec_unregister_codec_def)

text \<open>At most one engine and one codec, and nothing for another process.\<close>

definition at_most_one_each :: "u32 \<Rightarrow> registry \<Rightarrow> bool" where
  "at_most_one_each p reg \<longleftrightarrow> (\<exists>E C. size E \<le> 1 \<and> size C \<le> 1 \<and>
     reg = (if E = {#} \<and> C = {#} then Map.empty else [p \<mapsto> (E, C)]))"

lemma at_most_one_each_intros:
  "at_most_one_each p Map.empty" "at_most_one_each p [p \<mapsto> ({#e#}, {#})]"
  "at_most_one_each p [p \<mapsto> ({#}, {#c#})]" "at_most_one_each p [p \<mapsto> ({#e#}, {#c#})]"
  unfolding at_most_one_each_def
     apply (rule exI [of _ "{#}"], rule exI [of _ "{#}"], simp)
    apply (rule exI [of _ "{#e#}"], rule exI [of _ "{#}"], simp)
   apply (rule exI [of _ "{#}"], rule exI [of _ "{#c#}"], simp)
  apply (rule exI [of _ "{#e#}"], rule exI [of _ "{#c#}"], simp)
  done

text \<open>A run that gets to the decoding loop.\<close>

definition reaches_loop :: "'v test_api \<Rightarrow> 'v rcm_api \<Rightarrow> cstr list \<Rightarrow> 'v test \<Rightarrow> bool" where
  "reaches_loop B R argv t \<longleftrightarrow> (\<exists>a stride t0 g c t1 g' c' t2. parse_args argv = Some a \<and>
     set_dims a t = Some (stride, t0) \<and> setup_codec B R t0 = Some (Ready g c, t1) \<and>
     setup_buffers B stride g c t1 = Some (Ready g' c', t2))"

context carrier begin

lemma main_result:
  assumes "test_main B R argv t = Some (r, t')" "use_count (tproc t) = 0" "p \<noteq> 0" "apart T B"
    and "server_at T (pw (tproc t)) = Some sv" "clients sv = init_clients" "server_at T (pw (tproc t')) = Some sv'"
  defines "reg \<equiv> registry_of (clients sv')"
  shows "at_most_one_each p reg \<and>
     (delivery A T p R {F_Engine_close, F_VIDDEC3_delete} \<longrightarrow>
        (reg = Map.empty \<or> (\<exists>c. c \<noteq> 0 \<and> reg = [p \<mapsto> ({#}, {#c#})])) \<and>
        (reaches_loop B R argv t \<longrightarrow> reg = Map.empty))"
proof (cases "parse_args argv")
  case None
  with assms have "sv' = sv" by (simp add: test_main_def)
  with assms None show ?thesis by (simp add: reaches_loop_def at_most_one_each_intros)
next
  case (Some a)
  from assms(1) Some obtain stride t0 st t1 where
    d: "set_dims a t = Some (stride, t0)" and s: "setup_codec B R t0 = Some (st, t1)"
    unfolding test_main_def by (auto split: Option.bind_splits prod.splits)
  have t0: "use_count (tproc t0) = 0" "fst (peer T (pw (tproc t0))) = Some init_clients"
    using set_dims_tproc [OF d] assms(2,5,6) by (simp_all add: peer_def)
  obtain cl where h: "held T p cl t1" and af: "after_setup p init_clients st cl"
    using setup_codec_held [OF s assms(4) t0] by blast
  note out = out_label_table [OF _ _ assms(4,7)]
  note ends = endings [OF assms(3)] at_most_one_each_intros
  show ?thesis
  proof (cases st)
    case (Out g)
    with assms(1) Some d s have "out_label B R g t1 = Some (r, t')" by (simp add: test_main_def)
    note o = out [OF this h]
    have "\<not> reaches_loop B R argv t" using Some d s Out by (simp add: reaches_loop_def)
    then show ?thesis
      using af ends o Out
      by (auto simp: reg_def after_setup_def Let_def split: if_splits)
  next
    case (Ready g c)
    with af have c: "p_engine g \<noteq> 0" "c \<noteq> 0"
      "cl = dce_register_codec (dce_register_engine init_clients p (p_engine g)) p c"
      by (auto simp: after_setup_def Let_def split: if_splits)
    from assms(1) Some d s Ready obtain st2 t2 where b: "setup_buffers B stride g c t1 = Some (st2, t2)"
      by (auto simp: test_main_def split: Option.bind_splits prod.splits)
    note h2 = setup_buffers_held [OF b h assms(4)]
    show ?thesis
    proof (cases st2)
      case (Out g')
      with assms(1) Some d s b Ready have "out_label B R g' t2 = Some (r, t')" by (simp add: test_main_def)
      note o = out [OF this conjunct1 [OF h2]]
      have "\<not> reaches_loop B R argv t" using Some d s Ready b Out by (simp add: reaches_loop_def)
      then show ?thesis using ends c o h2 Out by (auto simp: reg_def)
    next
      case (Ready g' c')
      with h2 have g': "p_engine g' = p_engine g" "c' = c" "held T p cl t2" by auto
      from assms(1) Some d s b \<open>st = Ready g c\<close> Ready obtain t3 t4 where
        l: "decode_loop B R a stride g' c' 0 0 t2 = Some t3" and
        v: "stub_void (VIDDEC3_delete R c') t3 = Some t4" and o: "out_label B R g' t4 = Some (r, t')"
        by (auto simp: test_main_def split: Option.bind_splits prod.splits)
      have h3: "held T p cl t3" by (rule decode_loop_held [OF l g'(3) assms(4)])
      from delete_held [OF v h3] show ?thesis
      proof
        assume "held T p (dce_unregister_codec cl p c') t4"
        from out [OF o this] show ?thesis using ends c g'(1,2) by (auto simp: reg_def)
      next
        assume "\<not> delivery A T p R {F_Engine_close, F_VIDDEC3_delete} \<and> held T p cl t4"
        with out [OF o, of cl] show ?thesis using ends c g'(1,2) by (auto simp: reg_def)
      qed
    qed
  qed
qed

end

end
