(* ===== verification/Test_Run.thy ===== *)
theory Test_Run
  imports Test_Complete
begin



subsection \<open>Setup\<close>



subsection \<open>The buffers\<close>















end
