(* ===== verification/Test_Loop.thy ===== *)
theory Test_Loop
  imports Test_Session
begin

text \<open>
  The decoding loop of \<^verbatim>\<open>test.c\<close> as a whole: with a codec that keeps its contract and an input of
  finitely many frames, the loop returns, and every output buffer is free or with the codec.
\<close>

subsection \<open>Memory\<close>

text \<open>Two words in memory that do not overlap.\<close>

definition disjoint4 :: "u32 \<Rightarrow> u32 \<Rightarrow> bool" where
  "disjoint4 a b \<longleftrightarrow> 4 \<le> unat (a - b) \<and> 4 \<le> unat (b - a)"

lemma load32_blit_disjoint:
  assumes "disjoint4 a b"
  shows "load32 (mem_blit b (bytes_of v) m) a = load32 m a"
proof (rule load32_cong)
  fix i :: nat
  assume i: "i < 4"
  have "unat (- of_nat (unat (a - b)) :: u32) = 2 ^ 32 - unat (a - b)"
    using assms unsigned_less [of "a - b"] by (intro unat_neg_of_nat) (auto simp: disjoint4_def)
  then have "unat (b - a) = 2 ^ 32 - unat (a - b)" by simp
  then have "unat (a - b) \<le> 2 ^ 32 - 4" using assms unfolding disjoint4_def by linarith
  with i have "unat (a - b) + i < 2 ^ 32" by simp
  then have "unat (a - b + of_nat i) = unat (a - b) + i"
    using i by (simp add: unat_word_ariths unsigned_of_nat take_bit_nat_eq_self)
  moreover have "a - b + of_nat i = a + of_nat i - b" by simp
  ultimately have "4 \<le> unat (a + of_nat i - b)" using assms by (simp add: disjoint4_def)
  then show "mem_blit b (bytes_of v) m (a + of_nat i) = m (a + of_nat i)"
    by (simp add: mem_blit_outside)
qed

lemma full_blit: "full m \<Longrightarrow> full (mem_blit a bs m)"
  by (auto simp: full_def mem_blit_def dom_def)

lemma full_assign32: "full (tmem t) \<Longrightarrow> assign32 a v t = Some (set_mem (mem_blit a (bytes_of v) (tmem t)) t)"
  by (simp add: assign32_def store32_mapped full_mapped)

text \<open>The members that a turn of the loop assigns lie in different blocks.\<close>

abbreviation numBufs_at :: "ptrs \<Rightarrow> u32" where
  "numBufs_at g \<equiv> member_at XDM2_BufDesc [''numBufs''] (p_inBufs g)"

abbreviation inputID_at :: "ptrs \<Rightarrow> u32" where
  "inputID_at g \<equiv> member_at IVIDDEC3_InArgs [''inputID''] (p_inArgs g)"

abbreviation plane_at :: "ptrs \<Rightarrow> nat \<Rightarrow> u32" where
  "plane_at g i \<equiv> member_at XDM2_SingleBufDesc [''buf''] (desc i (p_outBufs g))"

definition members_apart :: "ptrs \<Rightarrow> bool" where
  "members_apart g \<longleftrightarrow> disjoint4 (numBufs_at g) (inputID_at g) \<and>
     (\<forall>i<2. disjoint4 (numBufs_at g) (plane_at g i) \<and> disjoint4 (inputID_at g) (plane_at g i))"

lemma prepare_total:
  assumes "read_input A pat cnt (p_input g) t = Some (n, t1)" "full (tmem t1)" "cells t1 b = Some c" "members_apart g"
  shows "\<exists>m. prepare A g pat cnt b t = Some (if n \<noteq> 0 then cnt + 1 else cnt, set_mem m t1) \<and> full m \<and>
     load32 m (inputID_at g) = Some b \<and> (n = 0 \<longrightarrow> load32 m (numBufs_at g) = Some 0)"
proof -
  have sep: "disjoint4 (numBufs_at g) (inputID_at g)" "disjoint4 (numBufs_at g) (plane_at g 0)"
    "disjoint4 (numBufs_at g) (plane_at g (Suc 0))" "disjoint4 (inputID_at g) (plane_at g 0)"
    "disjoint4 (inputID_at g) (plane_at g (Suc 0))"
    using assms(4) by (simp_all add: members_apart_def)
  define tail where "tail m = mem_blit (plane_at g (Suc 0)) (bytes_of (ob_uv c)) (mem_blit (plane_at g 0) (bytes_of (ob_y c))
      (mem_blit (inputID_at g) (bytes_of b) m))" for m
  have tail: "full (tail m)" if "full m" for m using that by (simp add: tail_def full_blit)
  have id: "load32 (tail m) (inputID_at g) = Some b" for m
    by (simp add: tail_def load32_blit_disjoint [OF sep(4)] load32_blit_disjoint [OF sep(5)] load32_mem_blit_same)
  show ?thesis
  proof (cases "n = 0")
    case True
    let ?m = "mem_blit (inputID_at g) (bytes_of 0) (mem_blit (numBufs_at g) (bytes_of 0) (tmem t1))"
    have "prepare A g pat cnt b t = Some (cnt, set_mem (tail ?m) t1)"
      using assms(1-3) True
      by (simp add: prepare_def set_numBufs_def set_buf_def full_assign32 full_blit tail_def del: desc_offsets)
    moreover have "load32 (tail ?m) (numBufs_at g) = Some 0"
      by (simp add: tail_def load32_blit_disjoint [OF sep(1)] load32_blit_disjoint [OF sep(2)]
          load32_blit_disjoint [OF sep(3)] load32_mem_blit_same)
    ultimately show ?thesis using True id tail assms(2) by (auto simp: full_blit)
  next
    case False
    let ?m = "mem_blit (member_at IVIDDEC3_InArgs [''numBytes''] (p_inArgs g)) (bytes_of n)
      (mem_blit (member_at XDM2_SingleBufDesc [''bufSize'', ''bytes''] (desc 0 (p_inBufs g))) (bytes_of n) (tmem t1))"
    have "prepare A g pat cnt b t = Some (cnt + 1, set_mem (tail ?m) t1)"
      using assms(1-3) False
      by (simp add: prepare_def set_bytes_def set_buf_def full_assign32 full_blit tail_def del: desc_offsets)
    then show ?thesis using False id tail assms(2) by (auto simp: full_blit)
  qed
qed

subsection \<open>The codec and the operating system\<close>

text \<open>The array \<open>outputID\<close>: the frames to be shown, up to a zero.\<close>

fun shown_ids :: "mem \<Rightarrow> u32 \<Rightarrow> nat \<Rightarrow> u32 list \<Rightarrow> bool" where
  "shown_ids m oa i [] \<longleftrightarrow> load32 m (array_at IVIDDEC3_OutArgs [''outputID''] i oa) = Some 0"
| "shown_ids m oa i (b # bs) \<longleftrightarrow> b \<noteq> 0 \<and>
     load32 m (array_at IVIDDEC3_OutArgs [''outputID''] i oa) = Some b \<and> shown_ids m oa (Suc i) bs"

text \<open>
  The contract of the call of the codec, as \<^verbatim>\<open>ividdec3.h\<close> describes the buffer management:
  \<open>holds\<close> gives the buffers the codec holds. It is given the buffer named in \<open>inputID\<close>; without error
  it lists in \<open>freeBufID\<close> the buffers it gives back, each once, and in \<open>outputID\<close> buffers it holds or
  just gives back, and holds the rest. It leaves the descriptor of the input alone. What a codec holds after
  an error is left open. In the memory of the model everything is mapped.
\<close>

definition codec_ok :: "'w rcm_api \<Rightarrow> ptrs \<Rightarrow> u32 \<Rightarrow> ('w \<Rightarrow> u32 set) \<Rightarrow> bool" where
  "codec_ok R g c holds \<longleftrightarrow> (\<forall>t b. full (tmem t) \<longrightarrow> b \<noteq> 0 \<longrightarrow> load32 (tmem t) (inputID_at g) = Some b \<longrightarrow>
     (\<exists>v t'. stub (VIDDEC3_process R c (p_inBufs g) (p_outBufs g) (p_inArgs g) (p_outArgs g)) t = Some (Value v, t') \<and>
        full (tmem t') \<and> load32 (tmem t') (numBufs_at g) = load32 (tmem t) (numBufs_at g) \<and>
        (v = 0 \<longrightarrow> (\<exists>ids outs. freed_ids (tmem t') (p_outArgs g) 0 ids \<and> distinct ids \<and>
           shown_ids (tmem t') (p_outArgs g) 0 outs \<and> set ids \<union> set outs \<subseteq> insert b (holds (pw (tproc t))) \<and>
           holds (pw (tproc t')) = insert b (holds (pw (tproc t))) - set ids))))"

text \<open>
  The operating system: the patterns are formats, files that open are regular files or sinks, the
  frame of number \<open>N\<close> does not exist, and no call concerns the codec.
\<close>

definition files_ok :: "'w test_api \<Rightarrow> args \<Rightarrow> nat \<Rightarrow> bool" where
  "files_ok B a N \<longleftrightarrow>
     (\<forall>k. format_str (a_in a) [k] \<noteq> None \<and> format_str (a_out a) [k] \<noteq> None) \<and>
     (\<forall>path w fd w'. t_open B path False w = (fd, w') \<longrightarrow> \<not> cneg fd \<longrightarrow>
        (\<exists>rest. regular_file B fd rest \<and> length (rest w') < 2 ^ 31)) \<and>
     (\<forall>path w fd w'. t_open B path True w = (fd, w') \<longrightarrow> \<not> cneg fd \<longrightarrow> (\<exists>out. sink B fd out)) \<and>
     (\<forall>l s w. format_str (a_in a) [int N] = Some s \<longrightarrow> length (a_in a) + 8 \<le> l \<longrightarrow>
        cneg (fst (t_open B (take l s) False w)))"

lemma files_ok_formats:
  assumes "files_ok B a N"
  shows "\<exists>s. format_str (a_in a) [k] = Some s" "\<exists>s. format_str (a_out a) [k] = Some s"
  using assms unfolding files_ok_def by blast+

lemma files_ok_open:
  assumes "files_ok B a N"
  shows "t_open B path False w = (fd, w') \<Longrightarrow> \<not> cneg fd \<Longrightarrow> \<exists>rest. regular_file B fd rest \<and> length (rest w') < 2 ^ 31"
    and "t_open B path True w = (fd, w') \<Longrightarrow> \<not> cneg fd \<Longrightarrow> \<exists>out. sink B fd out"
    and "format_str (a_in a) [int N] = Some s \<Longrightarrow> length (a_in a) + 8 \<le> l \<Longrightarrow> cneg (fst (t_open B (take l s) False w))"
  using assms unfolding files_ok_def by blast+

definition os_keeps :: "'w test_api \<Rightarrow> ('w \<Rightarrow> 'v) \<Rightarrow> bool" where
  "os_keeps B holds \<longleftrightarrow>
     (\<forall>p r w. holds (snd (t_open B p r w)) = holds w) \<and>
     (\<forall>fd p n wm. holds (fst (snd (t_read B fd p n wm))) = holds (fst wm)) \<and>
     (\<forall>fd p n wm. holds (snd (t_write B fd p n wm)) = holds (fst wm)) \<and>
     (\<forall>fd w. holds (t_close B fd w) = holds w) \<and> (\<forall>w. holds (snd (t_usec B w)) = holds w)"

lemma os_keepsD:
  assumes "os_keeps B h"
  shows "h (snd (t_open B p r w)) = h w" "h (fst (snd (t_read B fd q n wm))) = h (fst wm)"
    "h (snd (t_write B fd q n wm)) = h (fst wm)" "h (t_close B fd w) = h w" "h (snd (t_usec B w)) = h w"
  using assms unfolding os_keeps_def by blast+

text \<open>What the helpers of the loop keep: pool, dimensions, buffers of the codec.\<close>

definition quiet_step :: "('w \<Rightarrow> 'v) \<Rightarrow> 'w test \<Rightarrow> 'w test \<Rightarrow> bool" where
  "quiet_step holds t t' \<longleftrightarrow> same_pool t t' \<and> width t' = width t \<and> height t' = height t \<and>
     holds (pw (tproc t')) = holds (pw (tproc t))"

lemma quiet_step_trans: "quiet_step h t t' \<Longrightarrow> quiet_step h t' t'' \<Longrightarrow> quiet_step h t t''"
  by (simp add: quiet_step_def same_pool_def)

lemma quiet_set_world:
  "quiet_step h t t1 \<Longrightarrow> h w = h (pw (tproc t)) \<Longrightarrow> quiet_step h t (set_world (w, m) t1)"
  by (simp add: quiet_step_def same_pool_def set_world_def)

lemma set_world_proc [simp]: "tmem (set_world (w, m) t) = m" "pw (tproc (set_world (w, m) t)) = w"
  by (simp_all add: set_world_def)

lemma mark_quiet: "os_keeps B h \<Longrightarrow> quiet_step h t (snd (mark B prev t)) \<and> tmem (snd (mark B prev t)) = tmem t"
  using os_keepsD(5) [of B h "pw (tproc t)"]
  by (auto simp: mark_def quiet_step_def same_pool_def set_world_def split: prod.splits)

lemma get_path_parts:
  assumes "get_path pat k t = Some (path, t1)"
  shows "quiet_step h t t1" "tproc t1 = tproc t"
    "\<exists>s l. format_str pat [sint k] = Some s \<and> length pat + 8 \<le> l \<and> path = take l s"
proof -
  show "quiet_step h t t1" "tproc t1 = tproc t"
    using assms by (auto simp: get_path_def Let_def quiet_step_def same_pool_def split: if_splits)
  let ?u = "if path_len t < length pat + 10 then t\<lparr>path_len := length pat + 10\<rparr> else t"
  obtain s where "format_str pat [sint k] = Some s" "path = take (path_len ?u - 2) s"
    using assms unfolding get_path_def Let_def by blast
  moreover have "length pat + 8 \<le> path_len ?u - 2" by auto
  ultimately show "\<exists>s l. format_str pat [sint k] = Some s \<and> length pat + 8 \<le> l \<and> path = take l s"
    by blast
qed

lemma get_path_some: "format_str pat [sint k] = Some s \<Longrightarrow> \<exists>path t1. get_path pat k t = Some (path, t1)"
  by (simp add: get_path_def Let_def)

lemma read_input_total:
  assumes "files_ok B a N" "os_keeps B h" "full (tmem t)" "width t * height t \<noteq> 0"
  shows "\<exists>n t'. read_input B (a_in a) cnt q t = Some (n, t') \<and> full (tmem t') \<and> quiet_step h t t' \<and>
     (sint cnt = int N \<longrightarrow> n = 0)"
proof -
  obtain path t1 where p: "get_path (a_in a) cnt t = Some (path, t1)"
    using files_ok_formats(1) [OF assms(1)] get_path_some by blast
  note q = get_path_parts [OF p]
  obtain fd w where o: "t_open B path False (pw (tproc t)) = (fd, w)" by fastforce
  have w: "h w = h (pw (tproc t))" using os_keepsD(1) [OF assms(2), of path _ "pw (tproc t)"] o by (metis snd_conv)
  show ?thesis
  proof (cases "cneg fd")
    case True
    then have "read_input B (a_in a) cnt q t = Some (0, set_world (w, tmem t1) t1)"
      using p o q(2) by (simp add: read_input_def)
    moreover have "quiet_step h t (set_world (w, tmem t1) t1)" by (rule quiet_set_world [OF q(1) w])
    ultimately show ?thesis using assms(3) q(2)
      by (intro exI [of _ 0] exI [of _ "set_world (w, tmem t1) t1"]) simp
  next
    case False
    then obtain rest where r: "regular_file B fd rest" "length (rest w) < 2 ^ 31"
      using files_ok_open(1) [OF assms(1) o] by blast
    obtain w' where l: "read_loop B fd (width t * height t) q 0 (w, tmem t) =
        Some (0 + of_nat (length (rest w)), w', mem_blit q (rest w) (tmem t))"
      using read_loop_whole_file [OF r(1) assms(4) r(2) full_mapped [OF assms(3)]] by blast
    have "h w' = h w" using read_loop_ghost [OF l, of h, OF os_keepsD(2) [OF assms(2)]] by simp
    have wh: "width t1 = width t" "height t1 = height t" using q(1) [of h] by (simp_all add: quiet_step_def)
    have "sint cnt \<noteq> int N"
    proof
      assume "sint cnt = int N"
      with q(3) files_ok_open(3) [OF assms(1)] have "cneg (fst (t_open B path False (pw (tproc t))))" by auto
      with o False show False by simp
    qed
    moreover have "read_input B (a_in a) cnt q t = Some (of_nat (length (rest w)),
        set_world (t_close B fd w', mem_blit q (rest w) (tmem t)) (set_world (w, tmem t1) t1))"
      using p o False q(2) l wh by (simp add: read_input_def tworld_def set_world_def)
    moreover have "h (t_close B fd w') = h (pw (tproc t))"
      using os_keepsD(4) [OF assms(2)] \<open>h w' = h w\<close> w by simp
    then have "quiet_step h t (set_world (t_close B fd w', mem_blit q (rest w) (tmem t)) (set_world (w, tmem t1) t1))"
      by (intro quiet_set_world q(1) w)
    ultimately show ?thesis using full_blit [OF assms(3)]
      by (intro exI [of _ "of_nat (length (rest w))"]
          exI [of _ "set_world (t_close B fd w', mem_blit q (rest w) (tmem t)) (set_world (w, tmem t1) t1)"]) simp
  qed
qed

lemma write_output_total:
  assumes "files_ok B a N" "os_keeps B h" "full (tmem t)" "0 \<le> sint (width t)"
  shows "\<exists>n t'. write_output B (a_out a) cnt y uv stride t = Some (n, t') \<and> quiet_step h t t' \<and> tmem t' = tmem t"
proof -
  obtain path t1 where p: "get_path (a_out a) cnt t = Some (path, t1)"
    using files_ok_formats(2) [OF assms(1)] get_path_some by blast
  note q = get_path_parts [OF p]
  obtain fd w where o: "t_open B path True (pw (tproc t)) = (fd, w)" by fastforce
  have w: "h w = h (pw (tproc t))" using os_keepsD(1) [OF assms(2), of path _ "pw (tproc t)"] o by (metis snd_conv)
  show ?thesis
  proof (cases "cneg fd")
    case True
    then have "write_output B (a_out a) cnt y uv stride t = Some (0, set_world (w, tmem t1) t1)"
      using p o q(2) by (simp add: write_output_def)
    moreover have "quiet_step h t (set_world (w, tmem t1) t1)" by (rule quiet_set_world [OF q(1) w])
    ultimately show ?thesis using q(2)
      by (intro exI [of _ 0] exI [of _ "set_world (w, tmem t1) t1"]) simp
  next
    case False
    then obtain out where s: "sink B fd out" using files_ok_open(2) [OF assms(1) o] by blast
    have len: "unat (width t) < 2 ^ 31" by (rule nonneg_unat_less [OF assms(4)])
    have pm: "plane_mapped (tmem t) z l st n" for z l st n
      using full_mapped [OF assms(3)] by (simp add: plane_mapped_def)
    let ?n1 = "nat (sint (height t))" and ?n2 = "nat (sint (cdiv (height t) 2))"
    obtain k1 w1 where 1: "write_lines B fd ?n1 y (width t) stride 0 (w, tmem t) = Some (k1, w1)"
      using write_lines_plane [OF s pm len] by blast
    obtain k2 w2 where 2: "write_lines B fd ?n2 uv (width t) stride k1 (w1, tmem t) = Some (k2, w2)"
      using write_lines_plane [OF s pm len] by blast
    have "h w1 = h w" "h w2 = h w1"
      using write_lines_ghost [OF 1, of h, OF os_keepsD(3) [OF assms(2)]]
        write_lines_ghost [OF 2, of h, OF os_keepsD(3) [OF assms(2)]] by simp_all
    then have "h (t_close B fd w2) = h (pw (tproc t))" using os_keepsD(4) [OF assms(2)] w by simp
    then have "quiet_step h t (set_world (t_close B fd w2, tmem t) (set_world (w, tmem t1) t1))"
      by (intro quiet_set_world q(1) w)
    moreover have wh: "width t1 = width t" "height t1 = height t" using q(1) [of h] by (simp_all add: quiet_step_def)
    then have "write_output B (a_out a) cnt y uv stride t =
        Some (k2, set_world (t_close B fd w2, tmem t) (set_world (w, tmem t1) t1))"
      using p o False q(2) 1 2 by (simp add: write_output_def tworld_def set_world_def)
    ultimately show ?thesis
      by (intro exI [of _ k2] exI [of _ "set_world (t_close B fd w2, tmem t) (set_world (w, tmem t1) t1)"]) simp
  qed
qed

lemma output_loop_total:
  assumes "files_ok B a N" "os_keeps B h" "shown_ids (tmem t) oa i outs" "full (tmem t)" "0 \<le> sint (width t)"
    and "set outs \<subseteq> dom (cells t)"
  shows "\<exists>k' t'. output_loop B (a_out a) stride oa i k t = Some (k', t') \<and> quiet_step h t t' \<and> tmem t' = tmem t"
  using assms(3-6)
proof (induction outs arbitrary: i k t)
  case Nil
  then show ?case by (subst output_loop.simps) (auto simp: load_t_def quiet_step_def)
next
  case (Cons b bs)
  obtain x y where xy: "load_t (top_left ''x'' oa) t = Some x" "load_t (top_left ''y'' oa) t = Some y"
    using full_load32 [OF Cons.prems(2)] unfolding load_t_def by blast
  obtain c where c: "cells t b = Some c" using Cons.prems(4) by auto
  let ?yoff = "y * stride + x" and ?uvoff = "cdiv (y * stride) 2 + x"
  obtain n t1 where w: "write_output B (a_out a) k (ob_buf c + ?yoff) (ob_buf c + ?uvoff + stride * padded_height t) stride t = Some (n, t1)"
    "quiet_step h t t1" "tmem t1 = tmem t"
    using write_output_total [OF assms(1,2) Cons.prems(2,3)] by blast
  have "width t1 = width t" "cells t1 = cells t" using w(2) by (simp_all add: quiet_step_def same_pool_def)
  then obtain k' t' where l: "output_loop B (a_out a) stride oa (Suc i) (k + 1) t1 = Some (k', t')" "quiet_step h t1 t'"
    "tmem t' = tmem t1"
    using Cons.IH [of t1 "Suc i" "k + 1"] Cons.prems w(3) by auto
  have "output_loop B (a_out a) stride oa i k t = Some (k', t')"
    using Cons.prems(1) xy c w(1) l(1) by (subst output_loop.simps) (simp add: load_t_def)
  with quiet_step_trans [OF w(2) l(2)] l(3) w(3) show ?case by auto
qed

subsection \<open>One turn\<close>

lemma same_pool_sym_split: "same_pool t t' \<Longrightarrow> pool.split_up t xs H \<Longrightarrow> pool.split_up t' xs H \<and> pool_cells t' = pool_cells t"
  using same_pool_split [of t t' xs H] by (simp add: same_pool_def pool_cells_def)

text \<open>What a turn finds and leaves; \<open>H\<close> are the buffers out of the pool.\<close>

definition ready :: "'w test \<Rightarrow> u32 list \<Rightarrow> u32 set \<Rightarrow> bool" where
  "ready t xs H \<longleftrightarrow> full (tmem t) \<and> pool.split_up t xs H \<and> width t * height t \<noteq> 0 \<and> 0 \<le> sint (width t)"

lemma ready_frame:
  "ready t xs H \<Longrightarrow> same_pool t t' \<Longrightarrow> full (tmem t') \<Longrightarrow> width t' = width t \<Longrightarrow> height t' = height t \<Longrightarrow>
     ready t' xs H \<and> pool_cells t' = pool_cells t"
  using same_pool_sym_split by (auto simp: ready_def)

lemma stub_dims: "stub f t = Some (r, t') \<Longrightarrow> width t' = width t \<and> height t' = height t"
  by (auto simp: stub_def split: Option.bind_splits)

text \<open>
  The last thing that happened was a call of the codec that reported an error; \<open>H\<close> are the buffers
  the codec held before it, and the one it was given.
\<close>

definition stopped_by_error :: "'w test_api \<Rightarrow> 'w rcm_api \<Rightarrow> ptrs \<Rightarrow> u32 \<Rightarrow> ('w \<Rightarrow> u32 set) \<Rightarrow> u32 set \<Rightarrow> 'w test \<Rightarrow> bool" where
  "stopped_by_error B R g c holds H t' \<longleftrightarrow> (\<exists>u v u' b us.
     stub (VIDDEC3_process R c (p_inBufs g) (p_outBufs g) (p_inArgs g) (p_outArgs g)) u = Some (Value v, u') \<and> v \<noteq> 0 \<and>
     load32 (tmem u) (inputID_at g) = Some b \<and> H = insert b (holds (pw (tproc u))) \<and> t' = snd (mark B us u'))"

lemma decode_turn:
  assumes "codec_ok R g c h" "files_ok B a N" "os_keeps B h" "members_apart g" "ready t xs (h (pw (tproc t)))"
  shows "\<exists>pr t' xs' H. decode_step B R a stride g c n k t = Some (pr, t') \<and> ready t' xs' H \<and>
     set xs' \<union> H = set xs \<union> h (pw (tproc t)) \<and> pool_cells t' = pool_cells t \<and>
     (H = h (pw (tproc t')) \<or> pr = Shutdown \<and> stopped_by_error B R g c h H t') \<and>
     (\<forall>n' k'. pr = Go n' k' \<longrightarrow>
        n' = n + 1 \<and> sint n \<noteq> int N \<or> load32 (tmem t') (numBufs_at g) = Some 0)"
proof (cases xs)
  case Nil
  then have "output_get t = Some (0, t)"
    using assms(5) get_empty [of t] by (simp add: ready_def pool.split_up_def)
  then have "decode_step B R a stride g c n k t = Some (Shutdown, t)" by (simp add: decode_step_def)
  with assms(5) show ?thesis by blast
next
  case (Cons b ys)
  let ?H = "h (pw (tproc t))"
  have sp: "pool.split_up t (b # ys) ?H" using assms(5) Cons by (simp add: ready_def)
  obtain t1 where 1: "output_get t = Some (b, t1)" "pool.split_up t1 ys (insert b ?H)" "b \<notin> ?H" "pool_cells t1 = pool_cells t"
    using pool.take_splits [OF sp] by blast
  have b: "b \<noteq> 0" "b \<in> dom (cells t)"
    using pool.avail_live [of t "b # ys"] sp by (auto simp: pool.split_up_def pool_cells_def)
  have f1: "tproc t1 = tproc t" "cells t1 = cells t" "width t1 = width t" "height t1 = height t"
    using 1(1) b(1) by (auto simp: output_get_def Let_def split: Option.bind_splits if_splits)
  have r1: "ready t1 ys (insert b ?H)" using assms(5) 1(2) f1 by (simp add: ready_def)
  obtain m t2 where 2: "read_input B (a_in a) n (p_input g) t1 = Some (m, t2)" "full (tmem t2)" "quiet_step h t1 t2"
    "sint n = int N \<longrightarrow> m = 0"
    using read_input_total [OF assms(2,3), of t1 n "p_input g"] r1 unfolding ready_def by blast
  obtain cell where "cells t2 b = Some cell" using b(2) f1(2) 2(3) by (auto simp: quiet_step_def same_pool_def)
  from prepare_total [OF 2(1,2) this assms(4)] obtain mm where
    3: "prepare B g (a_in a) n b t1 = Some (if m \<noteq> 0 then n + 1 else n, set_mem mm t2)" "full mm"
      "load32 mm (inputID_at g) = Some b" "m = 0 \<longrightarrow> load32 mm (numBufs_at g) = Some 0" by blast
  let ?n = "if m \<noteq> 0 then n + 1 else n" and ?t3 = "snd (mark B None (set_mem mm t2))"
  have q3: "quiet_step h t1 ?t3" "tmem ?t3 = mm"
    using mark_quiet [OF assms(3), of "set_mem mm t2" None] 2(3) by (auto simp: quiet_step_def same_pool_def set_mem_def)
  obtain v t4 where 4: "stub (VIDDEC3_process R c (p_inBufs g) (p_outBufs g) (p_inArgs g) (p_outArgs g)) ?t3 = Some (Value v, t4)"
    "full (tmem t4)" "load32 (tmem t4) (numBufs_at g) = load32 mm (numBufs_at g)"
    and good: "v = 0 \<longrightarrow> (\<exists>ids outs. freed_ids (tmem t4) (p_outArgs g) 0 ids \<and> distinct ids \<and>
           shown_ids (tmem t4) (p_outArgs g) 0 outs \<and> set ids \<union> set outs \<subseteq> insert b (h (pw (tproc ?t3))) \<and>
           h (pw (tproc t4)) = insert b (h (pw (tproc ?t3))) - set ids)"
    using assms(1) [unfolded codec_ok_def, rule_format, of ?t3 b] 3(2,3) b(1) q3(2) by auto
  have H: "h (pw (tproc ?t3)) = ?H" using q3(1) f1(1) by (simp add: quiet_step_def)
  let ?t5 = "snd (mark B (Some (fst (mark B None (set_mem mm t2)))) t4)"
  have q5: "quiet_step h t4 ?t5" "tmem ?t5 = tmem t4" using mark_quiet [OF assms(3)] by blast+
  have s5: "same_pool t1 ?t5" "width ?t5 = width t1" "height ?t5 = height t1" "full (tmem ?t5)"
    using q3(1) q5 stub_pool [OF 4(1)] stub_dims [OF 4(1)] 4(2) by (auto simp: quiet_step_def same_pool_def)
  note r5 = ready_frame [OF r1 s5(1,4,2,3)]
  show ?thesis
  proof (cases "v = 0")
    case False
    obtain x where "load_t (member_at IVIDDEC3_OutArgs [''extendedError''] (p_outArgs g)) ?t5 = Some x"
      using full_load32 [OF s5(4)] unfolding load_t_def by blast
    then have "decode_step B R a stride g c n k t = Some (Shutdown, ?t5)"
      using 1(1) b(1) 3(1) 4(1) False by (simp add: decode_step_def case_prod_beta Let_def)
    moreover have "set ys \<union> insert b ?H = set xs \<union> ?H" using Cons by auto
    moreover have "stopped_by_error B R g c h (insert b ?H) ?t5"
      unfolding stopped_by_error_def using 4(1) False 3(3) q3(2) H
      by (intro exI [of _ ?t3] exI [of _ v] exI [of _ t4] exI [of _ b] exI [of _ "Some (fst (mark B None (set_mem mm t2)))"]) simp
    ultimately show ?thesis using r5 1(4) by blast
  next
    case True
    then obtain ids outs where io: "freed_ids (tmem t4) (p_outArgs g) 0 ids" "distinct ids"
      "shown_ids (tmem t4) (p_outArgs g) 0 outs" "set ids \<union> set outs \<subseteq> insert b ?H"
      "h (pw (tproc t4)) = insert b ?H - set ids"
      using good H by auto
    have "insert b ?H \<subseteq> pool_cells t1" using 1(2) by (simp add: pool.split_up_def)
    then have outs: "set outs \<subseteq> dom (cells ?t5)" using io(4) s5(1) by (auto simp: pool_cells_def same_pool_def)
    have "0 \<le> sint (width ?t5)" using r5 by (simp add: ready_def)
    from output_loop_total [OF assms(2,3) io(3) [folded q5(2)] s5(4) this outs] obtain k' t6 where 6: "output_loop B (a_out a) stride (p_outArgs g) 0 k ?t5 = Some (k', t6)"
      "quiet_step h ?t5 t6" "tmem t6 = tmem ?t5"
      by blast
    have u: "load32 (tmem t4) (member_at IVIDDEC3_OutArgs [''outBufsInUseFlag''] (p_outArgs g)) \<noteq> None"
      using full_load32 [OF 4(2)] by blast
    from io(4) have "set ids \<subseteq> insert b ?H" by blast
    from decode_step_result [OF sp 1(1) 3(1) 4(1) [unfolded True] 6(1) io(1,2) this u] obtain t' where
      t': "decode_step B R a stride g c n k t = Some (Go ?n k', t')" "pool.split_up t' (rev ids @ ys) (insert b ?H - set ids)"
        "pool_cells t' = pool_cells t" "tproc t' = tproc t6" "width t' = width t6" "height t' = height t6" by blast
    have f6: "tmem t6 = tmem t4" "width t6 = width t" "height t6 = height t" "h (pw (tproc t6)) = insert b ?H - set ids"
      using 6(2,3) q5 s5(2,3) f1(3,4) io(5) by (simp_all add: quiet_step_def)
    have "ready t' (rev ids @ ys) (insert b ?H - set ids)"
      using t' f6 4(2) assms(5) by (simp add: ready_def)
    moreover have "set (rev ids @ ys) \<union> (insert b ?H - set ids) = set xs \<union> ?H"
      using Cons \<open>set ids \<subseteq> insert b ?H\<close> by auto
    moreover have "?n = n + 1 \<and> sint n \<noteq> int N \<or> load32 (tmem t') (numBufs_at g) = Some 0"
      using 2(4) 3(4) 4(3) t'(4) f6(1) by (cases "m = 0") auto
    ultimately show ?thesis using t' f6(4)
      by (intro exI [of _ "Go ?n k'"] exI [of _ t'] exI [of _ "rev ids @ ys"] exI [of _ "insert b ?H - set ids"]) auto
  qed
qed

subsection \<open>The loop\<close>

lemma decode_loop_stops:
  "load32 (tmem t) (numBufs_at g) = Some 0 \<Longrightarrow> decode_loop B R a stride g c n k t = Some t"
  by (subst decode_loop.simps) (simp add: load_t_def)

lemma decode_loop_total:
  assumes "codec_ok R g c h" "files_ok B a N" "os_keeps B h" "members_apart g" "N < 2 ^ 31"
    and "ready t xs (h (pw (tproc t)))" "unat n \<le> N"
  shows "\<exists>t' xs' H. decode_loop B R a stride g c n k t = Some t' \<and> ready t' xs' H \<and>
     set xs' \<union> H = set xs \<union> h (pw (tproc t)) \<and> pool_cells t' = pool_cells t \<and>
     (H = h (pw (tproc t')) \<or> stopped_by_error B R g c h H t')"
  using assms(6,7)
proof (induction "N - unat n" arbitrary: n k t xs rule: less_induct)
  case less
  obtain x y where xy: "load_t (numBufs_at g) t = Some x"
    "load_t (member_at XDM2_BufDesc [''numBufs''] (p_outBufs g)) t = Some y"
    using less.prems(1) full_load32 unfolding load_t_def ready_def by blast
  show ?case
  proof (cases "x \<noteq> 0 \<and> y \<noteq> 0")
    case False
    then have "decode_loop B R a stride g c n k t = Some t"
      using xy by (subst decode_loop.simps) auto
    with less.prems(1) show ?thesis by blast
  next
    case True
    obtain pr t1 xs1 H where 1: "decode_step B R a stride g c n k t = Some (pr, t1)" "ready t1 xs1 H"
      "set xs1 \<union> H = set xs \<union> h (pw (tproc t))" "pool_cells t1 = pool_cells t"
      and hd: "H = h (pw (tproc t1)) \<or> pr = Shutdown \<and> stopped_by_error B R g c h H t1"
      and go: "\<forall>n' k'. pr = Go n' k' \<longrightarrow>
        n' = n + 1 \<and> sint n \<noteq> int N \<or> load32 (tmem t1) (numBufs_at g) = Some 0"
      using decode_turn [OF assms(1-4) less.prems(1)] by blast
    show ?thesis
    proof (cases pr)
      case Shutdown
      then have "decode_loop B R a stride g c n k t = Some t1"
        using xy True 1(1) by (subst decode_loop.simps) simp
      with 1 hd show ?thesis by blast
    next
      case (Go n' k')
      then have l: "decode_loop B R a stride g c n k t = decode_loop B R a stride g c n' k' t1"
        using xy True 1(1) by (subst decode_loop.simps) simp
      have H: "H = h (pw (tproc t1))" using hd Go by blast
      show ?thesis
      proof (cases "load32 (tmem t1) (numBufs_at g) = Some 0")
        case True
        from decode_loop_stops [OF this] l 1 H show ?thesis by metis
      next
        case False
        then have n: "n' = n + 1" "sint n \<noteq> int N" using go Go by blast+
        have "unat n < 2 ^ 31" using less.prems(2) assms(5) by simp
        then have "sint n = int (unat n)" by (rule sint_small)
        with n(2) have "unat n \<noteq> N" by metis
        with less.prems(2) have lt: "unat n < N" by simp
        then have "unat (n + 1) = Suc (unat n)" using assms(5) by (simp add: unat_word_ariths)
        with lt n(1) have "N - unat n' < N - unat n" "unat n' \<le> N" by simp_all
        from less.hyps [OF this(1) 1(2) [unfolded H] this(2), of k'] l 1(3,4) H show ?thesis by metis
      qed
    qed
  qed
qed

text \<open>
  C16: with a codec that keeps its contract, files that are regular and an input that ends with some
  frame, the decoding loop returns, whatever the codec answers and shows. When it does, the output buffers
  are the same as before, and each is free (and then once) or with the codec, and not both: what the codec
  gave back is free again. If the loop ended because the codec reported an error, the buffers that
  are not free are those the codec held before that call and the one it was given. All of the memory is
  mapped, so that no access of the loop to its structures and planes can fault.
\<close>

theorem decoding_ends:
  assumes "codec_ok R g c holds" "files_ok B a N" "os_keeps B holds" "members_apart g" "N < 2 ^ 31"
    and "full (tmem t)" "pool.split_up t xs (holds (pw (tproc t)))"
    and "width t * height t \<noteq> 0" "0 \<le> sint (width t)"
  shows "\<exists>t' xs' H. decode_loop B R a stride g c 0 k t = Some t' \<and> pool.split_up t' xs' H \<and>
     set xs' \<union> H = set xs \<union> holds (pw (tproc t)) \<and> pool_cells t' = pool_cells t \<and>
     (H = holds (pw (tproc t')) \<or> stopped_by_error B R g c holds H t')"
proof -
  have "ready t xs (holds (pw (tproc t)))" using assms(6-9) by (simp add: ready_def)
  from decode_loop_total [OF assms(1-5) this, of 0 stride k] show ?thesis unfolding ready_def by auto
qed

subsection \<open>A codec that shows every frame at once\<close>

definition showing_rcm :: "bytes rcm_api" where
  "showing_rcm = \<lparr>rcm_init = id, rcm_create = (\<lambda>n p w. ((0, 1), w)), rcm_symbol = (\<lambda>h f w. ((0, 0), w)),
     rcm_delete = (\<lambda>h w. (0, w)), rcm_exit = id,
     rcm_alloc = (\<lambda>h n w. ((0, Some \<lparr>msg_ptr = 0x100, fxnIdx = 0, msg_data = replicate n 0\<rparr>), w)),
     rcm_exec = (\<lambda>h m (mm, w). ((0, Some (m\<lparr>msg_data := replicate 24 0\<rparr>)),
        (let b = the (load32 mm (inputID_at some_ptrs))
         in mem_blit (array_at IVIDDEC3_OutArgs [''outputID''] 0 0x5000) (bytes_of b)
           (mem_blit (array_at IVIDDEC3_OutArgs [''outputID''] 1 0x5000) (bytes_of 0)
           (mem_blit (array_at IVIDDEC3_OutArgs [''freeBufID''] 0 0x5000) (bytes_of b)
           (mem_blit (array_at IVIDDEC3_OutArgs [''freeBufID''] 1 0x5000) (bytes_of 0) mm)))), w)),
     rcm_free = (\<lambda>h m w. w), ipc_setup = (\<lambda>w. (0, w)), ipc_destroy = (\<lambda>w. (0, w)), getpid = (\<lambda>w. (77, w))\<rparr>"

lemma example_offsets:
  "fld IVIDDEC3_OutArgs [''outputID''] = 12" "fld IVIDDEC3_OutArgs [''freeBufID''] = 344"
  "fld IVIDDEC3_InArgs [''inputID''] = 8" "csize XDM2_SingleBufDesc = 20"
  by code_simp+

text \<open>The frame of number 0 is a file of one byte; no other frame exists.\<close>

definition frame_tapi :: "bytes test_api" where
  "frame_tapi = file_tapi\<lparr>t_open := (\<lambda>p wr w. if wr then (3, w) else if p = [48] then (3, [7]) else (-1, w))\<rparr>"

definition frame_args :: args where
  "frame_args = \<lparr>a_oned = False, a_width = [], a_height = [], a_in = conversion 0, a_out = conversion 0\<rparr>"

definition one_buffer :: "bytes test" where
  "one_buffer = (init_test (init_proc (\<lambda>a. Some 1) []))\<lparr>head := 0x1000, width := 1, height := 1,
     cells := [0x1000 \<mapsto> \<lparr>ob_buf = 1, ob_y = 1, ob_uv = 2, ob_next = 0\<rparr>]\<rparr>"

lemma showing_codec_ok: "codec_ok showing_rcm some_ptrs 1 (\<lambda>w. {})"
  unfolding codec_ok_def
proof (intro allI impI)
  fix t :: "bytes test" and b :: u32
  assume m: "full (tmem t)" and b: "b \<noteq> 0" "load32 (tmem t) (inputID_at some_ptrs) = Some b"
  let ?oa = "0x5000 :: u32"
  let ?out = "\<lambda>i. array_at IVIDDEC3_OutArgs [''outputID''] i ?oa"
  let ?free = "\<lambda>i. array_at IVIDDEC3_OutArgs [''freeBufID''] i ?oa"
  let ?m = "mem_blit (?out 0) (bytes_of b) (mem_blit (?out 1) (bytes_of 0)
    (mem_blit (?free 0) (bytes_of b) (mem_blit (?free 1) (bytes_of 0) (tmem t))))"
  have ptr: "p_outArgs some_ptrs = ?oa" "p_inBufs some_ptrs = 0x2000" "p_outBufs some_ptrs = 0x3000"
    "p_inArgs some_ptrs = 0x4000" by (simp_all add: some_ptrs_def)
  have d: "disjoint4 (?out 1) (?out 0)" "disjoint4 (?free 0) (?out 0)" "disjoint4 (?free 0) (?out 1)"
    "disjoint4 (?free 1) (?out 0)" "disjoint4 (?free 1) (?out 1)" "disjoint4 (?free 1) (?free 0)"
    "disjoint4 0x2000 (?out 0)" "disjoint4 0x2000 (?out 1)" "disjoint4 0x2000 (?free 0)" "disjoint4 0x2000 (?free 1)"
    by (simp_all add: disjoint4_def elem_at_def example_offsets)
  have n: "numBufs_at some_ptrs = 0x2000" by (simp add: member_at_def ptr)
  have l: "load32 ?m (?out 0) = Some b" "load32 ?m (?out 1) = Some 0" "load32 ?m (?free 0) = Some b"
    "load32 ?m (?free 1) = Some 0" "load32 ?m (numBufs_at some_ptrs) = load32 (tmem t) (numBufs_at some_ptrs)"
    by (simp_all only: load32_blit_disjoint [OF d(1)] load32_blit_disjoint [OF d(2)] load32_blit_disjoint [OF d(3)]
        load32_blit_disjoint [OF d(4)] load32_blit_disjoint [OF d(5)] load32_blit_disjoint [OF d(6)]
        load32_blit_disjoint [OF d(7)] load32_blit_disjoint [OF d(8)] load32_blit_disjoint [OF d(9)]
        load32_blit_disjoint [OF d(10)] load32_mem_blit_same n)
  show "\<exists>v t'. stub (VIDDEC3_process showing_rcm 1 (p_inBufs some_ptrs) (p_outBufs some_ptrs)
      (p_inArgs some_ptrs) (p_outArgs some_ptrs)) t = Some (Value v, t') \<and> full (tmem t') \<and>
      load32 (tmem t') (numBufs_at some_ptrs) = load32 (tmem t) (numBufs_at some_ptrs) \<and>
      (v = 0 \<longrightarrow> (\<exists>ids outs. freed_ids (tmem t') (p_outArgs some_ptrs) 0 ids \<and> distinct ids \<and>
         shown_ids (tmem t') (p_outArgs some_ptrs) 0 outs \<and> set ids \<union> set outs \<subseteq> insert b {} \<and>
         {} = insert b {} - set ids))"
  proof -
    have "tmem t = (\<lambda>x. Some (the (tmem t x)))" using m by (auto simp: full_def fun_eq_iff domIff set_eq_iff)
    then obtain f where f: "tmem t = (\<lambda>x. Some (f x))" by (rule that)
    then have w: "load32 (tmem t) a = Some (word_of (f a) (f (a + 1)) (f (a + 2)) (f (a + 3)))" for a
      by (simp add: load32_def)
    have v: "getf VIDDEC3_process_args [''out'', ''ret''] (replicate 24 0) = 0" by code_simp
    have i: "the (load32 (tmem t) (inputID_at some_ptrs)) = b" using b(2) by simp
    obtain t' where t': "stub (VIDDEC3_process showing_rcm 1 0x2000 0x3000 0x4000 0x5000) t = Some (Value 0, t')" "tmem t' = ?m"
      using i by (simp add: w v stub_def VIDDEC3_process_def exchange_def showing_rcm_def virt2ducati_def out_free_def Let_def)
    have "freed_ids ?m ?oa 0 [b]" "shown_ids ?m ?oa 0 [b]"
      using l b(1) by simp_all
    with t' l(5) full_blit m ptr show ?thesis
      by (intro exI [of _ 0] exI [of _ t'] conjI impI exI [of _ "[b]"]) simp_all
  qed
qed

lemma frame_files_ok: "files_ok frame_tapi frame_args 1"
  unfolding files_ok_def
proof (intro conjI allI impI)
  show "format_str (a_in frame_args) [k] \<noteq> None" "format_str (a_out frame_args) [k] \<noteq> None" for k
    by (simp_all add: frame_args_def conversion_def read_spec_def)
next
  fix path w fd w'
  assume o: "t_open frame_tapi path False w = (fd, w')" "\<not> cneg fd"
  have "fd = 3 \<and> w' = [7]" using o by (auto simp: frame_tapi_def cneg_def split: if_splits)
  moreover have r: "t_read frame_tapi = t_read file_tapi" by (simp add: frame_tapi_def)
  have "regular_file frame_tapi 3 id"
    using file_tapi_regular r by (simp only: regular_file_def)
  ultimately show "\<exists>rest. regular_file frame_tapi fd rest \<and> length (rest w') < 2 ^ 31"
    by (intro exI [of _ id]) simp
next
  fix path w fd w'
  assume "t_open frame_tapi path True w = (fd, w')"
  then have "fd = 3" by (simp add: frame_tapi_def)
  moreover have "sink frame_tapi 3 id" using file_tapi_sink by (simp add: sink_def frame_tapi_def)
  ultimately show "\<exists>out. sink frame_tapi fd out" by blast
next
  fix l s w
  assume s: "format_str (a_in frame_args) [int 1] = Some s" "length (a_in frame_args) + 8 \<le> l"
  have "format_str (a_in frame_args) [int 1] = Some (padded 0 1)"
    using format_conversion [of 0 "[]" 1] by (simp add: frame_args_def)
  moreover have "padded 0 1 = [49]" by (simp add: padded_def decimal.simps)
  ultimately have "s = [49]" using s(1) by simp
  with s(2) have "take l s = [49]" by (cases l) simp_all
  then show "cneg (fst (t_open frame_tapi (take l s) False w))" by (simp add: frame_tapi_def cneg_def)
qed

lemma frame_os_keeps: "os_keeps frame_tapi (\<lambda>w. {} :: u32 set)"
  by (simp add: os_keeps_def)

lemma showing_never_fails:
  assumes "stub (VIDDEC3_process showing_rcm c q1 q2 q3 q4) u = Some (Value v, u')"
  shows "v = 0"
proof -
  have "getf VIDDEC3_process_args [''out'', ''ret''] (replicate 24 0) = 0" by code_simp
  with assms show ?thesis
    by (auto simp: stub_def VIDDEC3_process_def exchange_def showing_rcm_def Let_def split: Option.bind_splits)
qed

lemma decoding_ends_witness:
  "\<exists>t' xs. decode_loop frame_tapi showing_rcm frame_args 4096 some_ptrs 1 0 0 one_buffer = Some t' \<and>
     free_list t' xs \<and> set xs = {0x1000}"
proof -
  have sp: "pool.split_up one_buffer [0x1000] {}"
    by (auto simp: pool.split_up_def one_buffer_def free_list_def pool_cells_def)
  have se: "members_apart some_ptrs"
    by (auto simp: members_apart_def some_ptrs_def disjoint4_def member_at_def elem_at_def example_offsets less_2_cases_iff)
  have st: "full (tmem one_buffer)" "width one_buffer * height one_buffer \<noteq> 0" "0 \<le> sint (width one_buffer)"
    by (simp_all add: one_buffer_def init_test_def init_proc_def full_def dom_def)
  from decoding_ends [OF showing_codec_ok frame_files_ok frame_os_keeps se _ st(1) sp st(2,3), of 4096 0]
  show ?thesis by (auto simp: stopped_by_error_def pool.split_up_def dest: showing_never_fails)
qed

end
