(* ===== verification/Fc_Heap.thy ===== *)
theory Fc_Heap
  imports Mem_Header
begin

text \<open>
  The memory functions that the accelerator's framework components are given
  (\<^verbatim>\<open>baseimage_ivahd_frwkconfig.c\<close>): \<open>allocFxn\<close> serves a table of memory requests from a heap,
  with a header in front of each block that records what has to be freed, and \<open>freeFxn\<close> frees
  them. \<open>Memory_alloc\<close> and \<open>Memory_free\<close> on \<open>heap1\<close> are the fields of a record over the memory
  and a world \<open>'w\<close>; \<open>Memory_getStats\<close> only feeds the trace and is left out. The table is passed by
  reference: its new contents are part of the result. \<open>None\<close> is an access to unmapped memory or
  outside the table.
\<close>

record memrec =
  mr_size :: u32
  mr_alignment :: u32
  mr_space :: u32
  mr_attrs :: u32
  mr_base :: u32

record 'w heap =
  memory_alloc :: "u32 \<Rightarrow> u32 \<Rightarrow> mem \<times> 'w \<Rightarrow> u32 \<times> mem \<times> 'w"
  memory_free :: "u32 \<Rightarrow> u32 \<Rightarrow> mem \<times> 'w \<Rightarrow> mem \<times> 'w"

definition FcMemHeader :: ctype where
  "FcMemHeader = CStruct [(''size'', CI32), (''ptr'', CPtr)]"

lemma FcMemHeader_layout [layout]: "csize FcMemHeader = 8"
  by (simp add: FcMemHeader_def align_up_def)

definition fc_P2H :: "u32 \<Rightarrow> u32" where
  "fc_P2H p = p - of_nat (csize FcMemHeader)"

lemma fc_P2H_eq: "fc_P2H p = p - 8"
  by (simp add: fc_P2H_def layout)

definition MEMUTILS_getPhysicalAddr :: "(u32 \<Rightarrow> u32) \<Rightarrow> u32 \<Rightarrow> u32" where
  "MEMUTILS_getPhysicalAddr VirtToPhys vaddr = VirtToPhys vaddr"

text \<open>The loop of \<open>freeFxn\<close> from index \<open>i\<close> with \<open>k\<close> rounds to go.\<close>

fun free_loop :: "'w heap \<Rightarrow> memrec list \<Rightarrow> nat \<Rightarrow> nat \<Rightarrow> mem \<times> 'w \<Rightarrow> (mem \<times> 'w) option" where
  "free_loop H tab i 0 w = Some w"
| "free_loop H tab i (Suc k) w =
     (if i < length tab then
        let base = mr_base (tab ! i)
        in if base \<noteq> 0 then do {
             sz \<leftarrow> load32 (fst w) (fc_P2H base);
             ptr \<leftarrow> load32 (fst w) (fc_P2H base + 4);
             free_loop H tab (Suc i) k (memory_free H ptr sz w) }
           else free_loop H tab (Suc i) k w
      else None)"

definition freeFxn :: "'w heap \<Rightarrow> memrec list \<Rightarrow> nat \<Rightarrow> mem \<times> 'w \<Rightarrow> (mem \<times> 'w) option" where
  "freeFxn H tab n w = free_loop H tab 0 n w"

definition pad_of :: "u32 \<Rightarrow> u32" where
  "pad_of alignment =
     (if of_nat (csize FcMemHeader) < alignment then alignment else of_nat (csize FcMemHeader))"

fun alloc_loop ::
  "'w heap \<Rightarrow> memrec list \<Rightarrow> nat \<Rightarrow> nat \<Rightarrow> mem \<times> 'w \<Rightarrow> (bool \<times> memrec list \<times> mem \<times> 'w) option" where
  "alloc_loop H tab i 0 w = Some (True, tab, w)"
| "alloc_loop H tab i (Suc k) w =
     (if i < length tab then
        let r = tab ! i;
            pad = pad_of (mr_alignment r);
            sz = mr_size r + pad;
            (blk, m, w) = memory_alloc H sz (mr_alignment r) w
        in if blk = 0 then do {
             w \<leftarrow> freeFxn H tab i (m, w);
             Some (False, tab, w) }
           else
             let base = blk + pad;
                 tab = tab[i := r\<lparr>mr_base := base\<rparr>]
             in do {
               m \<leftarrow> store32 m (fc_P2H base) sz;
               m \<leftarrow> store32 m (fc_P2H base + 4) blk;
               alloc_loop H tab (Suc i) k (m, w) }
      else None)"

definition allocFxn ::
  "'w heap \<Rightarrow> memrec list \<Rightarrow> nat \<Rightarrow> mem \<times> 'w \<Rightarrow> (bool \<times> memrec list \<times> mem \<times> 'w) option" where
  "allocFxn H tab n w = alloc_loop H tab 0 n w"

text \<open>
  Bringing the framework up and down. \<open>RMAN_register\<close> takes the resource and the two memory
  functions above. \<open>IRES_OK\<close> is 0; the value of \<open>IRES_EEXISTS\<close> is a parameter.
\<close>

datatype resource = IRESMAN_HDVICP | IRESMAN_TILEDMEMORY

record 'w framework =
  CERuntime_init :: "'w \<Rightarrow> 'w"
  CERuntime_exit :: "'w \<Rightarrow> 'w"
  RMAN_init :: "'w \<Rightarrow> u32 \<times> 'w"
  RMAN_register :: "resource \<Rightarrow> 'w \<Rightarrow> u32 \<times> 'w"
  IRES_EEXISTS :: u32

definition init_IVAHDFrwk :: "'w framework \<Rightarrow> 'w \<Rightarrow> 'w" where
  "init_IVAHDFrwk F w = (
     let w = CERuntime_init F w;
         (ret, w) = RMAN_init F w
     in if ret \<noteq> 0 then w
        else
          let (ret, w) = RMAN_register F IRESMAN_HDVICP w
          in if ret \<noteq> 0 \<and> ret \<noteq> IRES_EEXISTS F then w
             else
               let (ret, w) = RMAN_register F IRESMAN_TILEDMEMORY w
               in w)"

definition exit_IVAHDFrwk :: "'w framework \<Rightarrow> 'w \<Rightarrow> 'w" where
  "exit_IVAHDFrwk F w = CERuntime_exit F w"

subsection \<open>The contract of the heap\<close>

text \<open>
  Blocks are sets of addresses. The heap keeps a set of live blocks: an allocation returns a
  mapped block below the end of memory that is disjoint from them and changes memory only inside it, or \<open>NULL\<close> and
  changes nothing; a free of a live block removes it and changes memory only inside it.
\<close>

definition block :: "u32 \<Rightarrow> nat \<Rightarrow> u32 set" where
  "block p n = {x. unat (x - p) < n}"

definition heap_ok :: "'w heap \<Rightarrow> ('w \<Rightarrow> (u32 \<times> u32) set) \<Rightarrow> bool" where
  "heap_ok H live \<longleftrightarrow>
     (\<forall>sz al m w p m' w'. memory_alloc H sz al (m, w) = (p, m', w') \<longrightarrow>
        (if p = 0 then live w' = live w \<and> m' = m
         else (p, sz) \<notin> live w \<and> live w' = insert (p, sz) (live w) \<and> mapped m' p (unat sz) \<and>
           unat p + unat sz < 2 ^ 32 \<and> (\<forall>x. x \<notin> block p (unat sz) \<longrightarrow> m' x = m x) \<and>
           (\<forall>q n. (q, n) \<in> live w \<longrightarrow> block p (unat sz) \<inter> block q (unat n) = {}))) \<and>
     (\<forall>p sz m w m' w'. memory_free H p sz (m, w) = (m', w') \<longrightarrow> (p, sz) \<in> live w \<longrightarrow>
        live w' = live w - {(p, sz)} \<and> (\<forall>x. x \<notin> block p (unat sz) \<longrightarrow> m' x = m x))"

lemma heap_alloc:
  assumes "heap_ok H live" "memory_alloc H sz al (m, w) = (p, m', w')"
  shows "p = 0 \<Longrightarrow> live w' = live w \<and> m' = m"
    and "p \<noteq> 0 \<Longrightarrow> (p, sz) \<notin> live w \<and> live w' = insert (p, sz) (live w) \<and> mapped m' p (unat sz) \<and>
           unat p + unat sz < 2 ^ 32"
    and "p \<noteq> 0 \<Longrightarrow> x \<notin> block p (unat sz) \<Longrightarrow> m' x = m x"
    and "p \<noteq> 0 \<Longrightarrow> (q, n) \<in> live w \<Longrightarrow> block p (unat sz) \<inter> block q (unat n) = {}"
proof -
  note a = assms(1) [unfolded heap_ok_def, THEN conjunct1, THEN spec [of _ sz], THEN spec [of _ al],
      THEN spec [of _ m], THEN spec [of _ w], THEN spec [of _ p], THEN spec [of _ m'],
      THEN spec [of _ w'], THEN mp, OF assms(2)]
  show "p = 0 \<Longrightarrow> live w' = live w \<and> m' = m" using a by simp
  show "p \<noteq> 0 \<Longrightarrow> (p, sz) \<notin> live w \<and> live w' = insert (p, sz) (live w) \<and> mapped m' p (unat sz) \<and>
      unat p + unat sz < 2 ^ 32" using a by simp
  show "p \<noteq> 0 \<Longrightarrow> x \<notin> block p (unat sz) \<Longrightarrow> m' x = m x" using a by simp
  show "p \<noteq> 0 \<Longrightarrow> (q, n) \<in> live w \<Longrightarrow> block p (unat sz) \<inter> block q (unat n) = {}"
    using a by simp
qed

lemma heap_free:
  assumes "heap_ok H live" "memory_free H p sz (m, w) = (m', w')" "(p, sz) \<in> live w"
  shows "live w' = live w - {(p, sz)}" and "x \<notin> block p (unat sz) \<Longrightarrow> m' x = m x"
  using assms unfolding heap_ok_def by blast+

end
