(* ===== verification/Fc_Heap_Props.thy ===== *)
theory Fc_Heap_Props
  imports Fc_Heap
begin

text \<open>
  Properties of \<open>allocFxn\<close> and \<open>freeFxn\<close> over a heap that keeps its contract: what is allocated
  is recorded in headers from which exactly it is freed, and a request that fails half way gives
  back what it got.
\<close>

subsection \<open>Blocks\<close>

lemma mem_blit_outside_block:
  assumes "k + length bs \<le> n" "n \<le> 2 ^ 32" "x \<notin> block p n"
  shows "mem_blit (p + of_nat k) bs m x = m x"
proof (cases "unat (x - (p + of_nat k)) < length bs")
  case True
  let ?j = "unat (x - (p + of_nat k))"
  have "x - p = of_nat (k + ?j)" by simp
  then have "unat (x - p) = k + ?j"
    using True assms(1,2) by (simp only: unsigned_of_nat) (simp add: take_bit_nat_eq_self)
  with True assms show ?thesis by (simp add: block_def)
qed (simp add: mem_blit_outside)

text \<open>The header of a record, and the block that it lies in.\<close>

definition holds :: "mem \<Rightarrow> memrec \<Rightarrow> u32 \<times> u32 \<Rightarrow> bool" where
  "holds m r b \<longleftrightarrow> mr_base r \<noteq> 0 \<and>
     load32 m (mr_base r - 8) = Some (snd b) \<and> load32 m (mr_base r - 4) = Some (fst b) \<and>
     (\<forall>i<8. mr_base r - 8 + of_nat i \<in> block (fst b) (unat (snd b)))"

lemma holds_cong:
  assumes "holds m r b" "\<And>x. x \<in> block (fst b) (unat (snd b)) \<Longrightarrow> m' x = m x"
  shows "holds m' r b"
proof -
  have in_block: "mr_base r - 8 + of_nat i \<in> block (fst b) (unat (snd b))" if "i < 8" for i
    using assms(1) that by (simp add: holds_def)
  have "load32 m' (mr_base r - 8) = load32 m (mr_base r - 8)"
    by (rule load32_cong) (auto intro!: assms(2) in_block)
  moreover have "load32 m' (mr_base r - 4) = load32 m (mr_base r - 4)"
  proof (rule load32_cong)
    fix i :: nat
    assume "i < 4"
    then have "mr_base r - 8 + of_nat (4 + i) \<in> block (fst b) (unat (snd b))"
      by (intro in_block) simp
    then show "m' (mr_base r - 4 + of_nat i) = m (mr_base r - 4 + of_nat i)"
      by (intro assms(2)) (simp add: algebra_simps)
  qed
  ultimately show ?thesis using assms(1) by (simp add: holds_def)
qed

definition live_disjoint :: "(u32 \<times> u32) set \<Rightarrow> bool" where
  "live_disjoint L \<longleftrightarrow> (\<forall>a\<in>L. \<forall>b\<in>L. a \<noteq> b \<longrightarrow>
     block (fst a) (unat (snd a)) \<inter> block (fst b) (unat (snd b)) = {})"

lemma live_disjointD:
  "live_disjoint L \<Longrightarrow> a \<in> L \<Longrightarrow> b \<in> L \<Longrightarrow> a \<noteq> b \<Longrightarrow>
     block (fst a) (unat (snd a)) \<inter> block (fst b) (unat (snd b)) = {}"
  by (simp add: live_disjoint_def)

lemma live_disjoint_insert:
  assumes "live_disjoint L"
    and "\<And>b. b \<in> L \<Longrightarrow> block (fst a) (unat (snd a)) \<inter> block (fst b) (unat (snd b)) = {}"
  shows "live_disjoint (insert a L)"
  unfolding live_disjoint_def
proof (intro ballI impI)
  fix b c
  assume "b \<in> insert a L" "c \<in> insert a L" "b \<noteq> c"
  then show "block (fst b) (unat (snd b)) \<inter> block (fst c) (unat (snd c)) = {}"
    using live_disjointD [OF assms(1)] assms(2) [of b] assms(2) [of c] by (metis Int_commute insertE)
qed

subsection \<open>Freeing\<close>

fun free_list :: "'w heap \<Rightarrow> memrec list \<Rightarrow> mem \<times> 'w \<Rightarrow> (mem \<times> 'w) option" where
  "free_list H [] w = Some w"
| "free_list H (r # rs) w =
     (if mr_base r \<noteq> 0 then do {
        sz \<leftarrow> load32 (fst w) (mr_base r - 8);
        ptr \<leftarrow> load32 (fst w) (mr_base r - 4);
        free_list H rs (memory_free H ptr sz w) }
      else free_list H rs w)"

lemma free_loop_list:
  "i + k \<le> length tab \<Longrightarrow> free_loop H tab i k w = free_list H (take k (drop i tab)) w"
proof (induction k arbitrary: i w)
  case 0
  then show ?case by simp
next
  case (Suc k)
  then have "take (Suc k) (drop i tab) = tab ! i # take k (drop (Suc i) tab)"
    by (simp add: take_Suc_conv_app_nth Cons_nth_drop_Suc [symmetric])
  with Suc show ?case by (simp add: fc_P2H_eq Let_def)
qed

lemma free_list_ok:
  assumes "heap_ok H live" "live_disjoint (live w)"
    and "list_all2 (holds m) rs bs" "distinct bs" "set bs \<subseteq> live w"
  shows "\<exists>m' w'. free_list H rs (m, w) = Some (m', w') \<and> live w' = live w - set bs"
  using assms(2-)
proof (induction rs arbitrary: bs m w)
  case Nil
  then show ?case by simp
next
  case (Cons r rs)
  then obtain p sz bs' where bs: "bs = (p, sz) # bs'" and r: "holds m r (p, sz)"
    and rs: "list_all2 (holds m) rs bs'" by (auto simp: list_all2_Cons1)
  obtain m1 w1 where f: "memory_free H p sz (m, w) = (m1, w1)" by (metis surj_pair)
  have live: "(p, sz) \<in> live w" using Cons.prems bs by simp
  note free = heap_free [OF assms(1) f live]
  have "list_all2 (holds m1) rs bs'"
  proof (rule list.rel_mono_strong [OF rs])
    fix r' b
    assume b: "b \<in> set bs'" and "holds m r' b"
    then have "block (fst b) (unat (snd b)) \<inter> block p (unat sz) = {}"
      using live_disjointD [OF Cons.prems(1), of b "(p, sz)"] Cons.prems(3,4) bs live by auto
    then show "holds m1 r' b"
      by (intro holds_cong [OF \<open>holds m r' b\<close>] free(2)) blast
  qed
  moreover have "live_disjoint (live w1)" 
    using Cons.prems(1) unfolding free(1) live_disjoint_def by blast
  moreover have "distinct bs'" "set bs' \<subseteq> live w1"
    using Cons.prems(3,4) unfolding bs free(1) by auto
  ultimately obtain m' w' where "free_list H rs (m1, w1) = Some (m', w')" "live w' = live w1 - set bs'"
    using Cons.IH by blast
  with r f bs free(1) show ?case by (auto simp: holds_def)
qed

subsection \<open>Allocating one record\<close>

lemma unat_pad_of: "unat (pad_of al) = max 8 (unat al)"
  by (auto simp: pad_of_def layout word_less_nat_alt max_def)

text \<open>A request whose size, together with the padding, fits in 32 bits.\<close>

definition request_ok :: "memrec \<Rightarrow> bool" where
  "request_ok r \<longleftrightarrow> unat (mr_size r) + unat (pad_of (mr_alignment r)) < 2 ^ 32"

lemma request_size:
  "request_ok r \<Longrightarrow> unat (mr_size r + pad_of (mr_alignment r)) =
     unat (mr_size r) + unat (pad_of (mr_alignment r))"
  by (simp add: request_ok_def unat_word_ariths)

text \<open>The two stores of a header at offset \<open>k\<close> of a mapped block.\<close>

definition header_mem :: "u32 \<Rightarrow> u32 \<Rightarrow> nat \<Rightarrow> mem \<Rightarrow> mem" where
  "header_mem p sz k m =
     mem_blit (p + of_nat (k + 4)) (bytes_of p) (mem_blit (p + of_nat k) (bytes_of sz) m)"

lemma store_header:
  assumes "mapped m p n" "k + 8 \<le> n" "n \<le> 2 ^ 32"
  shows "store32 m (p + of_nat k) sz = Some (mem_blit (p + of_nat k) (bytes_of sz) m)"
    and "store32 (mem_blit (p + of_nat k) (bytes_of sz) m) (p + of_nat (k + 4)) p =
      Some (header_mem p sz k m)"
  using assms mapped_tail [of m p n k 4] mapped_tail [of m p n "k + 4" 4]
  by (simp_all add: store32_mapped mapped_mem_blit header_mem_def)

lemma header_mem_outside:
  assumes "k + 8 \<le> n" "n \<le> 2 ^ 32" "x \<notin> block p n"
  shows "header_mem p sz k m x = m x"
  using assms mem_blit_outside_block [of "k + 4" "bytes_of p" n x p]
    mem_blit_outside_block [of k "bytes_of sz" n x p] by (simp add: header_mem_def)

lemma header_mem_read:
  assumes "k + 8 \<le> 2 ^ 32"
  shows "load32 (header_mem p sz k m) (p + of_nat k) = Some sz"
    and "load32 (header_mem p sz k m) (p + of_nat (k + 4)) = Some p"
  using assms load32_blit_before [of k "k + 4" "bytes_of p" p]
  by (simp_all add: header_mem_def load32_mem_blit_same)

lemma new_record_holds:
  assumes "request_ok r" "unat p + unat sz < 2 ^ 32" "p \<noteq> 0"
    and sz: "sz = mr_size r + pad_of (mr_alignment r)"
  defines "k \<equiv> unat (pad_of (mr_alignment r)) - 8"
  shows "holds (header_mem p sz k m) (r\<lparr>mr_base := p + pad_of (mr_alignment r)\<rparr>) (p, sz)"
    and "p + pad_of (mr_alignment r) - 8 = p + of_nat k"
    and "p + pad_of (mr_alignment r) - 4 = p + of_nat (k + 4)" and "k + 8 \<le> unat sz"
proof -
  let ?pad = "pad_of (mr_alignment r)"
  have pad: "unat ?pad = k + 8" by (simp add: k_def unat_pad_of)
  have "?pad = of_nat (unat ?pad)" by simp
  then have "?pad = of_nat (k + 8)" by (simp only: pad)
  then show b8: "p + ?pad - 8 = p + of_nat k" and b4: "p + ?pad - 4 = p + of_nat (k + 4)"
    by (simp_all add: algebra_simps)
  show le: "k + 8 \<le> unat sz" using request_size [OF assms(1)] sz pad by simp
  have lt: "k + 8 < 2 ^ 32" using le unsigned_less [of sz, where 'a = nat] by simp
  have "unat (p + ?pad) = unat p + (k + 8)"
    using assms(2) le pad by (simp add: unat_word_ariths)
  then have "p + ?pad \<noteq> 0" by (metis add_eq_0_iff_both_eq_0 unat_0 zero_neq_numeral)
  moreover have "p + of_nat k + of_nat i \<in> block p (unat sz)" if "i < 8" for i :: nat
  proof -
    have "unat (of_nat (k + i) :: u32) = k + i"
      using that lt by (simp only: unsigned_of_nat) (simp add: take_bit_nat_eq_self)
    then show ?thesis using that le by (simp add: block_def algebra_simps)
  qed
  ultimately show "holds (header_mem p sz k m) (r\<lparr>mr_base := p + ?pad\<rparr>) (p, sz)"
    using b8 b4 header_mem_read [of k p sz m] lt by (simp add: holds_def add_ac)
qed

subsection \<open>Allocating a table\<close>

text \<open>The first \<open>i\<close> records of the table are served by the blocks \<open>bs\<close>, on top of the live ones \<open>L\<close>.\<close>

definition served ::
  "('w \<Rightarrow> (u32 \<times> u32) set) \<Rightarrow> (u32 \<times> u32) set \<Rightarrow> memrec list \<Rightarrow> (u32 \<times> u32) list \<Rightarrow> mem \<times> 'w \<Rightarrow> bool"
where
  "served live L rs bs = (\<lambda>(m, w).
     list_all2 (holds m) rs bs \<and> distinct bs \<and> set bs \<inter> L = {} \<and> live w = L \<union> set bs \<and>
     live_disjoint (live w))"

lemma served_free:
  assumes "heap_ok H live" "served live L rs bs (m, w)"
  shows "\<exists>m' w'. free_list H rs (m, w) = Some (m', w') \<and> live w' = L"
proof -
  from assms(2) have "live_disjoint (live w)" "list_all2 (holds m) rs bs" "distinct bs"
    "set bs \<subseteq> live w" "live w - set bs = L" by (auto simp: served_def)
  with free_list_ok [OF assms(1), of w m rs bs] show ?thesis by auto
qed

lemma served_snoc:
  assumes h: "heap_ok H live" and s: "served live L rs bs (m, w)" and r: "request_ok r"
    and a: "memory_alloc H sz (mr_alignment r) (m, w) = (p, m1, w1)" and p: "p \<noteq> 0"
    and sz: "sz = mr_size r + pad_of (mr_alignment r)"
  defines "k \<equiv> unat (pad_of (mr_alignment r)) - 8"
  shows "served live L (rs @ [r\<lparr>mr_base := p + pad_of (mr_alignment r)\<rparr>]) (bs @ [(p, sz)])
     (header_mem p sz k m1, w1)"
proof -
  note al = heap_alloc [OF h a]
  note new = new_record_holds [OF r _ p sz, folded k_def]
  have fit: "unat p + unat sz < 2 ^ 32" using al(2) [OF p] by simp
  have frame: "header_mem p sz k m1 x = m x" if "x \<notin> block p (unat sz)" for x
    using header_mem_outside [OF new(4) [OF fit] _ that] unat_le_2p32 al(3) [OF p that] by simp
  have "list_all2 (holds (header_mem p sz k m1)) rs bs"
  proof (rule list.rel_mono_strong)
    show "list_all2 (holds m) rs bs" using s by (simp add: served_def)
    fix r' b
    assume "b \<in> set bs" and hb: "holds m r' b"
    then have "block p (unat sz) \<inter> block (fst b) (unat (snd b)) = {}"
      using al(4) [OF p, of "fst b" "snd b"] s by (simp add: served_def)
    then show "holds (header_mem p sz k m1) r' b"
      by (intro holds_cong [OF hb] frame) blast
  qed
  moreover have "live_disjoint (live w1)"
  proof -
    have "live_disjoint (insert (p, sz) (live w))"
    proof (rule live_disjoint_insert)
      show "live_disjoint (live w)" using s by (auto simp: served_def)
      fix b
      assume "b \<in> live w"
      then show "block (fst (p, sz)) (unat (snd (p, sz))) \<inter> block (fst b) (unat (snd b)) = {}"
        using al(4) [OF p, of "fst b" "snd b"] by simp
    qed
    then show ?thesis using al(2) [OF p] by simp
  qed
  ultimately show ?thesis
    using s al(2) [OF p] new(1) [OF fit]
    by (auto simp: served_def list_all2_appendI)
qed

lemma alloc_loop_ok:
  assumes "heap_ok H live" "i + k \<le> length tab" "list_all request_ok tab"
    and "served live L (take i tab) bs (m, w)"
  shows "\<exists>ok tab' m' w'. alloc_loop H tab i k (m, w) = Some (ok, tab', m', w') \<and>
     length tab' = length tab \<and>
     (if ok then \<exists>bs'. served live L (take (i + k) tab') bs' (m', w') else live w' = L)"
  using assms(2-)
proof (induction k arbitrary: i tab bs m w)
  case 0
  then show ?case by auto
next
  case (Suc k)
  let ?r = "tab ! i"
  let ?sz = "mr_size ?r + pad_of (mr_alignment ?r)"
  have i: "i < length tab" using Suc.prems(1) by simp
  obtain p m1 w1 where a: "memory_alloc H ?sz (mr_alignment ?r) (m, w) = (p, m1, w1)"
    by (metis surj_pair)
  show ?case
  proof (cases "p = 0")
    case True
    then have "live w1 = live w" "m1 = m" using heap_alloc(1) [OF assms(1) a] by auto
    then have "served live L (take i tab) bs (m1, w1)"
      using Suc.prems(3) by (auto simp: served_def)
    from served_free [OF assms(1) this] i
    obtain m' w' where "freeFxn H tab i (m1, w1) = Some (m', w')" "live w' = L"
      by (auto simp: freeFxn_def free_loop_list)
    with a i True have "alloc_loop H tab i (Suc k) (m, w) = Some (False, tab, m', w')"
      by (simp add: Let_def)
    with \<open>live w' = L\<close> show ?thesis by auto
  next
    case False
    let ?k = "unat (pad_of (mr_alignment ?r)) - 8"
    let ?tab = "tab[i := ?r\<lparr>mr_base := p + pad_of (mr_alignment ?r)\<rparr>]"
    have r: "request_ok ?r" using Suc.prems(2) i by (simp add: list_all_length)
    note new = new_record_holds [OF r _ False refl] and al = heap_alloc(2) [OF assms(1) a False]
    have sv: "served live L (take (Suc i) ?tab) (bs @ [(p, ?sz)]) (header_mem p ?sz ?k m1, w1)"
      using served_snoc [OF assms(1) Suc.prems(3) r a False refl] i
      by (simp add: take_Suc_conv_app_nth)
    have rs: "list_all request_ok ?tab" using Suc.prems(2) i
      by (auto simp: list_all_length nth_list_update request_ok_def)
    have "Suc i + k \<le> length ?tab" using Suc.prems(1) by simp
    note IH = Suc.IH [OF this rs sv]
    have fit: "unat p + unat ?sz < 2 ^ 32" and mp: "mapped m1 p (unat ?sz)" using al by simp_all
    note st = store_header [OF mp new(4) [OF fit] unat_le_2p32, of ?sz, folded new(2,3) [OF fit]]
    have "alloc_loop H tab i (Suc k) (m, w) =
        alloc_loop H ?tab (Suc i) k (header_mem p ?sz ?k m1, w1)"
      using i a False st by (simp add: Let_def fc_P2H_eq)
    with IH show ?thesis by (simp only: add_Suc_right add_Suc length_list_update)
  qed
qed

text \<open>
  C14: \<open>allocFxn\<close> is all or nothing. Over a heap that keeps its contract, and for requests that fit in
  32 bits, it returns; when it reports failure, the live blocks of the heap are those of before;
  when it reports success, each record of the table has a base whose header names a block of
  its own, those blocks are the only new live blocks, and \<open>freeFxn\<close>, later, with the headers
  untouched, gives exactly them back.
\<close>

theorem allocFxn_all_or_nothing:
  assumes "heap_ok H live" "list_all request_ok tab" "live_disjoint (live w)"
  shows "\<exists>ok tab' m' w'. allocFxn H tab (length tab) (m, w) = Some (ok, tab', m', w') \<and>
     length tab' = length tab \<and>
     (if ok then
        (\<exists>bs. list_all2 (holds m') tab' bs \<and> distinct bs \<and> live w' = live w \<union> set bs \<and>
           set bs \<inter> live w = {}) \<and>
        (\<forall>m2. (\<forall>bs. list_all2 (holds m') tab' bs \<longrightarrow> list_all2 (holds m2) tab' bs) \<longrightarrow>
           (\<exists>m3 w3. freeFxn H tab' (length tab') (m2, w') = Some (m3, w3) \<and> live w3 = live w))
      else live w' = live w)"
proof -
  have "served live (live w) (take 0 tab) [] (m, w)" using assms(3) by (simp add: served_def)
  from alloc_loop_ok [OF assms(1) _ assms(2) this, of "length tab"]
  have "\<exists>ok tab' m' w'. alloc_loop H tab 0 (length tab) (m, w) = Some (ok, tab', m', w') \<and>
     length tab' = length tab \<and>
     (if ok then \<exists>bs'. served live (live w) (take (length tab) tab') bs' (m', w')
      else live w' = live w)" by (simp only: add_0)
  then obtain ok tab' m' w' where r: "allocFxn H tab (length tab) (m, w) = Some (ok, tab', m', w')"
    "length tab' = length tab"
    "if ok then \<exists>bs. served live (live w) (take (length tab) tab') bs (m', w') else live w' = live w"
    by (elim exE conjE) (rule that, simp only: allocFxn_def)
  have all: "take (length tab) tab' = tab'" using r(2) by simp
  show ?thesis
  proof (cases ok)
    case True
    with r(3) obtain bs where bs: "served live (live w) tab' bs (m', w')" by (auto simp: all)
    have "\<exists>m3 w3. freeFxn H tab' (length tab') (m2, w') = Some (m3, w3) \<and> live w3 = live w"
      if "\<forall>bs. list_all2 (holds m') tab' bs \<longrightarrow> list_all2 (holds m2) tab' bs" for m2
    proof -
      have "served live (live w) tab' bs (m2, w')" using bs that by (auto simp: served_def)
      from served_free [OF assms(1) this] show ?thesis by (simp add: freeFxn_def free_loop_list)
    qed
    with r True bs show ?thesis by (auto simp: served_def)
  qed (use r in auto)
qed

text \<open>A heap with room for one block of any size below 4096 bytes.\<close>

definition sample_heap :: "u32 option heap" where
  "sample_heap = \<lparr>memory_alloc = (\<lambda>sz al (m, l).
       if l = None \<and> sz < 4096 \<and> mapped m 0x1000 4096 then (0x1000, m, Some sz) else (0, m, l)),
     memory_free = (\<lambda>p sz (m, l). (m, if p = 0x1000 \<and> l = Some sz then None else l))\<rparr>"

definition sample_live :: "u32 option \<Rightarrow> (u32 \<times> u32) set" where
  "sample_live l = (case l of None \<Rightarrow> {} | Some sz \<Rightarrow> {(0x1000, sz)})"

lemma sample_heap_ok: "heap_ok sample_heap sample_live"
proof -
  have "mapped m 0x1000 (unat sz) \<and> 4096 + unat sz < 2 ^ 32" if "sz < 4096" "mapped m 0x1000 4096"
    for m and sz :: u32
    using that mapped_mono [of m "0x1000" 4096 "unat sz"] by (simp add: word_less_nat_alt)
  then show ?thesis
    by (auto simp: heap_ok_def sample_heap_def sample_live_def split: option.splits if_splits)
qed

definition sample_rec :: memrec where
  "sample_rec = \<lparr>mr_size = 100, mr_alignment = 32, mr_space = 0, mr_attrs = 0, mr_base = 0\<rparr>"

lemma sample_rec_ok: "list_all request_ok [sample_rec, sample_rec]"
  by (simp add: sample_rec_def request_ok_def unat_pad_of)

lemma allocFxn_all_or_nothing_witness:
  "\<exists>ok tab' m' w'. allocFxn sample_heap [sample_rec, sample_rec] (length [sample_rec, sample_rec])
     (sample_mem, None) = Some (ok, tab', m', w') \<and> length tab' = length [sample_rec, sample_rec]"
proof -
  have "live_disjoint (sample_live None)" by (simp add: sample_live_def live_disjoint_def)
  from allocFxn_all_or_nothing [OF sample_heap_ok sample_rec_ok this, of sample_mem]
  show ?thesis by blast
qed

text \<open>
  The padding is added to the requested size in 32 bits: a request within the padding of
  \<open>2 ^ 32\<close> asks the heap for a block that is smaller than its padding, and when the heap returns
  one, the base handed to the codec lies behind the end of the block.
\<close>

lemma allocFxn_size_wraps:
  assumes "2 ^ 32 \<le> unat (mr_size r) + unat (pad_of (mr_alignment r))"
  shows "unat (mr_size r + pad_of (mr_alignment r)) < unat (pad_of (mr_alignment r)) \<and>
     allocFxn H [r] 1 w =
       (let (blk, m, w1) = memory_alloc H (mr_size r + pad_of (mr_alignment r)) (mr_alignment r) w
        in if blk = 0 then Some (False, [r], m, w1)
           else do {
             m \<leftarrow> store32 m (blk + pad_of (mr_alignment r) - 8) (mr_size r + pad_of (mr_alignment r));
             m \<leftarrow> store32 m (blk + pad_of (mr_alignment r) - 4) blk;
             Some (True, [r\<lparr>mr_base := blk + pad_of (mr_alignment r)\<rparr>], m, w1) })"
proof -
  let ?s = "unat (mr_size r)" and ?p = "unat (pad_of (mr_alignment r))"
  have lt: "?s < 2 ^ 32" "?p < 2 ^ 32"
    using unsigned_less [of "mr_size r", where 'a = nat]
      unsigned_less [of "pad_of (mr_alignment r)", where 'a = nat] by simp_all
  have "unat (mr_size r + pad_of (mr_alignment r)) = (?s + ?p) mod 2 ^ 32"
    by (simp add: unat_word_ariths)
  also have "\<dots> = ?s + ?p - 2 ^ 32" using assms lt by (simp add: mod_if)
  finally have "unat (mr_size r + pad_of (mr_alignment r)) < ?p" using lt assms by simp
  then show ?thesis
    by (simp add: allocFxn_def freeFxn_def fc_P2H_eq Let_def split: prod.splits)
qed

lemma allocFxn_size_wraps_witness:
  "unat (mr_size \<lparr>mr_size = 0xFFFFFFFC, mr_alignment = 4, mr_space = 0, mr_attrs = 0, mr_base = 0\<rparr> +
     pad_of 4) < 8"
  using allocFxn_size_wraps [of "\<lparr>mr_size = 0xFFFFFFFC, mr_alignment = 4, mr_space = 0, mr_attrs = 0,
      mr_base = 0\<rparr>"]
  by (simp add: unat_pad_of pad_of_def layout)

end
