(* ===== verification/Tiled_Memory.thy ===== *)
theory Tiled_Memory
  imports Fc_Heap_Props Ialg_Types
begin

text \<open>
  The heap-backed implementation of the tiled memory resource (\<^verbatim>\<open>iresman_tiledmemory.c\<close>): buffers
  and their handles are allocated through the two functions that \<open>init\<close> stores. The handle
  structure is declared outside \<^verbatim>\<open>src/\<close>: its size, the stores into it and the load of its
  \<open>memoryBaseAddress\<close> are parameters. \<open>IRES_OK\<close> is 0. The assertions of the code are on
  pointers that the framework passes; \<open>protocolArgs\<close> is the pair of its two dimensions.
\<close>

type_synonym 'w alloc_fn = "memrec list \<Rightarrow> nat \<Rightarrow> mem \<times> 'w \<Rightarrow> (bool \<times> memrec list \<times> mem \<times> 'w) option"
type_synonym 'w free_fn = "memrec list \<Rightarrow> nat \<Rightarrow> mem \<times> 'w \<Rightarrow> (mem \<times> 'w) option"

record 'w rman_params =
  p_allocFxn :: "'w alloc_fn"
  p_freeFxn :: "'w free_fn"

definition tm_init :: "'w rman_params \<Rightarrow> u32 \<times> 'w rman_params" where
  "tm_init initArgs = (0, \<lparr>p_allocFxn = p_allocFxn initArgs, p_freeFxn = p_freeFxn initArgs\<rparr>)"

definition tm_exit :: u32 where
  "tm_exit = 0"

definition getProtocolName :: string where
  "getProtocolName = ''ti.sdo.fc.ires.tiledmemory''"

definition getProtocolRevision :: "nat \<times> nat \<times> nat" where
  "getProtocolRevision = (1, 0, 0)"

definition res_rec :: "u32 \<Rightarrow> u32 \<Rightarrow> memrec" where
  "res_rec base sz = \<lparr>mr_size = sz, mr_alignment = 0x4,
     mr_space = of_int (IALG_MemSpace_val IALG_EXTERNAL),
     mr_attrs = of_int (IALG_MemAttrs_val IALG_PERSIST), mr_base = base\<rparr>"

definition allocRes :: "'w rman_params \<Rightarrow> u32 \<Rightarrow> mem \<times> 'w \<Rightarrow> (u32 \<times> mem \<times> 'w) option" where
  "allocRes P sz w = do {
     (ok, tab, w) \<leftarrow> p_allocFxn P [res_rec 0 sz] 1 w;
     Some (if \<not> ok then (0, w) else (mr_base (tab ! 0), w)) }"

definition freeRes :: "'w rman_params \<Rightarrow> u32 \<Rightarrow> u32 \<Rightarrow> mem \<times> 'w \<Rightarrow> (mem \<times> 'w) option" where
  "freeRes P base sz w = p_freeFxn P [res_rec base sz] 1 w"

text \<open>A resource of this kind has no properties: the function stores nothing.\<close>

definition getStaticProperties :: "'p \<Rightarrow> 'p" where
  "getStaticProperties resourceProperties = resourceProperties"

text \<open>
  The members of the handle that \<open>getHandles\<close> sets; the function pointer is the function, on the bytes
  of the caller's properties.
\<close>

record tm_handle =
  getStaticProperties_fxn :: "bytes \<Rightarrow> bytes"
  persistent :: bool
  memoryBaseAddress :: u32
  systemSpaceBaseAddress :: u32
  isTiledMemory :: bool
  accessUnit_raw :: bool
  tilerBaseAddress :: u32

record tm_layout =
  obj_size :: u32
  put_obj :: "u32 \<Rightarrow> tm_handle \<Rightarrow> mem \<Rightarrow> mem option"
  get_base :: "mem \<Rightarrow> u32 \<Rightarrow> u32 option"

definition buffer_size :: "u32 \<Rightarrow> u32 \<Rightarrow> u32" where
  "buffer_size dim0 dim1 = (if dim1 \<noteq> 0 then dim0 * dim1 else dim0)"

definition getHandles ::
  "tm_layout \<Rightarrow> 'w rman_params \<Rightarrow> u32 \<times> u32 \<Rightarrow> mem \<times> 'w \<Rightarrow> (u32 \<times> mem \<times> 'w) option" where
  "getHandles T P args w = do {
     let sz = buffer_size (fst args) (snd args);
     (ptr, w) \<leftarrow> allocRes P sz w;
     (if ptr = 0 then Some (0, w)
      else do {
        (handle, w) \<leftarrow> allocRes P (obj_size T) w;
        (if handle = 0 then do { w \<leftarrow> freeRes P ptr sz w; Some (0, w) }
         else do {
           m \<leftarrow> put_obj T handle \<lparr>getStaticProperties_fxn = getStaticProperties, persistent = True, memoryBaseAddress = ptr,
               systemSpaceBaseAddress = ptr, isTiledMemory = False, accessUnit_raw = True,
               tilerBaseAddress = 0\<rparr> (fst w);
           Some (handle, m, snd w) }) }) }"

definition freeHandles ::
  "tm_layout \<Rightarrow> 'w rman_params \<Rightarrow> u32 \<Rightarrow> u32 \<times> u32 \<Rightarrow> mem \<times> 'w \<Rightarrow> (u32 \<times> mem \<times> 'w) option" where
  "freeHandles T P handle args w = do {
     let sz = buffer_size (fst args) (snd args);
     base \<leftarrow> get_base T (fst w) handle;
     w \<leftarrow> freeRes P base sz w;
     w \<leftarrow> freeRes P handle (obj_size T) w;
     Some (0, w) }"

subsection \<open>Over the framework's heap\<close>

text \<open>
  The table of the resource manager's functions, over what \<open>init\<close> has stored. The framework calls
  them through it.
\<close>

record 'w iresman_fxns =
  fxn_name :: string
  fxn_revision :: "nat \<times> nat \<times> nat"
  fxn_init :: "'w rman_params \<Rightarrow> u32 \<times> 'w rman_params"
  fxn_exit :: u32
  fxn_getHandles :: "'w rman_params \<Rightarrow> u32 \<times> u32 \<Rightarrow> mem \<times> 'w \<Rightarrow> (u32 \<times> mem \<times> 'w) option"
  fxn_freeHandles :: "'w rman_params \<Rightarrow> u32 \<Rightarrow> u32 \<times> u32 \<Rightarrow> mem \<times> 'w \<Rightarrow> (u32 \<times> mem \<times> 'w) option"

definition tiledmemory_fxns :: "tm_layout \<Rightarrow> 'w iresman_fxns" where
  "tiledmemory_fxns T = \<lparr>fxn_name = getProtocolName, fxn_revision = getProtocolRevision, fxn_init = tm_init,
     fxn_exit = tm_exit, fxn_getHandles = getHandles T, fxn_freeHandles = freeHandles T\<rparr>"

text \<open>The parameters that \<open>init_IVAHDFrwk\<close> registers the resource with.\<close>

definition frwk_params :: "'w heap \<Rightarrow> 'w rman_params" where
  "frwk_params H = \<lparr>p_allocFxn = allocFxn H, p_freeFxn = freeFxn H\<rparr>"

lemma res_rec_parts [simp]:
  "mr_base (res_rec b sz) = b" "mr_size (res_rec b sz) = sz" "mr_alignment (res_rec b sz) = 4"
  "res_rec b sz\<lparr>mr_base := c\<rparr> = res_rec c sz"
  by (simp_all add: res_rec_def)

lemma pad_of_4 [simp]: "pad_of 4 = 8"
  by (simp add: pad_of_def layout)

lemma alloc_one:
  assumes "heap_ok H live" "served live L rs bs (m, w)" "unat sz + 8 < 2 ^ 32"
  shows "\<exists>p m1 w1. allocRes (frwk_params H) sz (m, w) = Some (p, m1, w1) \<and>
     (if p = 0 then m1 = m \<and> live w1 = live w
      else \<exists>b. served live L (rs @ [res_rec p sz]) (bs @ [(b, sz + 8)]) (m1, w1) \<and>
        p = b + 8 \<and> mapped m1 b (unat sz + 8))"
proof -
  obtain b m1 w1 where a: "memory_alloc H (sz + 8) 4 (m, w) = (b, m1, w1)" by (metis surj_pair)
  have sz: "unat (sz + 8) = unat sz + 8" using assms(3) by (simp add: unat_word_ariths)
  show ?thesis
  proof (cases "b = 0")
    case True
    with a heap_alloc(1) [OF assms(1) a] show ?thesis
      by (simp add: allocRes_def frwk_params_def allocFxn_def freeFxn_def)
  next
    case False
    note al = heap_alloc(2) [OF assms(1) a False]
    have r: "request_ok (res_rec 0 sz)" using assms(3) by (simp add: request_ok_def)
    have a': "memory_alloc H (sz + 8) (mr_alignment (res_rec 0 sz)) (m, w) = (b, m1, w1)"
      and e: "sz + 8 = mr_size (res_rec 0 sz) + pad_of (mr_alignment (res_rec 0 sz))"
      and k: "unat (pad_of (mr_alignment (res_rec 0 sz))) - 8 = 0"
      using a by simp_all
    note snoc = served_snoc [OF assms(1,2) r a' False e, unfolded k]
    have fit: "unat b + unat (sz + 8) < 2 ^ 32" and mp: "mapped m1 b (unat (sz + 8))" using al by simp_all
    note new = new_record_holds [OF r fit False]
    have st: "store32 m1 b (sz + 8) = Some (mem_blit b (bytes_of (sz + 8)) m1)"
      "store32 (mem_blit b (bytes_of (sz + 8)) m1) (b + 4) b = Some (header_mem b (sz + 8) 0 m1)"
      using store_header [OF mp, of 0 "sz + 8"] sz unat_le_2p32 [of "sz + 8"] by simp_all
    have "b + 8 \<noteq> 0" using new(1) by (simp add: holds_def)
    moreover have "served live L (rs @ [res_rec (b + 8) sz]) (bs @ [(b, sz + 8)])
        (header_mem b (sz + 8) 0 m1, w1)"
      using snoc by (simp only: res_rec_parts pad_of_4)
    moreover have "allocRes (frwk_params H) sz (m, w) =
        Some (b + 8, header_mem b (sz + 8) 0 m1, w1)"
      using a False st st(2) [unfolded add.commute [of b 4]]
      by (simp add: allocRes_def frwk_params_def allocFxn_def fc_P2H_eq)
    moreover have "mapped (header_mem b (sz + 8) 0 m1) b (unat sz + 8)"
      using mp sz by (simp add: header_mem_def mapped_mem_blit)
    ultimately show ?thesis
      by (intro exI [of _ "b + 8"] exI [of _ "header_mem b (sz + 8) 0 m1"] exI [of _ w1])
         (simp only: simp_thms if_False, blast)
  qed
qed

text \<open>Freeing one of the blocks leaves the others served.\<close>

lemma served_remove:
  assumes h: "heap_ok H live" and s: "served live L (rs @ r # rs') (bs @ b # bs') (m, w)"
    and len: "length rs = length bs" and r: "mr_base r = p"
  shows "\<exists>m1 w1. freeRes (frwk_params H) p sz (m, w) = Some (m1, w1) \<and>
     served live L (rs @ rs') (bs @ bs') (m1, w1)"
proof -
  have hs: "list_all2 (holds m) rs bs" "holds m r b" "list_all2 (holds m) rs' bs'"
    using s len by (auto simp: served_def list_all2_append)
  obtain m1 w1 where f: "memory_free H (fst b) (snd b) (m, w) = (m1, w1)" by (metis surj_pair)
  have live: "(fst b, snd b) \<in> live w" using s by (simp add: served_def)
  note free = heap_free [OF h f live]
  have dj: "live_disjoint (live w)" and ds: "distinct (bs @ b # bs')"
    and lw: "live w = L \<union> set (bs @ b # bs')" and L: "set (bs @ b # bs') \<inter> L = {}"
    using s unfolding served_def by blast+
  have keep: "holds m1 r' c" if "holds m r' c" "c \<in> set bs \<union> set bs'" for r' c
  proof (rule holds_cong [OF that(1)])
    fix x
    assume "x \<in> block (fst c) (unat (snd c))"
    moreover have "c \<noteq> b" "c \<in> live w" "b \<in> live w" using that(2) ds lw by auto
    ultimately have "x \<notin> block (fst b) (unat (snd b))" using live_disjointD [OF dj, of c b] by auto
    then show "m1 x = m x" by (rule free(2))
  qed
  have "list_all2 (holds m1) rs bs" "list_all2 (holds m1) rs' bs'"
    using hs(1,3) keep by (auto elim!: list.rel_mono_strong)
  moreover have "live w1 = L \<union> set (bs @ bs')" using free(1) lw L ds by auto
  moreover have "live_disjoint (live w1)" using dj unfolding free(1) live_disjoint_def by blast
  ultimately have "served live L (rs @ rs') (bs @ bs') (m1, w1)"
    using ds L by (auto simp: served_def list_all2_appendI)
  moreover have "freeRes (frwk_params H) p sz (m, w) = Some (m1, w1)"
    using hs(2) r f by (simp add: freeRes_def frwk_params_def freeFxn_def fc_P2H_eq holds_def)
  ultimately show ?thesis by blast
qed

subsection \<open>What the owner of a buffer may write\<close>

lemma user_area_in_block:
  fixes b sz :: u32
  assumes "x \<in> block (b + 8) (unat sz)" "unat sz + 8 < 2 ^ 32"
  shows "x \<in> block b (unat (sz + 8))"
proof -
  let ?j = "unat (x - (b + 8))"
  have j: "?j < unat sz" using assms(1) by (simp add: block_def)
  have "x - b = of_nat (8 + ?j)" by simp
  then have "unat (x - b) = 8 + ?j"
    using j assms(2) by (simp only: unsigned_of_nat) (simp add: take_bit_nat_eq_self)
  then show ?thesis using j assms(2) by (simp add: block_def unat_word_ariths)
qed

lemma header_not_in_user_area:
  fixes b sz :: u32
  assumes "i < 8" "unat sz + 8 < 2 ^ 32"
  shows "b + of_nat i \<notin> block (b + 8) (unat sz)"
proof -
  have "b + of_nat i - (b + 8) = (- of_nat (8 - i) :: u32)"
    using assms(1) by (simp add: of_nat_diff)
  then have "unat (b + of_nat i - (b + 8)) = 2 ^ 32 - (8 - i)"
    using assms(1) unat_neg_of_nat [of "8 - i"] by simp
  then show ?thesis using assms by (simp add: block_def)
qed

lemma holds_user:
  assumes "holds m (res_rec (b + 8) sz) c" "unat sz + 8 < 2 ^ 32"
    and "\<And>x. x \<notin> block (b + 8) (unat sz) \<Longrightarrow> m' x = m x"
  shows "holds m' (res_rec (b + 8) sz) c"
proof -
  have eq: "m' (b + of_nat i) = m (b + of_nat i)" if "i < 8" for i :: nat
    using header_not_in_user_area [OF that assms(2)] by (rule assms(3))
  have "load32 m' b = load32 m b" by (rule load32_cong) (simp add: eq)
  moreover have "load32 m' (b + 4) = load32 m (b + 4)"
  proof (rule load32_cong)
    fix i :: nat
    assume "i < 4"
    then show "m' (b + 4 + of_nat i) = m (b + 4 + of_nat i)"
      using eq [of "4 + i"] by (simp add: add_ac)
  qed
  ultimately show ?thesis using assms(1) by (simp add: holds_def add_ac)
qed

lemma served_user:
  assumes s: "served live L (rs @ res_rec (b + 8) sz # rs') (bs @ (b, sz + 8) # bs') (m, w)"
    and len: "length rs = length bs" and sz: "unat sz + 8 < 2 ^ 32"
    and m': "\<And>x. x \<notin> block (b + 8) (unat sz) \<Longrightarrow> m' x = m x"
  shows "served live L (rs @ res_rec (b + 8) sz # rs') (bs @ (b, sz + 8) # bs') (m', w)"
proof -
  have hs: "list_all2 (holds m) rs bs" "holds m (res_rec (b + 8) sz) (b, sz + 8)"
    "list_all2 (holds m) rs' bs'"
    using s len by (auto simp: served_def list_all2_append)
  have dj: "live_disjoint (live w)" and ds: "distinct (bs @ (b, sz + 8) # bs')"
    and lw: "live w = L \<union> set (bs @ (b, sz + 8) # bs')"
    using s unfolding served_def by blast+
  have keep: "holds m' r' c" if "holds m r' c" "c \<in> set bs \<union> set bs'" for r' c
  proof (rule holds_cong [OF that(1)])
    fix x
    assume "x \<in> block (fst c) (unat (snd c))"
    moreover have "c \<noteq> (b, sz + 8)" "c \<in> live w" "(b, sz + 8) \<in> live w" using that(2) ds lw by auto
    ultimately have "x \<notin> block b (unat (sz + 8))" using live_disjointD [OF dj, of c "(b, sz + 8)"] by auto
    then show "m' x = m x" using user_area_in_block [OF _ sz] m' by blast
  qed
  have "list_all2 (holds m') rs bs" "list_all2 (holds m') rs' bs'"
    using hs(1,3) keep by (auto elim!: list.rel_mono_strong)
  moreover have "holds m' (res_rec (b + 8) sz) (b, sz + 8)" by (rule holds_user [OF hs(2) sz m'])
  ultimately show ?thesis using s len by (auto simp: served_def list_all2_append)
qed

subsection \<open>Buffers with their handles\<close>

text \<open>
  The handle structure: it can be stored into a mapped block of its size, changing nothing else;
  loading its \<open>memoryBaseAddress\<close> gives the value stored and depends on that block only.
\<close>

definition layout_ok :: "tm_layout \<Rightarrow> bool" where
  "layout_ok T \<longleftrightarrow> unat (obj_size T) + 8 < 2 ^ 32 \<and>
     (\<forall>p h m. mapped m p (unat (obj_size T)) \<longrightarrow>
        (\<exists>m'. put_obj T p h m = Some m' \<and> get_base T m' p = Some (memoryBaseAddress h) \<and>
           (\<forall>x. x \<notin> block p (unat (obj_size T)) \<longrightarrow> m' x = m x))) \<and>
     (\<forall>p m m'. (\<forall>x\<in>block p (unat (obj_size T)). m' x = m x) \<longrightarrow> get_base T m' p = get_base T m p)"

lemma layout_put:
  assumes "layout_ok T" "mapped m p (unat (obj_size T))"
  obtains m' where "put_obj T p h m = Some m'" "get_base T m' p = Some (memoryBaseAddress h)"
    "\<And>x. x \<notin> block p (unat (obj_size T)) \<Longrightarrow> m' x = m x"
  using assms unfolding layout_ok_def by (metis (no_types, lifting))

text \<open>
  What the resource manager relies on in the two functions it is given: \<open>serving ps s\<close> says that
  \<open>ps\<close> are the blocks (base and size) that are handed out in the state \<open>s\<close>. A request is refused or
  adds a block, freeing removes it, and the owner of a block may write what it likes into it.
\<close>

locale framework_memory =
  fixes P :: "'w rman_params"
    and serving :: "(u32 \<times> u32) list \<Rightarrow> mem \<times> 'w \<Rightarrow> bool"
  assumes alloc_serves: "serving ps s \<Longrightarrow> unat sz + 8 < 2 ^ 32 \<Longrightarrow>
        \<exists>p s'. allocRes P sz s = Some (p, s') \<and>
          (if p = 0 then serving ps s'
           else serving (ps @ [(p, sz)]) s' \<and> mapped (fst s') p (unat sz))"
    and free_serves: "serving (ps @ (p, sz) # qs) s \<Longrightarrow>
        \<exists>s'. freeRes P p sz s = Some s' \<and> serving (ps @ qs) s'"
    and owner_writes: "serving (ps @ (p, sz) # qs) (m, w) \<Longrightarrow>
        (\<And>x. x \<notin> block p (unat sz) \<Longrightarrow> m' x = m x) \<Longrightarrow> serving (ps @ (p, sz) # qs) (m', w)"
    and blocks_apart: "serving [(p, sz), (q, tz)] s \<Longrightarrow> block p (unat sz) \<inter> block q (unat tz) = {}"
begin

lemma getHandles_serves:
  assumes T: "layout_ok T" and s: "serving [] s" and sz: "unat (buffer_size d0 d1) + 8 < 2 ^ 32"
  shows "\<exists>h s'. getHandles T P (d0, d1) s = Some (h, s') \<and>
     (if h = 0 then serving [] s'
      else \<exists>ptr. get_base T (fst s') h = Some ptr \<and> ptr \<noteq> 0 \<and>
        serving [(ptr, buffer_size d0 d1), (h, obj_size T)] s')"
proof -
  let ?sz = "buffer_size d0 d1"
  have o: "unat (obj_size T) + 8 < 2 ^ 32" using T by (simp add: layout_ok_def)
  from alloc_serves [OF s sz] obtain p s1 where a1: "allocRes P ?sz s = Some (p, s1)"
    and r1: "if p = 0 then serving [] s1 else serving [(p, ?sz)] s1" by (auto split: if_splits)
  show ?thesis
  proof (cases "p = 0")
    case True
    with a1 r1 show ?thesis by (cases s1) (simp add: getHandles_def)
  next
    case p: False
    with r1 alloc_serves [OF _ o, of "[(p, ?sz)]" s1]
    obtain h m2 w2 where a2: "allocRes P (obj_size T) s1 = Some (h, m2, w2)"
      and r2: "if h = 0 then serving [(p, ?sz)] (m2, w2)
        else serving [(p, ?sz), (h, obj_size T)] (m2, w2) \<and> mapped m2 h (unat (obj_size T))"
      by (auto split: if_splits)
    show ?thesis
    proof (cases "h = 0")
      case True
      with r2 free_serves [of "[]" p ?sz "[]" "(m2, w2)"]
      obtain s3 where "freeRes P p ?sz (m2, w2) = Some s3" "serving [] s3" by auto
      with a1 a2 p True show ?thesis by (cases s3) (simp add: getHandles_def)
    next
      case h: False
      let ?h = "\<lparr>getStaticProperties_fxn = getStaticProperties, persistent = True, memoryBaseAddress = p, systemSpaceBaseAddress = p,
        isTiledMemory = False, accessUnit_raw = True, tilerBaseAddress = 0\<rparr>"
      from layout_put [OF T, of m2 h ?h] r2 h
      obtain m3 where put: "put_obj T h ?h m2 = Some m3" "get_base T m3 h = Some p"
        and frame: "\<And>x. x \<notin> block h (unat (obj_size T)) \<Longrightarrow> m3 x = m2 x" by auto
      have "serving [(p, ?sz), (h, obj_size T)] (m3, w2)"
        using owner_writes [of "[(p, ?sz)]" h "obj_size T" "[]" m2 w2 m3] r2 h frame by simp
      with a1 a2 p h put show ?thesis by (simp add: getHandles_def)
    qed
  qed
qed

lemma freeHandles_serves:
  assumes T: "layout_ok T" and s: "serving [(ptr, buffer_size d0 d1), (h, obj_size T)] (m, w)"
    and base: "get_base T m h = Some ptr"
    and m2: "\<And>x. x \<notin> block ptr (unat (buffer_size d0 d1)) \<Longrightarrow> m2 x = m x"
  shows "\<exists>s'. freeHandles T P h (d0, d1) (m2, w) = Some (0, s') \<and> serving [] s'"
proof -
  let ?sz = "buffer_size d0 d1"
  have "\<forall>x\<in>block h (unat (obj_size T)). m2 x = m x" using blocks_apart [OF s] m2 by blast
  with T base have g: "get_base T m2 h = Some ptr" unfolding layout_ok_def by metis
  have "serving [(ptr, ?sz), (h, obj_size T)] (m2, w)"
    using owner_writes [of "[]" ptr ?sz "[(h, obj_size T)]" m w m2] s m2 by simp
  with free_serves [of "[]" ptr ?sz "[(h, obj_size T)]" "(m2, w)"]
  obtain s1 where f1: "freeRes P ptr ?sz (m2, w) = Some s1" "serving [(h, obj_size T)] s1" by auto
  with free_serves [of "[]" h "obj_size T" "[]" s1]
  obtain s2 where "freeRes P h (obj_size T) s1 = Some s2" "serving [] s2" by auto
  with f1 g show ?thesis by (auto simp: freeHandles_def)
qed

end

text \<open>The functions of \<^verbatim>\<open>baseimage_ivahd_frwkconfig.c\<close> keep this contract over any proper heap.\<close>

definition frwk_serving ::
  "'w heap \<Rightarrow> ('w \<Rightarrow> (u32 \<times> u32) set) \<Rightarrow> (u32 \<times> u32) set \<Rightarrow> (u32 \<times> u32) list \<Rightarrow> mem \<times> 'w \<Rightarrow> bool"
where
  "frwk_serving H live L ps s \<longleftrightarrow> heap_ok H live \<and> (\<forall>(p, sz)\<in>set ps. unat sz + 8 < 2 ^ 32) \<and>
     served live L (map (\<lambda>(p, sz). res_rec p sz) ps) (map (\<lambda>(p, sz). (p - 8, sz + 8)) ps) s"

lemma frwk_alloc:
  assumes "frwk_serving H live L ps s" "unat sz + 8 < 2 ^ 32"
  shows "\<exists>p s'. allocRes (frwk_params H) sz s = Some (p, s') \<and>
     (if p = 0 then frwk_serving H live L ps s'
      else frwk_serving H live L (ps @ [(p, sz)]) s' \<and> mapped (fst s') p (unat sz))"
proof -
  obtain m w where s: "s = (m, w)" by (cases s)
  let ?rs = "map (\<lambda>(p, sz). res_rec p sz) ps" and ?bs = "map (\<lambda>(p, sz). (p - 8, sz + 8)) ps"
  have h: "heap_ok H live" and sv: "served live L ?rs ?bs (m, w)"
    using assms(1) by (simp_all add: frwk_serving_def s)
  from alloc_one [OF h sv assms(2)] obtain p m1 w1 where
    a: "allocRes (frwk_params H) sz (m, w) = Some (p, m1, w1)" and
    r: "if p = 0 then m1 = m \<and> live w1 = live w
        else \<exists>b. served live L (?rs @ [res_rec p sz]) (?bs @ [(b, sz + 8)]) (m1, w1) \<and>
          p = b + 8 \<and> mapped m1 b (unat sz + 8)" by auto
  show ?thesis
  proof (cases "p = 0")
    case True
    with r sv have "served live L ?rs ?bs (m1, w1)" by (auto simp: served_def)
    with a True assms(1) show ?thesis by (auto simp: s frwk_serving_def)
  next
    case False
    with r obtain b where "served live L (?rs @ [res_rec p sz]) (?bs @ [(p - 8, sz + 8)]) (m1, w1)"
      and b: "p = b + 8" "mapped m1 b (unat sz + 8)" by auto
    moreover have "mapped m1 p (unat sz)" using mapped_tail [OF b(2), of 8 "unat sz"] b(1) by simp
    ultimately show ?thesis using a False assms by (auto simp: s frwk_serving_def)
  qed
qed

interpretation frwk: framework_memory "frwk_params H" "frwk_serving H live L" for H live L
proof unfold_locales
  fix ps p sz qs s
  assume "frwk_serving H live L (ps @ (p, sz) # qs) s"
  then show "\<exists>s'. freeRes (frwk_params H) p sz s = Some s' \<and> frwk_serving H live L (ps @ qs) s'"
    using served_remove [where sz = sz and p = p] by (cases s) (fastforce simp: frwk_serving_def)
next
  fix ps p sz qs m w m'
  assume s: "frwk_serving H live L (ps @ (p, sz) # qs) (m, w)"
    and m': "\<And>x. x \<notin> block p (unat sz) \<Longrightarrow> m' x = m x"
  have "p = p - 8 + 8" by simp
  with served_user [of live L _ "p - 8" sz _ _ _ m w m'] s m'
  show "frwk_serving H live L (ps @ (p, sz) # qs) (m', w)" by (auto simp: frwk_serving_def)
next
  fix p sz q tz s
  assume "frwk_serving H live L [(p, sz), (q, tz)] s"
  then have "live_disjoint {(p - 8, sz + 8), (q - 8, tz + 8)}" and "(p - 8, sz + 8) \<noteq> (q - 8, tz + 8)"
    and sz: "unat sz + 8 < 2 ^ 32" "unat tz + 8 < 2 ^ 32"
    by (auto simp: frwk_serving_def served_def live_disjoint_def)
  then have "block (p - 8) (unat (sz + 8)) \<inter> block (q - 8) (unat (tz + 8)) = {}"
    using live_disjointD by fastforce
  then show "block p (unat sz) \<inter> block q (unat tz) = {}"
    using user_area_in_block [of _ "p - 8" sz] user_area_in_block [of _ "q - 8" tz] sz by fastforce
qed (rule frwk_alloc)

text \<open>
  C13: \<open>getHandles\<close> and \<open>freeHandles\<close> over the framework's heap leak nothing. Either \<open>getHandles\<close>
  returns \<open>NULL\<close> and the live blocks of the heap are those of before, also when the buffer could
  be allocated and the handle not; or it returns a handle whose base is a buffer, and, whatever
  is written into that buffer afterwards, \<open>freeHandles\<close> with the same dimensions succeeds and
  brings the heap back to where it was.
\<close>

theorem tiled_handles_no_leak:
  assumes "heap_ok H live" "layout_ok T" "live_disjoint (live w)"
    and "unat (buffer_size d0 d1) + 8 < 2 ^ 32"
  shows "\<exists>h m' w'. getHandles T (frwk_params H) (d0, d1) (m, w) = Some (h, m', w') \<and>
     (if h = 0 then live w' = live w
      else \<exists>ptr. get_base T m' h = Some ptr \<and> ptr \<noteq> 0 \<and>
        (\<forall>m2. (\<forall>x. x \<notin> block ptr (unat (buffer_size d0 d1)) \<longrightarrow> m2 x = m' x) \<longrightarrow>
          (\<exists>m3 w3. freeHandles T (frwk_params H) h (d0, d1) (m2, w') = Some (0, m3, w3) \<and>
             live w3 = live w)))"
proof -
  have s: "frwk_serving H live (live w) [] (m, w)"
    using assms(1,3) by (simp add: frwk_serving_def served_def)
  have live: "live w' = live w" if "frwk_serving H live (live w) [] (m', w')" for m' w'
    using that by (simp add: frwk_serving_def served_def)
  from frwk.getHandles_serves [OF assms(2) s assms(4)] obtain h m' w' where
    g: "getHandles T (frwk_params H) (d0, d1) (m, w) = Some (h, m', w')" and
    r: "if h = 0 then frwk_serving H live (live w) [] (m', w')
        else \<exists>ptr. get_base T m' h = Some ptr \<and> ptr \<noteq> 0 \<and>
          frwk_serving H live (live w) [(ptr, buffer_size d0 d1), (h, obj_size T)] (m', w')"
    by (metis fst_conv surj_pair)
  show ?thesis
  proof (cases "h = 0")
    case True
    with g r live show ?thesis by auto
  next
    case False
    with r obtain ptr where ptr: "get_base T m' h = Some ptr" "ptr \<noteq> 0"
      "frwk_serving H live (live w) [(ptr, buffer_size d0 d1), (h, obj_size T)] (m', w')" by auto
    have "\<exists>m3 w3. freeHandles T (frwk_params H) h (d0, d1) (m2, w') = Some (0, m3, w3) \<and> live w3 = live w"
      if "\<forall>x. x \<notin> block ptr (unat (buffer_size d0 d1)) \<longrightarrow> m2 x = m' x" for m2
      using frwk.freeHandles_serves [OF assms(2) ptr(3,1), of m2] that live by fastforce
    with g ptr False show ?thesis by auto
  qed
qed

text \<open>
  The number of bytes \<open>getHandles\<close> asks for is the product of the dimensions modulo \<open>2 ^ 32\<close>:
  dimensions whose product does not fit get a buffer smaller than they describe.
\<close>

lemma buffer_size_wraps:
  "unat (buffer_size d0 d1) =
     (if d1 = 0 then unat d0 else (unat d0 * unat d1) mod 2 ^ 32) \<and>
   buffer_size 0x10000 0x10000 = 0"
  by (simp add: buffer_size_def unat_word_ariths)

text \<open>A handle structure of four bytes that keeps only the base, and a heap without room.\<close>

definition sample_layout :: tm_layout where
  "sample_layout = \<lparr>obj_size = 4, put_obj = (\<lambda>p h m. store32 m p (memoryBaseAddress h)),
     get_base = load32\<rparr>"

lemma sample_layout_ok: "layout_ok sample_layout"
proof -
  have "\<exists>m'. store32 m p v = Some m' \<and> load32 m' p = Some v \<and> (\<forall>x. x \<notin> block p 4 \<longrightarrow> m' x = m x)"
    if "mapped m p 4" for m p v
    using that by (simp add: store32_mapped load32_mem_blit_same block_def mem_blit_outside)
  moreover have "load32 m' p = load32 m p" if "\<forall>x\<in>block p 4. m' x = m x" for m m' p
    using that by (intro load32_cong) (auto simp: block_def unsigned_of_nat take_bit_nat_eq_self)
  ultimately show ?thesis by (auto simp: layout_ok_def sample_layout_def)
qed

lemma tiled_handles_no_leak_witness:
  "\<exists>h m' w'. getHandles sample_layout (frwk_params sample_heap) (64, 16) (sample_mem, None) =
     Some (h, m', w')"
proof -
  have "live_disjoint (sample_live None)" by (simp add: sample_live_def live_disjoint_def)
  moreover have "unat (buffer_size 64 16) + 8 < 2 ^ 32" by (simp add: buffer_size_def)
  ultimately show ?thesis
    using tiled_handles_no_leak [OF sample_heap_ok sample_layout_ok, of None 64 16 sample_mem] by blast
qed

end
