(* ===== verification/Platform.thy ===== *)
theory Platform
  imports Rpc_Args Ivahd Fc_Heap
begin

text \<open>
  Bringing up the Ducati side: \<open>dce_init\<close> and \<open>dce_deinit\<close> as compiled for the server
  (\<^verbatim>\<open>dce.c\<close>), and the platform's start-up, idle hook, application task and \<open>main\<close>
  (\<^verbatim>\<open>ducati/platform/base_image/src/main.c\<close>). The RCM server, the power management library,
  SYS/BIOS and IPC are the fields of a record over a world \<open>'w\<close>, together with the bus to the
  hardware. Loops that wait are partial: \<open>None\<close> is not returning.
\<close>

record pool =
  pool_name :: string
  pool_count :: nat

record 'w os =
  io :: "'w mmio"
  rcms_init :: "'w \<Rightarrow> 'w"
  rcms_create :: "string \<Rightarrow> pool list \<Rightarrow> 'w \<Rightarrow> (u32 \<times> u32) \<times> 'w"
  rcms_add_symbol :: "u32 \<Rightarrow> fxn \<Rightarrow> 'w \<Rightarrow> (u32 \<times> u32) \<times> 'w"
  rcms_start :: "u32 \<Rightarrow> 'w \<Rightarrow> 'w"
  rcms_delete :: "u32 \<Rightarrow> 'w \<Rightarrow> u32 \<times> 'w"
  rcms_exit :: "'w \<Rightarrow> 'w"
  slpm_request :: "'w \<Rightarrow> u32 \<times> 'w"
  slpm_register :: "'w \<Rightarrow> u32 \<times> 'w"
  slpm_idle_processing :: "'w \<Rightarrow> 'w"
  Ipc_start :: "'w \<Rightarrow> u32 \<times> 'w"
  Ipc_attach :: "u16 \<Rightarrow> 'w \<Rightarrow> u32 \<times> 'w"
  MultiProc_getId :: "string \<Rightarrow> u16"
  FCSettings_init :: "'w \<Rightarrow> 'w"
  CESettings_init :: "'w \<Rightarrow> 'w"
  Diags_setMask :: "string \<Rightarrow> 'w \<Rightarrow> 'w"
  Task_sleep :: "u32 \<Rightarrow> 'w \<Rightarrow> 'w"
  System_exit :: "u32 \<Rightarrow> 'w \<Rightarrow> 'w"
  BIOS_start :: "'w \<Rightarrow> 'w"
  frwk :: "'w framework"

record 'w platform =
  srv_handle :: u32
  plat :: 'w

subsection \<open>The server of \<^verbatim>\<open>dce.c\<close>\<close>

text \<open>\<open>SETUP_FXN\<close> on the server: the first function that cannot be registered ends \<open>dce_init\<close>.\<close>

fun add_symbols :: "'w os \<Rightarrow> u32 \<Rightarrow> fxn list \<Rightarrow> 'w \<Rightarrow> u32 option \<times> 'w" where
  "add_symbols S h [] w = (None, w)"
| "add_symbols S h (f # fs) w =
     (case rcms_add_symbol S h f w of ((e, i), w) \<Rightarrow>
        if cneg e \<or> i = 0xffffffff then (Some e, w) else add_symbols S h fs w)"

definition server_pool :: pool where
  "server_pool = \<lparr>pool_name = ''General Pool'', pool_count = 3\<rparr>"

definition dce_server_init :: "'w os \<Rightarrow> 'w platform \<Rightarrow> u32 \<times> 'w platform" where
  "dce_server_init S s =
     (case rcms_create S ''dCE'' [server_pool] (rcms_init S (plat s)) of ((err, h), w) \<Rightarrow>
        let s = s\<lparr>srv_handle := h, plat := w\<rparr>
        in if cneg err then (err, s)
           else case add_symbols S h all_fxns w of
             (Some e, w) \<Rightarrow> (e, s\<lparr>plat := w\<rparr>)
           | (None, w) \<Rightarrow>
               let w = rcms_start S h w;
                   (_, w) = slpm_request S w;
                   (err, w) = slpm_register S w
               in (err, s\<lparr>plat := w\<rparr>))"

definition dce_server_deinit :: "'w os \<Rightarrow> 'w platform \<Rightarrow> u32 \<times> 'w platform" where
  "dce_server_deinit S s =
     (case (if srv_handle s \<noteq> 0
            then (case rcms_delete S (srv_handle s) (plat s) of
                    (e, w) \<Rightarrow> (e, s\<lparr>srv_handle := 0, plat := w\<rparr>))
            else (0, s)) of
       (err, s) \<Rightarrow> (err, s\<lparr>plat := rcms_exit S (plat s)\<rparr>))"

subsection \<open>The platform of \<^verbatim>\<open>main.c\<close>\<close>

text \<open>
  \<open>WUGEN_MEVT0\<close> and the three interrupt bits are declared outside \<^verbatim>\<open>src/\<close>.
\<close>

definition platform_idle_processing :: "'w os \<Rightarrow> u32 \<Rightarrow> u32 \<Rightarrow> 'w \<Rightarrow> 'w" where
  "platform_idle_processing S WUGEN_MEVT0 irqs w =
     slpm_idle_processing S (rmw (io S) WUGEN_MEVT0 (\<lambda>v. v OR irqs) w)"

text \<open>\<open>do { status = Ipc_attach(id); } while (status < 0);\<close>\<close>

partial_function (option) attach :: "'w os \<Rightarrow> u16 \<Rightarrow> 'w \<Rightarrow> 'w option" where
  "attach S i w =
     (case Ipc_attach S i w of (status, w) \<Rightarrow> if cneg status then attach S i w else Some w)"

definition platform_init :: "'w os \<Rightarrow> 'w platform \<Rightarrow> 'w platform option" where
  "platform_init S s = (
     let w = set_ivahd_opp (io S) 0 (plat s);
         (status, w) = Ipc_start S w
     in if cneg status then Some (s\<lparr>plat := w\<rparr>)
        else do {
          w \<leftarrow> attach S (MultiProc_getId S ''MPU'') w;
          w \<leftarrow> attach S (MultiProc_getId S ''SysM3'') w;
          Some (snd (dce_server_init S (s\<lparr>plat := w\<rparr>))) })"

definition platform_deinit :: "'w os \<Rightarrow> 'w platform \<Rightarrow> 'w platform" where
  "platform_deinit S s = snd (dce_server_deinit S s)"

text \<open>\<open>while (1) { Task_sleep(0x7fffffff); }\<close>\<close>

partial_function (option) sleep_forever :: "'w os \<Rightarrow> 'w \<Rightarrow> 'w option" where
  "sleep_forever S w = sleep_forever S (Task_sleep S 0x7fffffff w)"

definition Ducati_AppTask :: "'w os \<Rightarrow> string \<Rightarrow> string \<Rightarrow> 'w platform \<Rightarrow> 'w platform option" where
  "Ducati_AppTask S FCSETTINGS_MODNAME CESETTINGS_MODNAME s = do {
     let w = FCSettings_init S (plat s);
     let w = Diags_setMask S (FCSETTINGS_MODNAME @ ''+12345678LEXAIZFS'') w;
     let w = CESettings_init S w;
     let w = Diags_setMask S (CESETTINGS_MODNAME @ ''+12345678LEXAIZFS'') w;
     let w = init_IVAHDFrwk (frwk S) w;
     (_, w) \<leftarrow> HDVICP_Reset (io S) w;
     s \<leftarrow> platform_init S (s\<lparr>plat := w\<rparr>);
     w \<leftarrow> sleep_forever S (plat s);
     let s = platform_deinit S (s\<lparr>plat := w\<rparr>);
     let w = exit_IVAHDFrwk (frwk S) (plat s);
     Some (s\<lparr>plat := System_exit S 0 w\<rparr>) }"

text \<open>
  \<open>main\<close> on the application core (\<open>DUCATI_APP_M3\<close>). The counter module's registers are declared
  outside \<^verbatim>\<open>src/\<close>: their addresses are parameters. \<open>&&\<close> yields 0 or 1.
\<close>

record ctm_regs =
  CTCNTL :: u32
  CTCR :: "nat \<Rightarrow> u32"
  CTGRST0 :: u32
  CTGNBL0 :: u32

definition c_and :: "u32 \<Rightarrow> u32 \<Rightarrow> u32" where
  "c_and a b = (if a \<noteq> 0 \<and> b \<noteq> 0 then 1 else 0)"

definition start_counters :: "'w mmio \<Rightarrow> ctm_regs \<Rightarrow> 'w \<Rightarrow> 'w" where
  "start_counters bus C w = (
     let w = rmw bus (CTCNTL C) (\<lambda>v. v OR 1) w;
         w = wr bus (CTCR C 2) 0x4 w;
         w = wr bus (CTCR C 3) 0x4 w;
         w = wr bus (CTCR C 4) 0x4 w;
         w = wr bus (CTCR C 5) 0x4 w;
         w = rmw bus (CTGRST0 C) (\<lambda>v. v OR 0x3c) w
     in rmw bus (CTGNBL0 C) (\<lambda>v. v OR 0x14) w)"

definition main :: "'w os \<Rightarrow> ctm_regs \<Rightarrow> 'w \<Rightarrow> 'w" where
  "main S C w = (
     let (v, w) = rd (io S) (CTGNBL0 C) w;
         w = (if c_and v 0x14 \<noteq> 0x14 then start_counters (io S) C w else w)
     in BIOS_start S w)"

subsection \<open>Properties\<close>

text \<open>
  The guard of \<open>main\<close> never skips: \<open>(CTGNBL[0] && 0x14) != 0x14\<close> compares a truth value with
  \<open>0x14\<close>. Counters 2 and 4 that are already enabled are reset and reprogrammed at every start,
  whatever the register reads, where the mask \<open>CTGNBL[0] & 0x14\<close> would have left them alone.
\<close>

lemma main_always_starts_counters:
  "main S C w = BIOS_start S (start_counters (io S) C (snd (rd (io S) (CTGNBL0 C) w))) \<and>
   c_and 0x14 0x14 \<noteq> 0x14 \<and> (0x14 :: u32) AND 0x14 = 0x14"
proof -
  have "c_and v 0x14 \<noteq> 0x14" for v by (simp add: c_and_def)
  then show ?thesis by (simp add: main_def case_prod_beta)
qed

lemma sleep_forever_None: "sleep_forever S w = None"
proof (rule ccontr)
  assume "sleep_forever S w \<noteq> None"
  then obtain w' where "sleep_forever S w = Some w'" by auto
  then show False
    by (rule sleep_forever.raw_induct [where P = "\<lambda>S w w'. False", rotated]) blast
qed

text \<open>
  The application task never returns: whatever the platform answers, control does not get past
  the sleeping loop, so \<open>platform_deinit\<close>, \<open>exit_IVAHDFrwk\<close> and \<open>System_exit\<close> are never called.
\<close>

lemma app_task_never_returns: "Ducati_AppTask S fc ce s = None"
proof -
  have none: "Option.bind x (\<lambda>y. None) = None" for x :: "'b option" by (cases x) simp_all
  show ?thesis
    by (simp add: Ducati_AppTask_def sleep_forever_None split_def Let_def none)
qed

subsection \<open>Registering the handlers\<close>

lemma add_symbols_result:
  assumes "\<And>f w. rcms_add_symbol S h f w = ((e f, i f), g f w)"
  shows "add_symbols S h fs w =
     (case find (\<lambda>f. cneg (e f) \<or> i f = 0xffffffff) fs of
        Some f \<Rightarrow> (Some (e f), fold g (takeWhile (\<lambda>f. \<not> (cneg (e f) \<or> i f = 0xffffffff)) fs @ [f]) w)
      | None \<Rightarrow> (None, fold g fs w))"
proof (induction fs arbitrary: w)
  case Nil
  then show ?case by simp
next
  case (Cons f fs)
  then show ?case by (auto simp: assms split: option.splits)
qed

subsection \<open>Waiting for the other processors\<close>

text \<open>The world after \<open>n\<close> attempts to attach, and the status of the attempt that follows.\<close>

definition tries :: "'w os \<Rightarrow> u16 \<Rightarrow> nat \<Rightarrow> 'w \<Rightarrow> 'w" where
  "tries S i n = (\<lambda>w. snd (Ipc_attach S i w)) ^^ n"

definition refused :: "'w os \<Rightarrow> u16 \<Rightarrow> nat \<Rightarrow> 'w \<Rightarrow> bool" where
  "refused S i n w = cneg (fst (Ipc_attach S i (tries S i n w)))"

lemma tries_Suc: "tries S i (Suc n) w = tries S i n (snd (Ipc_attach S i w))"
  by (simp only: tries_def funpow_Suc_right o_apply)

lemma attach_returns:
  "(\<And>k. k < n \<Longrightarrow> refused S i k w) \<Longrightarrow> \<not> refused S i n w \<Longrightarrow> attach S i w = Some (tries S i (Suc n) w)"
proof (induction n arbitrary: w)
  case 0
  then show ?case by (subst attach.simps) (simp add: refused_def tries_def case_prod_beta)
next
  case (Suc n)
  let ?w = "snd (Ipc_attach S i w)"
  have "refused S i k ?w = refused S i (Suc k) w" for k by (simp add: refused_def tries_Suc)
  with Suc have "attach S i ?w = Some (tries S i (Suc n) ?w)" by (intro Suc.IH) simp_all
  moreover have "cneg (fst (Ipc_attach S i w))" using Suc.prems(1) [of 0] by (simp add: refused_def tries_def)
  ultimately show ?case by (subst attach.simps) (simp add: tries_Suc case_prod_beta)
qed

lemma attach_waits:
  assumes "\<And>n. refused S i n w"
  shows "attach S i w = None"
proof (rule ccontr)
  assume "attach S i w \<noteq> None"
  then obtain w' where "attach S i w = Some w'" by auto
  then have "\<not> (\<forall>n. refused S i n w)"
  proof (rule attach.raw_induct [where P = "\<lambda>S i w w'. \<not> (\<forall>n. refused S i n w)", rotated])
    fix att and S :: "'a os" and i w w'
    assume IH: "\<And>S i w w'. att S i w = Some w' \<Longrightarrow> \<not> (\<forall>n. refused S i n (w :: 'a))"
      and run: "(case Ipc_attach S i w of (status, w) \<Rightarrow> if cneg status then att S i w else Some w) = Some w'"
    show "\<not> (\<forall>n. refused S i n w)"
    proof
      assume all: "\<forall>n. refused S i n w"
      then have "refused S i 0 w" by blast
      then have "cneg (fst (Ipc_attach S i w))" by (simp add: refused_def tries_def)
      with run have "att S i (snd (Ipc_attach S i w)) = Some w'" by (simp add: case_prod_beta)
      from IH [OF this] all show False by (metis refused_def tries_Suc)
    qed
  qed
  with assms show False by blast
qed

text \<open>
  C40: \<open>platform_init\<close> starts the server only after both other processors have attached: it goes on
  asking the first, then the second, for as long as they refuse; when both accept after any number
  of attempts, and the functions can be registered, it has created the server, registered the six
  functions in order, started it, and asked for the cleanup callback. When the first processor
  never accepts, it does not return.
\<close>

theorem platform_init_waits_for_peers:
  fixes S :: "'w os" and s :: "'w platform"
  defines "i1 \<equiv> MultiProc_getId S ''MPU''" and "i2 \<equiv> MultiProc_getId S ''SysM3''"
  assumes start: "Ipc_start S (set_ivahd_opp (io S) 0 (plat s)) = (st, w0)" "\<not> cneg st"
    and add: "\<And>h f w. rcms_add_symbol S h f w = ((e f, i f), g h f w)" "\<And>f. \<not> cneg (e f) \<and> i f \<noteq> 0xffffffff"
  shows "((\<forall>k. refused S i1 k w0) \<longrightarrow> platform_init S s = None) \<and>
    (\<forall>n m h err w. (\<forall>k<n. refused S i1 k w0) \<longrightarrow> \<not> refused S i1 n w0 \<longrightarrow>
       (\<forall>k<m. refused S i2 k (tries S i1 (Suc n) w0)) \<longrightarrow> \<not> refused S i2 m (tries S i1 (Suc n) w0) \<longrightarrow>
       rcms_create S ''dCE'' [server_pool] (rcms_init S (tries S i2 (Suc m) (tries S i1 (Suc n) w0)))
         = ((err, h), w) \<longrightarrow> \<not> cneg err \<longrightarrow>
       platform_init S s = Some (s\<lparr>srv_handle := h, plat :=
         snd (slpm_register S (snd (slpm_request S (rcms_start S h (fold (g h) all_fxns w)))))\<rparr>))"
proof (intro conjI allI impI)
  assume "\<forall>k. refused S i1 k w0"
  then have "attach S i1 w0 = None" by (intro attach_waits) simp
  with start show "platform_init S s = None" by (simp add: platform_init_def i1_def)
next
  fix n m h err w
  let ?w1 = "tries S i1 (Suc n) w0"
  assume n: "\<forall>k<n. refused S i1 k w0" "\<not> refused S i1 n w0"
    and m: "\<forall>k<m. refused S i2 k ?w1" "\<not> refused S i2 m ?w1"
    and c: "rcms_create S ''dCE'' [server_pool] (rcms_init S (tries S i2 (Suc m) ?w1)) = ((err, h), w)"
      "\<not> cneg err"
  have a: "attach S i1 w0 = Some ?w1" "attach S i2 ?w1 = Some (tries S i2 (Suc m) ?w1)"
    using n m by (simp_all add: attach_returns)
  have "find (\<lambda>f. cneg (e f) \<or> i f = 0xffffffff) all_fxns = None" using add(2) by (simp add: find_None_iff)
  then have "add_symbols S h all_fxns w = (None, fold (g h) all_fxns w)"
    using add_symbols_result [of S h e i "g h", OF add(1)] by simp
  with start a c show "platform_init S s = Some (s\<lparr>srv_handle := h, plat :=
      snd (slpm_register S (snd (slpm_request S (rcms_start S h (fold (g h) all_fxns w)))))\<rparr>)"
    by (simp add: platform_init_def dce_server_init_def i1_def i2_def Let_def case_prod_beta)
qed

text \<open>Processors that attach at the fourth attempt; the world counts the attempts.\<close>

definition slow_os :: "nat os" where
  "slow_os = \<lparr>io = \<lparr>rd = (\<lambda>a h. (0, h)), wr = (\<lambda>a v h. h)\<rparr>, rcms_init = id,
     rcms_create = (\<lambda>n p w. ((0, 1), w)), rcms_add_symbol = (\<lambda>h f w. ((0, 0), w)),
     rcms_start = (\<lambda>h w. w), rcms_delete = (\<lambda>h w. (0, w)), rcms_exit = id,
     slpm_request = (\<lambda>w. (0, w)), slpm_register = (\<lambda>w. (0, w)), slpm_idle_processing = id,
     Ipc_start = (\<lambda>w. (0, w)), Ipc_attach = (\<lambda>i w. (if w < 3 then - 1 else 0, Suc w)),
     MultiProc_getId = (\<lambda>n. 0), FCSettings_init = id, CESettings_init = id,
     Diags_setMask = (\<lambda>n w. w), Task_sleep = (\<lambda>t w. w), System_exit = (\<lambda>e w. w), BIOS_start = id,
     frwk = \<lparr>CERuntime_init = id, CERuntime_exit = id, RMAN_init = (\<lambda>w. (0, w)),
       RMAN_register = (\<lambda>r w. (0, w)), IRES_EEXISTS = 5\<rparr>\<rparr>"

lemma slow_os_tries [simp]: "tries slow_os i n w = w + n"
proof (induction n)
  case 0
  then show ?case by (simp add: tries_def)
next
  case (Suc n)
  then show ?case by (simp add: tries_def slow_os_def)
qed

lemma slow_os_refused [simp]: "refused slow_os i n w \<longleftrightarrow> w + n < 3"
  by (simp add: refused_def) (simp add: slow_os_def cneg_def)

lemma platform_init_waits_for_peers_witness:
  "platform_init slow_os \<lparr>srv_handle = 0, plat = 0\<rparr> = Some \<lparr>srv_handle = 1, plat = 5\<rparr>"
proof -
  have "Ipc_start slow_os (set_ivahd_opp (io slow_os) 0 (plat \<lparr>srv_handle = 0, plat = 0\<rparr>)) = (0, 0)"
    by (simp add: slow_os_def set_ivahd_opp_def opp_val_def rmw_def)
  moreover have "rcms_add_symbol slow_os h f w = ((0, 0), w)" for h f w by (simp add: slow_os_def)
  ultimately have "\<forall>n m h err w. (\<forall>k<n. k < 3) \<longrightarrow> \<not> n < 3 \<longrightarrow>
       (\<forall>k<m. Suc n + k < 3) \<longrightarrow> \<not> Suc n + m < 3 \<longrightarrow>
       rcms_create slow_os ''dCE'' [server_pool] (rcms_init slow_os (Suc n + Suc m)) = ((err, h), w) \<longrightarrow>
       \<not> cneg err \<longrightarrow>
       platform_init slow_os \<lparr>srv_handle = 0, plat = 0\<rparr> = Some \<lparr>srv_handle = h, plat =
         snd (slpm_register slow_os (snd (slpm_request slow_os (rcms_start slow_os h
           (fold (\<lambda>f w. w) all_fxns w)))))\<rparr>"
    using platform_init_waits_for_peers [of slow_os "\<lparr>srv_handle = 0, plat = 0\<rparr>" 0 0 "\<lambda>f. 0" "\<lambda>f. 0"
        "\<lambda>h f w. w"] by (simp add: cneg_def)
  from this [rule_format, of 3 0 0 1 5] show ?thesis
    by (simp add: slow_os_def cneg_def all_fxns_def)
qed

text \<open>
  C37: \<open>dce_init\<close> on the server stops at the first handler that cannot be registered, and the
  server is not started then. When the failure is reported through the index only, with no
  negative status, the value returned is that status: the caller is told of a success.
\<close>

theorem unregistered_handler_reported_as_success:
  assumes "rcms_create S ''dCE'' [server_pool] (rcms_init S (plat s)) = ((err, h), w)" "\<not> cneg err"
    and "\<And>f w. rcms_add_symbol S h f w = ((e f, i f), w)"
    and "find (\<lambda>f. cneg (e f) \<or> i f = 0xffffffff) all_fxns = Some f"
  shows "dce_server_init S s = (e f, s\<lparr>srv_handle := h, plat := w\<rparr>) \<and>
     (\<not> cneg (e f) \<longrightarrow> i f = 0xffffffff)"
proof -
  have "add_symbols S h all_fxns w = (Some (e f), w)"
  proof -
    have "fold (\<lambda>f w. w) fs w = w" for fs :: "fxn list" by (induction fs) auto
    then show ?thesis using add_symbols_result [of S h e i "\<lambda>f w. w", OF assms(3)] assms(4) by simp
  qed
  moreover have "cneg (e f) \<or> i f = 0xffffffff" using assms(4) by (auto simp: find_Some_iff)
  ultimately show ?thesis using assms(1,2) by (auto simp: dce_server_init_def Let_def)
qed

definition sample_os :: "unit os" where
  "sample_os = \<lparr>io = \<lparr>rd = (\<lambda>a h. (0, h)), wr = (\<lambda>a v h. h)\<rparr>, rcms_init = id,
     rcms_create = (\<lambda>n p w. ((0, 1), w)),
     rcms_add_symbol = (\<lambda>h f w. ((0, if f = F_VIDDEC3_process then 0xffffffff else 0), w)),
     rcms_start = (\<lambda>h w. w), rcms_delete = (\<lambda>h w. (0, w)), rcms_exit = id,
     slpm_request = (\<lambda>w. (0, w)), slpm_register = (\<lambda>w. (0, w)), slpm_idle_processing = id,
     Ipc_start = (\<lambda>w. (0, w)), Ipc_attach = (\<lambda>i w. (0, w)), MultiProc_getId = (\<lambda>n. 0),
     FCSettings_init = id, CESettings_init = id, Diags_setMask = (\<lambda>n w. w),
     Task_sleep = (\<lambda>t w. w), System_exit = (\<lambda>e w. w), BIOS_start = id,
     frwk = \<lparr>CERuntime_init = id, CERuntime_exit = id, RMAN_init = (\<lambda>w. (0, w)),
       RMAN_register = (\<lambda>r w. (0, w)), IRES_EEXISTS = 5\<rparr>\<rparr>"

lemma unregistered_handler_reported_as_success_witness:
  "fst (dce_server_init sample_os \<lparr>srv_handle = 0, plat = ()\<rparr>) = 0"
  using unregistered_handler_reported_as_success [where S = sample_os and h = 1 and err = 0 and w = "()"
      and s = "\<lparr>srv_handle = 0, plat = ()\<rparr>" and e = "\<lambda>f. 0" and f = F_VIDDEC3_process
      and i = "\<lambda>f. if f = F_VIDDEC3_process then 0xffffffff else 0"]
  by (simp add: sample_os_def all_fxns_def)

end
