(* ===== verification/Spec2Isabelle.thy ===== *)
theory Spec2Isabelle
  imports Base_Types Header_Props Ce_Types Handler_Threads Serving_Clock Server_Resources Test_Run Test_Loop Tiled_Memory Platform
begin

text \<open>
  Verification library for libdce, the library that gives an application on the Cortex-A9 of an
  OMAP4 the video decoders of the IVA-HD accelerator, which the Cortex-M3 pair ("Ducati") drives.

  \<^bold>\<open>The program.\<close> \<^verbatim>\<open>src/dce.c\<close> is compiled twice. As the client it has stubs for the functions of
  the codec engine (\<open>Engine_open\<close>, \<open>Engine_close\<close>, \<open>VIDDEC3_create\<close>, \<open>_control\<close>, \<open>_process\<close>,
  \<open>_delete\<close>) that pack their arguments into an RCM message and wait for the answer; structures are
  passed by address, in blocks from \<open>dce_alloc\<close> whose header holds the physical address and the
  size. As the server (\<open>SERVER\<close>) it has the handlers that unpack the messages, call the codec
  engine, clean the cache over the blocks and pack the result, a table of client processes with
  the handles each holds, and a callback that closes what a dead process left open.
  \<^verbatim>\<open>src/ducati/platform/base_image/src/main.c\<close> starts the server's processor, resets the
  accelerator and switches its clock with use; \<^verbatim>\<open>baseimage_ivahd_frwkconfig.c\<close> gives the codec
  framework its memory functions; \<^verbatim>\<open>iresman_tiledmemory.c\<close> serves buffers through them.
  \<^verbatim>\<open>src/test.c\<close> is an application: it decodes a file with a pool of output buffers. The headers
  under \<^verbatim>\<open>src/packages\<close> are the binary interface that client, server and codecs share.

  \<^bold>\<open>Theories.\<close>
  \<^item> \<open>Prelude\<close>: words, byte strings, memory as a map from addresses to bytes with partial loads
    and stores, searching and updating of lists. \<open>C_Layout\<close>: C types, sizes, offsets.
    \<open>Base_Types\<close>: the typedefs of \<^verbatim>\<open>std.h\<close> and \<^verbatim>\<open>xdas.h\<close>, resolved in their order under the macros
    that select them, with the sizes that the layouts use; the trace macros of \<^verbatim>\<open>dce_priv.h\<close>.
  \<^item> Interface headers: \<open>Ialg_Types\<close>, \<open>Xdm_Types\<close>, \<open>Ivideo_Types\<close>, \<open>Ividdec3_Types\<close>,
    \<open>Codec_Types\<close> (seven codecs), \<open>Engine_Types\<close>, \<open>Ce_Types\<close> (Comm, node, VISA, skeletons):
    an enumeration is a datatype with the value of each constant, a structure a value of \<open>ctype\<close>
    with lemmas for its size and alignment. \<open>Header_Props\<close>: the codecs' structures can be passed
    where the generic ones are expected; the bit macros of \<^verbatim>\<open>xdm.h\<close>.
  \<^item> \<^verbatim>\<open>dce.c\<close>, shared: \<open>Mem_Header\<close> (\<open>dce_alloc\<close>, \<open>dce_free\<close>, \<open>virt2ducati\<close>, \<open>dce_clean\<close>; round
    trip through the header), \<open>Rpc_Args\<close> (the six argument unions as layouts over message bytes;
    the server reads what the stub stored).
  \<^item> \<^verbatim>\<open>dce.c\<close>, server: \<open>Client_Table\<close> (the table and its four operations; locale \<open>handle_array\<close>
    for the two arrays of an entry; invariant and refinement to a map from processes to
    handles), \<open>Client_History\<close> (sequences of operations, inside and outside the limits of the
    code), \<open>Interleave\<close> (schedules of threads on the table; locale \<open>entry_threads\<close>, the contract
    under which threads of different processes do not disturb each other), \<open>Table_Threads\<close> (the
    operations of the table one access at a time), \<open>Rpc_Server\<close> (the handlers and
    \<open>dce_cleanup_cb\<close>), \<open>Server_Cleanup\<close> (the cleanup closes everything once), \<open>Server_Calls\<close> (what
    each handler calls, answers and records), \<open>Server_Resources\<close> (over the whole life of a server
    the table records exactly what is open in a codec engine that keeps its contract),
    \<open>Handler_Threads\<close> (handlers and cleanup as concurrent threads).
  \<^item> \<^verbatim>\<open>dce.c\<close>, client: \<open>Rpc_Client\<close> (stubs, \<open>init\<close>, \<open>deinit\<close>, \<open>dce_init\<close>, \<open>dce_deinit\<close>),
    \<open>Client_Stubs\<close> (every message released once: locale \<open>message_discipline\<close>), \<open>Client_Life\<close>
    (the connection and its count). \<open>Transport\<close>: the contract of what carries the messages, as locale
    \<open>carrier\<close> (any message may be lost, without effect) and its extension \<open>delivery\<close> (the messages of
    some functions get through), interpreted on an instance on which the witnesses run and on one that
    loses everything. \<open>Dce_System\<close>: stubs and handlers composed over any transport that delivers;
    \<open>Remote_Session\<close>: sessions of several applications over them are sessions with the codec
    engine itself, wherever the blocks passed have a mapped header. \<open>Staged_Jobs\<close> (jobs that make one call each, in stages; locale \<open>staged_jobs\<close>) and
    \<open>Concurrent_Serving\<close>: messages that the three workers serve at the same time are answered as if
    they were served one by one. \<open>Serving_Clock\<close>: the accelerator is clocked exactly while one of
    them has a codec at work.
  \<^item> Platform: \<open>Ivahd\<close> (registers, \<open>HDVICP_Reset\<close>, clock and use count; threads as a step
    relation), \<open>Platform\<close> (start of the server, \<open>platform_init\<close>, application task, \<open>main\<close>),
    \<open>Fc_Heap\<close> and \<open>Fc_Heap_Props\<close> (\<open>allocFxn\<close>, \<open>freeFxn\<close> all or nothing), \<open>Tiled_Memory\<close>
    (resource manager, proved against the contract \<open>framework_memory\<close>, which \<open>allocFxn\<close> and
    \<open>freeFxn\<close> are shown to keep).
  \<^item> \<^verbatim>\<open>test.c\<close>: \<open>Test_Buffers\<close> and \<open>Test_Pool\<close> (the free list of output buffers; locale
    \<open>buffer_pool\<close>), \<open>Test_Io\<close> and \<open>Test_Files\<close> (file names, reading, writing), \<open>Test_Main\<close> (the
    body of \<open>main\<close>), \<open>Test_Decode\<close> (ownership of buffers over a turn), \<open>Test_Dims\<close> (dimensions),
    \<open>Test_Session\<close> (\<open>main\<close> against the server, over a transport that delivers), \<open>Test_Complete\<close> (what
    every run of \<open>main\<close> leaves on the server, also when messages are lost), \<open>Test_Run\<close> (a run through
    the decoding loop that returns), \<open>Test_Loop\<close> (the decoding loop returns, with a codec that keeps its
    contract and an input that ends, and every output buffer is then free or with the codec).

  \<^bold>\<open>State and effects.\<close> A C structure in memory is its bytes; \<open>None\<close> as the result of a definition
  is undefined behaviour (an access to unmapped memory, a freed cell, a division by zero, the use
  of an uninitialised value) or, for a loop, not returning. 32-bit integers are \<open>32 word\<close>, read
  as signed where the code does. A \<open>Client *\<close> is an index. Error codes are the words of the code.

  \<^bold>\<open>Loops.\<close> Loops over arrays of ten and over tables recurse over the index or the list. Loops that
  end only when hardware, peers, files or pointers let them are \<open>partial_function (option)\<close>
  (\<open>poll\<close>, \<open>attach\<close>, \<open>sleep_forever\<close>, \<open>output_free\<close>, \<open>read_loop\<close>, \<open>write_loop\<close>, \<open>output_loop\<close>,
  \<open>release_loop\<close>, \<open>decode_loop\<close>): that they return is part of what is proved, or a hypothesis that
  names a run. No fuel is used; 27 in \<open>Table_Threads\<close> bounds the accesses of one call (ten tests of
  \<open>pid\<close>, ten of a handle, and the stores, each loop's end included), and 640 in \<open>Handler_Threads\<close> the
  steps of a cleanup (eleven to find the entry, then for each of twenty slots a test, a load, a call of
  at most 28 steps and the call of the engine), and 7 in \<open>Concurrent_Serving\<close> the stages of the longest
  handler (\<open>Task_setEnv\<close> with the acquisition of the accelerator, the call of the codec, its release,
  four blocks to clean).

  \<^bold>\<open>Parameters.\<close> What is not under \<^verbatim>\<open>src\<close> is an argument: the RCM client and server, IPC and
  MultiProc, MemMgr and TilerMem, the codec engine, the cache functions, SYS/BIOS, the power
  manager, the heap behind \<open>Memory_alloc\<close>, the handle structure of the tiled memory, and the
  calls of the operating system in \<^verbatim>\<open>test.c\<close>. Hypotheses about them state their documented
  behaviour (a heap returns disjoint live blocks or fails, a file is delivered in pieces until
  its end, the codec engine answers with handles that are not in use and leaves others alone, a codec
  gives back buffers it holds, writing back the cache changes nothing that is seen,
  the clock of the accelerator does not change what a codec computes), and the witnesses
  instantiate them.
  Of the transport it is relied on that a connection can be set up while the server runs, that a message
  is executed by the handler of its function or lost without effect, and that operations of one process
  leave the connections of others alone; a handler that faults stops the server, and nothing is claimed
  of what follows. A file is only promised to be read into memory that is mapped. Where a theorem takes
  all of the memory to be mapped, the text before it says so.

  \<^bold>\<open>Not modelled.\<close> The text and the arguments of console and trace messages (\<open>System_printf\<close>,
  \<open>printf\<close>); prototypes of functions that libraries or codecs implement; the header of a compiler
  target that \<^verbatim>\<open>std.h\<close> may include; build files, scripts and
  the linker configuration. The mutex of the client makes \<open>init\<close> and \<open>deinit\<close> single steps.
\<close>

end
